theory Spec2Isabelle
  imports Main
begin

section \<open>Physical lines and raw pins\<close>

text \<open>
  The board's GPIO lines. Each line has a direction, a pull and an output latch
  (\<^verbatim>\<open>Pin.IN\<close>, \<^verbatim>\<open>Pin.OUT\<close>, \<^verbatim>\<open>Pin.PULL_UP\<close>, \<^verbatim>\<open>Pin.PULL_DOWN\<close> of
  \<^verbatim>\<open>ttboard.pins.upython\<close>). The world outside the microcontroller is a function
  \<open>env\<close>: the level a line shows when it is sampled as an input, which may depend on
  what the other lines drive (the TT04 on-board mux is such a dependency).
\<close>

datatype pin_mode = IN | OUT

datatype pin_pull = PULL_NONE | PULL_UP | PULL_DOWN

record gpio_line =
  line_mode :: pin_mode
  line_pull :: pin_pull
  line_out :: bool

type_synonym lines = "nat \<Rightarrow> gpio_line"

type_synonym env = "lines \<Rightarrow> nat \<Rightarrow> bool"

text \<open>Python exceptions the modelled code can raise.\<close>

datatype error = RuntimeError string | AttributeError string | KeyError string | IndexError

text \<open>
  The trace lists, in issuing order, every operation on a physical line, every
  construction of a muxed pin and every log record of level warn or error (the debug and
  info records are left out: their texts need \<^verbatim>\<open>RPMode.to_string\<close> and the topology
  class's \<^verbatim>\<open>repr\<close>, which are not among the sources).
\<close>

datatype event =
    PinInit nat pin_mode "pin_pull option"
  | PinMode nat pin_mode
  | PinPull nat pin_pull
  | PinWrite nat bool
  | PinRead nat bool
  | MuxedPinNew string
  | LogWarn string
  | LogError string

record machine =
  lines :: lines
  trace :: "event list"

definition level :: "env \<Rightarrow> lines \<Rightarrow> nat \<Rightarrow> bool" where
  "level E L g = (if line_mode (L g) = OUT then line_out (L g) else E L g)"

text \<open>
  Modelled from the spec: the raw pin capability of section 6 (\<^verbatim>\<open>get_raw_pin\<close> of
  \<^verbatim>\<open>ttboard.pins.gpio_map\<close> is not among the sources). A handle is obtained from a
  physical id and an initial mode; it supports a bit write and a bit read. A read of an
  output line returns the latch, a read of an input line samples the line.
\<close>

definition get_raw_pin :: "nat \<Rightarrow> pin_mode \<Rightarrow> 'a machine_scheme \<Rightarrow> 'a machine_scheme" where
  "get_raw_pin g m s =
     s\<lparr>lines := (lines s)(g := (lines s g)\<lparr>line_mode := m\<rparr>),
       trace := trace s @ [PinInit g m None]\<rparr>"

definition raw_write :: "nat \<Rightarrow> bool \<Rightarrow> 'a machine_scheme \<Rightarrow> 'a machine_scheme" where
  "raw_write g v s =
     s\<lparr>lines := (lines s)(g := (lines s g)\<lparr>line_out := v\<rparr>),
       trace := trace s @ [PinWrite g v]\<rparr>"

definition raw_read :: "env \<Rightarrow> nat \<Rightarrow> 'a machine_scheme \<Rightarrow> bool \<times> 'a machine_scheme" where
  "raw_read E g s =
     (let v = level E (lines s) g in (v, s\<lparr>trace := trace s @ [PinRead g v]\<rparr>))"

section \<open>Pin topology\<close>

text \<open>
  Modelled from the spec: the PinTopology of sections 3 and 4.1 (the classes
  \<^verbatim>\<open>GPIOMapTT04\<close> and \<^verbatim>\<open>GPIOMapTT06\<close> of \<^verbatim>\<open>ttboard.pins.gpio_map\<close> are not among the
  sources). The fields are the accessors the sources call: \<^verbatim>\<open>all()\<close> is a dict from
  name to physical id, kept as the list of its items in iteration order;
  \<^verbatim>\<open>muxed_pairs()\<close> is a dict from the name of a shared pin to its two logical halves;
  \<^verbatim>\<open>muxed_pinmode_map(mode)\<close> is a dict from the name of a half to its direction in
  the given operating mode.
\<close>

record gpiomap =
  all_pins :: "(string \<times> nat) list"
  always_outputs :: "string list"
  default_pull :: "string \<Rightarrow> pin_pull"
  demoboard_uses_mux :: bool
  mux_select :: nat
  muxed_pairs :: "(string \<times> string \<times> string) list"
  muxed_pinmode_map :: "int option \<Rightarrow> string \<Rightarrow> pin_mode option"
  ctrl_enable :: nat
  ctrl_increment :: nat
  ctrl_reset :: nat

section \<open>Hardware revision detection (\<^verbatim>\<open>ttboard/boot/demoboard_detect.py\<close>)\<close>

text \<open>\<^verbatim>\<open>DemoboardVersion\<close>: integer constants.\<close>

definition UNKNOWN :: int where "UNKNOWN = 0"
definition TT04 :: int where "TT04 = 1"
definition TT06 :: int where "TT06 = 2"

text \<open>
  The two topology classes as values of the module variable
  \<^verbatim>\<open>ttboard.pins.gpio_map.GPIOMap\<close>; \<open>None\<close> stands for the binding the module has
  before the detector assigns one.
\<close>

datatype gpiomap_cls = GPIOMapTT04 | GPIOMapTT06

text \<open>
  The class attributes of \<^verbatim>\<open>DemoboardDetect\<close> together with the module variable
  \<^verbatim>\<open>GPIOMap\<close> and the machine the probes run on.
\<close>

record detect = machine +
  PCB :: int
  CarrierPresent :: "bool option"
  GPIOMap :: "gpiomap_cls option"

definition probe_pullups :: "env \<Rightarrow> gpiomap \<Rightarrow> detect \<Rightarrow> bool \<times> detect" where
  "probe_pullups E M06 s0 =
     (let s1 = get_raw_pin (ctrl_enable M06) IN s0;
          s2 = get_raw_pin (ctrl_reset M06) IN s1;
          (crst, s3) = raw_read E (ctrl_reset M06) s2;
          (cena, s4) = raw_read E (ctrl_enable M06) s3
      in if \<not> crst \<and> \<not> cena then
           (True, s4\<lparr>PCB := TT06, CarrierPresent := Some True\<rparr>)
         else
           (False,
            if crst \<and> cena then
              s4\<lparr>trace := trace s4 @ [LogWarn ''TT04 demoboard OR TT06 No carrier present''],
                 PCB := UNKNOWN, CarrierPresent := None\<rparr>
            else s4))"

definition probe_tt04mux :: "env \<Rightarrow> gpiomap \<Rightarrow> detect \<Rightarrow> bool \<times> detect" where
  "probe_tt04mux E M04 s0 =
     (let s1 = get_raw_pin (mux_select M04) OUT s0;
          s2 = get_raw_pin (ctrl_enable M04) IN s1;
          s3 = get_raw_pin (ctrl_increment M04) IN s2;
          s4 = get_raw_pin (ctrl_reset M04) IN s3;
          s5 = raw_write (mux_select M04) False s4;
          (a0, s6) = raw_read E (ctrl_enable M04) s5;
          (b0, s7) = raw_read E (ctrl_increment M04) s6;
          (c0, s8) = raw_read E (ctrl_reset M04) s7;
          mux_0 = [a0, b0, c0];
          s9 = raw_write (mux_select M04) True s8;
          (a1, s10) = raw_read E (ctrl_enable M04) s9;
          (b1, s11) = raw_read E (ctrl_increment M04) s10;
          (c1, s12) = raw_read E (ctrl_reset M04) s11;
          mux_1 = [a1, b1, c1]
      in if mux_1 \<noteq> mux_0 then (True, s12\<lparr>PCB := TT04\<rparr>) else (False, s12))"

definition configure_gpiomap :: "detect \<Rightarrow> (error + unit) \<times> detect" where
  "configure_gpiomap s =
     (let mapToUse = [TT04 \<mapsto> GPIOMapTT04, TT06 \<mapsto> GPIOMapTT06]
      in case mapToUse (PCB s) of
           Some m \<Rightarrow> (Inr (), s\<lparr>GPIOMap := Some m\<rparr>)
         | None \<Rightarrow> (Inl (RuntimeError ''Cannot set GPIO map''), s))"

definition probe :: "env \<Rightarrow> gpiomap \<Rightarrow> gpiomap \<Rightarrow> detect \<Rightarrow> (error + bool) \<times> detect" where
  "probe E M04 M06 s0 =
     (case probe_tt04mux E M04 s0 of
        (True, s1) \<Rightarrow>
          (case configure_gpiomap s1 of
             (Inl e, s2) \<Rightarrow> (Inl e, s2)
           | (Inr _, s2) \<Rightarrow> (Inr True, s2))
      | (False, s1) \<Rightarrow>
          (case probe_pullups E M06 s1 of
             (True, s2) \<Rightarrow>
               (case configure_gpiomap s2 of
                  (Inl e, s3) \<Rightarrow> (Inl e, s3)
                | (Inr _, s3) \<Rightarrow> (Inr True, s3))
           | (False, s2) \<Rightarrow>
               (case configure_gpiomap (s2\<lparr>PCB := TT06\<rparr>) of
                  (Inl e, s3) \<Rightarrow> (Inl e, s3)
                | (Inr _, s3) \<Rightarrow> (Inr False, s3))))"

definition force_detection :: "int \<Rightarrow> detect \<Rightarrow> (error + unit) \<times> detect" where
  "force_detection dbversion s = configure_gpiomap (s\<lparr>PCB := dbversion\<rparr>)"


section \<open>Logical pins\<close>

text \<open>
  Modelled from the spec: the LogicalPin of sections 3 and 4.3 (\<^verbatim>\<open>StandardPin\<close> of
  \<^verbatim>\<open>ttboard.pins.standard\<close> is not among the sources). A pin object is a handle: a name
  bound to a physical id. Its mode, its pull and the value last written are those of the
  line it is bound to. Construction sets mode and pull; a write is buffered in the latch
  whatever the mode; a read returns the latch of an output and samples an input.
\<close>

definition line_init :: "nat \<Rightarrow> pin_mode \<Rightarrow> pin_pull \<Rightarrow> 'a machine_scheme \<Rightarrow> 'a machine_scheme" where
  "line_init g m q s =
     s\<lparr>lines := (lines s)(g := (lines s g)\<lparr>line_mode := m, line_pull := q\<rparr>),
       trace := trace s @ [PinInit g m (Some q)]\<rparr>"

definition line_set_mode :: "nat \<Rightarrow> pin_mode \<Rightarrow> 'a machine_scheme \<Rightarrow> 'a machine_scheme" where
  "line_set_mode g m s =
     s\<lparr>lines := (lines s)(g := (lines s g)\<lparr>line_mode := m\<rparr>),
       trace := trace s @ [PinMode g m]\<rparr>"

definition line_set_pull :: "nat \<Rightarrow> pin_pull \<Rightarrow> 'a machine_scheme \<Rightarrow> 'a machine_scheme" where
  "line_set_pull g q s =
     s\<lparr>lines := (lines s)(g := (lines s g)\<lparr>line_pull := q\<rparr>),
       trace := trace s @ [PinPull g q]\<rparr>"

text \<open>
  Modelled from the spec: the MuxedPin and MuxController of sections 3 and 4.4
  (\<^verbatim>\<open>ttboard.pins.muxed\<close> and \<^verbatim>\<open>ttboard.pins.mux_control\<close> are not among the sources).
  \<^verbatim>\<open>MuxedPinInfo(name, index, mode)\<close> describes one logical half of a muxed pin. The
  controller owns the selector pin, the current selection (index 0 or 1, or
  administration) and the registry of muxed pins.
\<close>

datatype MuxedPinInfo = MuxedPinInfo (info_name: string) (info_select: nat) (info_dir: pin_mode)

text \<open>
  The objects an attribute of \<^verbatim>\<open>Pins\<close> can hold: a \<^verbatim>\<open>StandardPin\<close>, the bare
  \<^verbatim>\<open>machine.Pin\<close> behind it (\<^verbatim>\<open>raw_pin\<close>), a \<^verbatim>\<open>MuxedPin\<close> on a shared line, and the
  callable that a \<^verbatim>\<open>MuxedPin\<close> offers for one of its halves.
\<close>

datatype pyobj =
    StandardPin string (pin_gpio: nat)
  | RawPin (pin_gpio: nat)
  | MuxedPin string (pin_gpio: nat) MuxedPinInfo MuxedPinInfo
  | MuxedSub string (pin_gpio: nat) MuxedPinInfo

datatype mux_sel = SelIndex nat | SelAdmin

record MuxControl =
  ctrlpin :: pyobj
  selected :: mux_sel
  muxedPins :: "pyobj list"

section \<open>The pin set (\<^verbatim>\<open>ttboard/pins/pins.py\<close>)\<close>

text \<open>
  The state of a \<^verbatim>\<open>Pins\<close> object on its machine. \<open>attrs\<close> holds the attributes that
  \<^verbatim>\<open>setattr\<close> creates by name (the named pins and their \<^verbatim>\<open>pin_\<close> aliases; a topology's
  names are pin names, none of them the name of a member of the class); \<open>mode_attr\<close> is
  \<^verbatim>\<open>_mode\<close>, \<open>None\<close> before the first assignment; \<open>muxCtrl\<close> is \<open>None\<close> when
  \<^verbatim>\<open>__init__\<close> has not created the attribute (a topology without the mux).
\<close>

record pins = machine +
  dieOnInputControlSwitchHigh :: bool
  mode_attr :: "int option"
  attrs :: "string \<Rightarrow> pyobj option"
  allpins :: "string \<Rightarrow> pyobj option"
  muxCtrl :: "MuxControl option"

text \<open>
  The operating-mode constants of \<^verbatim>\<open>ttboard.mode\<close> (\<^verbatim>\<open>RPMode\<close> and
  \<^verbatim>\<open>RPModeDEVELOPMENT\<close>), which is not among the sources: integers, taken as a parameter.
\<close>

record RPMode =
  SAFE :: int
  ASIC_RP_CONTROL :: int
  ASIC_MANUAL_INPUTS :: int
  STANDALONE :: int

definition muxName :: string where
  "muxName = ''hk_csb''"

definition bind :: "error + 'a \<Rightarrow> ('a \<Rightarrow> error + 'b) \<Rightarrow> error + 'b" where
  "bind m f = (case m of Inl e \<Rightarrow> Inl e | Inr x \<Rightarrow> f x)"

text \<open>A \<^verbatim>\<open>for\<close> loop over a list whose body may raise.\<close>

fun for_each :: "('x \<Rightarrow> 'st \<Rightarrow> error + 'st) \<Rightarrow> 'x list \<Rightarrow> 'st \<Rightarrow> error + 'st" where
  "for_each body [] s = Inr s"
| "for_each body (x # xs) s = bind (body x s) (for_each body xs)"

definition startswith :: "string \<Rightarrow> string \<Rightarrow> bool" where
  "startswith s p = (take (length p) s = p)"

fun join :: "string \<Rightarrow> string list \<Rightarrow> string" where
  "join sep [] = []"
| "join sep [x] = x"
| "join sep (x # y # ys) = x @ sep @ join sep (y # ys)"

definition getattr :: "pins \<Rightarrow> string \<Rightarrow> error + pyobj" where
  "getattr s name = (case attrs s name of None \<Rightarrow> Inl (AttributeError name) | Some p \<Rightarrow> Inr p)"

definition setattr :: "string \<Rightarrow> pyobj \<Rightarrow> pins \<Rightarrow> pins" where
  "setattr name p s = s\<lparr>attrs := (attrs s)(name \<mapsto> p)\<rparr>"

definition log_warn :: "string \<Rightarrow> 'a machine_scheme \<Rightarrow> 'a machine_scheme" where
  "log_warn msg s = s\<lparr>trace := trace s @ [LogWarn msg]\<rparr>"

definition log_error :: "string \<Rightarrow> 'a machine_scheme \<Rightarrow> 'a machine_scheme" where
  "log_error msg s = s\<lparr>trace := trace s @ [LogError msg]\<rparr>"

subsection \<open>Operations on pin objects\<close>

text \<open>
  \<^verbatim>\<open>p.mode = m\<close> and \<^verbatim>\<open>p.pull = q\<close>: every pin object but the bare \<^verbatim>\<open>machine.Pin\<close>
  (which has no such attribute to assign) configures the line it is bound to.
\<close>

definition set_pin_mode :: "pyobj \<Rightarrow> pin_mode \<Rightarrow> pins \<Rightarrow> error + pins" where
  "set_pin_mode p m s =
     (case p of
        RawPin g \<Rightarrow> Inl (AttributeError ''mode'')
      | _ \<Rightarrow> Inr (line_set_mode (pin_gpio p) m s))"

definition set_pin_pull :: "pyobj \<Rightarrow> pin_pull \<Rightarrow> pins \<Rightarrow> error + pins" where
  "set_pin_pull p q s =
     (case p of
        RawPin g \<Rightarrow> Inl (AttributeError ''pull'')
      | _ \<Rightarrow> Inr (line_set_pull (pin_gpio p) q s))"

text \<open>
  Modelled from the spec (section 4.4): \<^verbatim>\<open>select(index)\<close> drives the selector line to
  route the shared pin to the half \<open>index\<close>. An access to a half switches the
  controller's selection to its index if it is not already there, performs the access on
  the shared pin in the mode recorded for that index, and does not restore the prior
  selection.
\<close>

definition select :: "nat \<Rightarrow> pins \<Rightarrow> error + pins" where
  "select i s =
     (case muxCtrl s of
        None \<Rightarrow> Inl (AttributeError ''muxCtrl'')
      | Some mc \<Rightarrow>
          Inr ((raw_write (pin_gpio (ctrlpin mc)) (i \<noteq> 0) s)
                 \<lparr>muxCtrl := Some (mc\<lparr>selected := SelIndex i\<rparr>)\<rparr>))"

definition select_pin :: "nat \<Rightarrow> MuxedPinInfo \<Rightarrow> pins \<Rightarrow> error + pins" where
  "select_pin g info s =
     (case muxCtrl s of
        None \<Rightarrow> Inl (AttributeError ''muxCtrl'')
      | Some mc \<Rightarrow>
          bind (if selected mc = SelIndex (info_select info) then Inr s
                else select (info_select info) s)
            (\<lambda>s1. Inr (line_set_mode g (info_dir info) s1)))"

text \<open>\<^verbatim>\<open>p()\<close>: a read.\<close>

definition pin_read :: "env \<Rightarrow> pyobj \<Rightarrow> pins \<Rightarrow> error + bool \<times> pins" where
  "pin_read E p s =
     (case p of
        MuxedSub pname g info \<Rightarrow> bind (select_pin g info s) (\<lambda>s1. Inr (raw_read E g s1))
      | _ \<Rightarrow> Inr (raw_read E (pin_gpio p) s))"

text \<open>\<^verbatim>\<open>p(v)\<close>: a write.\<close>

definition pin_write :: "pyobj \<Rightarrow> bool \<Rightarrow> pins \<Rightarrow> error + pins" where
  "pin_write p v s =
     (case p of
        MuxedSub pname g info \<Rightarrow> bind (select_pin g info s) (\<lambda>s1. Inr (raw_write g v s1))
      | _ \<Rightarrow> Inr (raw_write (pin_gpio p) v s))"

subsection \<open>The steps of a mode transition\<close>

definition begin_inputs_all_body :: "gpiomap \<Rightarrow> string \<times> nat \<Rightarrow> pins \<Rightarrow> error + pins" where
  "begin_inputs_all_body G = (\<lambda>(name, gpio) s.
     if name = muxName then Inr s
     else
       let p_type = (if count_list (always_outputs G) name > 0 then OUT else IN);
           s1 = line_init gpio p_type (default_pull G name) s;
           p = StandardPin name gpio;
           s2 = setattr (''pin_'' @ name) (RawPin gpio) s1;
           s3 = setattr name p s2
       in Inr (s3\<lparr>allpins := (allpins s3)(name \<mapsto> p)\<rparr>))"

definition begin_inputs_all :: "gpiomap \<Rightarrow> pins \<Rightarrow> error + pins" where
  "begin_inputs_all G s = for_each (begin_inputs_all_body G) (all_pins G) s"

definition begin_alwaysOut :: "gpiomap \<Rightarrow> pins \<Rightarrow> error + pins" where
  "begin_alwaysOut G s =
     for_each (\<lambda>pname s. bind (getattr s pname) (\<lambda>p. set_pin_mode p OUT s))
       (always_outputs G) s"

definition begin_muxPins_body ::
  "(string \<Rightarrow> pin_mode option) \<Rightarrow> string \<times> string \<times> string \<Rightarrow> pins \<Rightarrow> error + pins" where
  "begin_muxPins_body modeMap = (\<lambda>(pname, muxPair0, muxPair1) s.
     case muxCtrl s of
       None \<Rightarrow> Inl (AttributeError ''muxCtrl'')
     | Some mc \<Rightarrow>
         bind (getattr s pname) (\<lambda>p.
           case modeMap muxPair0 of
             None \<Rightarrow> Inl (KeyError muxPair0)
           | Some dir0 \<Rightarrow>
               (case modeMap muxPair1 of
                  None \<Rightarrow> Inl (KeyError muxPair1)
                | Some dir1 \<Rightarrow>
                    let i0 = MuxedPinInfo muxPair0 0 dir0;
                        i1 = MuxedPinInfo muxPair1 1 dir1;
                        mp = MuxedPin pname (pin_gpio p) i0 i1;
                        s1 = s\<lparr>trace := trace s @ [MuxedPinNew pname]\<rparr>;
                        s2 = s1\<lparr>muxCtrl := Some (mc\<lparr>muxedPins := muxedPins mc @ [mp]\<rparr>)\<rparr>;
                        s3 = s2\<lparr>allpins := (allpins s2)(pname \<mapsto> mp)\<rparr>;
                        s4 = setattr muxPair0 (MuxedSub pname (pin_gpio p) i0) s3;
                        s5 = setattr muxPair1 (MuxedSub pname (pin_gpio p) i1) s4
                    in Inr (setattr pname mp s5))))"

definition begin_muxPins :: "gpiomap \<Rightarrow> pins \<Rightarrow> error + pins" where
  "begin_muxPins G s =
     (if \<not> demoboard_uses_mux G then Inr s
      else for_each (begin_muxPins_body (muxed_pinmode_map G (mode_attr s))) (muxed_pairs G) s)"

definition project_clk_driven_by_RP2040 :: "bool \<Rightarrow> pins \<Rightarrow> error + pins" where
  "project_clk_driven_by_RP2040 rpControlled s =
     for_each (\<lambda>pname s.
         bind (getattr s pname) (\<lambda>p.
           if rpControlled then set_pin_mode p OUT s else set_pin_mode p IN s))
       [''rp_projclk''] s"

definition contention_warning :: "string \<Rightarrow> string" where
  "contention_warning pname =
     ''Trying to control '' @ pname @ '' but possible contention (it is reading HIGH)''"

definition contention_error :: "string list \<Rightarrow> string" where
  "contention_error unconfigured_pins =
     ''Following pins have not be set as outputs owing to contention: '' @
     join '','' unconfigured_pins"

definition begin_asiconboard_body ::
  "env \<Rightarrow> string \<Rightarrow> string list \<times> pins \<Rightarrow> error + string list \<times> pins" where
  "begin_asiconboard_body E pname = (\<lambda>(unconfigured_pins, s).
     if startswith pname ''in'' then
       bind (getattr s pname) (\<lambda>p.
         if dieOnInputControlSwitchHigh s then
           bind (pin_read E p s) (\<lambda>(v, s1).
             if v then
               Inr (unconfigured_pins @ [pname], log_warn (contention_warning pname) s1)
             else bind (set_pin_mode p OUT s1) (\<lambda>s2. Inr (unconfigured_pins, s2)))
         else bind (set_pin_mode p OUT s) (\<lambda>s2. Inr (unconfigured_pins, s2)))
     else Inr (unconfigured_pins, s))"

definition begin_standalone_body :: "string \<Rightarrow> pins \<Rightarrow> error + pins" where
  "begin_standalone_body pname s =
     bind (if startswith pname ''out''
           then bind (getattr s pname) (\<lambda>p. set_pin_mode p OUT s)
           else Inr s)
       (\<lambda>s1. if startswith pname ''in''
              then bind (getattr s1 pname) (\<lambda>p. set_pin_pull p PULL_DOWN s1)
              else Inr s1)"

subsection \<open>The four transitions and the mode setter\<close>

definition begin_safe :: "gpiomap \<Rightarrow> pins \<Rightarrow> error + pins" where
  "begin_safe G s =
     bind (begin_inputs_all G s) (\<lambda>s1.
     bind (begin_alwaysOut G s1) (\<lambda>s2.
     begin_muxPins G s2))"

definition begin_asiconboard :: "gpiomap \<Rightarrow> env \<Rightarrow> pins \<Rightarrow> error + pins" where
  "begin_asiconboard G E s =
     bind (begin_inputs_all G s) (\<lambda>s1.
     bind (begin_alwaysOut G s1) (\<lambda>s2.
     bind (for_each (begin_asiconboard_body E) (map fst (all_pins G)) ([], s2))
       (\<lambda>(unconfigured_pins, s3).
     bind (begin_muxPins G
             (if length unconfigured_pins \<noteq> 0
              then log_error (contention_error unconfigured_pins) s3 else s3)) (\<lambda>s4.
     project_clk_driven_by_RP2040 True s4))))"

definition begin_asic_manual_inputs :: "gpiomap \<Rightarrow> pins \<Rightarrow> error + pins" where
  "begin_asic_manual_inputs G s =
     bind (begin_inputs_all G s) (\<lambda>s1.
     bind (begin_alwaysOut G s1) (\<lambda>s2.
     bind (begin_muxPins G s2) (\<lambda>s3.
     project_clk_driven_by_RP2040 False s3)))"

definition begin_standalone :: "gpiomap \<Rightarrow> pins \<Rightarrow> error + pins" where
  "begin_standalone G s =
     bind (begin_inputs_all G s) (\<lambda>s1.
     bind (begin_alwaysOut G s1) (\<lambda>s2.
     bind (for_each begin_standalone_body (map fst (all_pins G)) s2) (\<lambda>s3.
     bind (begin_muxPins G s3) (\<lambda>s4.
     project_clk_driven_by_RP2040 True s4))))"

text \<open>
  The \<^verbatim>\<open>mode\<close> setter. \<open>startupMap\<close> is the dict literal: a later key overrides an
  equal earlier one.
\<close>

definition startupMap :: "RPMode \<Rightarrow> gpiomap \<Rightarrow> env \<Rightarrow> int \<Rightarrow> (pins \<Rightarrow> error + pins) option" where
  "startupMap R G E =
     [STANDALONE R \<mapsto> begin_standalone G,
      ASIC_RP_CONTROL R \<mapsto> begin_asiconboard G E,
      ASIC_MANUAL_INPUTS R \<mapsto> begin_asic_manual_inputs G,
      SAFE R \<mapsto> begin_safe G]"

definition set_mode :: "RPMode \<Rightarrow> gpiomap \<Rightarrow> env \<Rightarrow> int \<Rightarrow> pins \<Rightarrow> error + pins" where
  "set_mode R G E setTo0 s =
     (let setTo = (if startupMap R G E setTo0 = None then SAFE R else setTo0);
          s1 = s\<lparr>mode_attr := Some setTo\<rparr>
      in case startupMap R G E setTo of
           None \<Rightarrow> Inl (KeyError ''startupMap'')
         | Some beginFunc \<Rightarrow> beginFunc s1)"

subsection \<open>Ports and bytes\<close>

definition range8 :: "nat list" where
  "range8 = [0, 1, 2, 3, 4, 5, 6, 7]"

definition str_digit :: "nat \<Rightarrow> string" where
  "str_digit i = [''0'', ''1'', ''2'', ''3'', ''4'', ''5'', ''6'', ''7''] ! i"

definition list_port :: "pins \<Rightarrow> string \<Rightarrow> pyobj list" where
  "list_port s basename = List.map_filter (\<lambda>i. attrs s (basename @ str_digit i)) range8"

definition outputs :: "pins \<Rightarrow> pyobj list" where
  "outputs s = list_port s ''out''"

definition read_byte_body :: "env \<Rightarrow> pyobj list \<Rightarrow> nat \<Rightarrow> int \<times> pins \<Rightarrow> error + int \<times> pins" where
  "read_byte_body E pinList i = (\<lambda>(v, s).
     if i < length pinList then
       bind (pin_read E (pinList ! i) s) (\<lambda>(bit, s1).
         Inr (if bit then or v (push_bit i 1) else v, s1))
     else Inl IndexError)"

definition read_byte :: "env \<Rightarrow> pyobj list \<Rightarrow> pins \<Rightarrow> error + int \<times> pins" where
  "read_byte E pinList s = for_each (read_byte_body E pinList) range8 (0, s)"

definition write_byte_body :: "pyobj list \<Rightarrow> int \<Rightarrow> nat \<Rightarrow> pins \<Rightarrow> error + pins" where
  "write_byte_body pinList v i s =
     (if and v (push_bit i 1) \<noteq> 0 then
        (if i < length pinList then pin_write (pinList ! i) True s else Inl IndexError)
      else
        (if i < length pinList then pin_write (pinList ! i) False s else Inl IndexError))"

definition write_byte :: "pyobj list \<Rightarrow> int \<Rightarrow> pins \<Rightarrow> error + pins" where
  "write_byte pinList v s = for_each (write_byte_body pinList v) range8 s"

text \<open>
  The \<^verbatim>\<open>output_byte\<close> property. On the microcontroller (\<^verbatim>\<open>platform.IsRP2040\<close>) it goes
  to the register routines of \<^verbatim>\<open>platform.py\<close>, which read and write the memory-mapped
  GPIO registers; they are parameters here (\<open>read_output_byte\<close>,
  \<open>write_output_byte\<close>).
\<close>

definition get_output_byte ::
  "bool \<Rightarrow> (pins \<Rightarrow> error + int \<times> pins) \<Rightarrow> env \<Rightarrow> pins \<Rightarrow> error + int \<times> pins" where
  "get_output_byte IsRP2040 read_output_byte E s =
     (if IsRP2040 then read_output_byte s else read_byte E (outputs s) s)"

definition set_output_byte ::
  "bool \<Rightarrow> (int \<Rightarrow> pins \<Rightarrow> error + pins) \<Rightarrow> int \<Rightarrow> pins \<Rightarrow> error + pins" where
  "set_output_byte IsRP2040 write_output_byte val s =
     (if IsRP2040 then write_output_byte val s else write_byte (outputs s) val s)"


section \<open>Well-formed topologies\<close>

text \<open>
  What the transitions need of a topology, stated on the parameter since the tables
  themselves are not among the sources. \<open>declared\<close> are the names the first step of a
  transition creates: all names of the topology but the mux selector. The names are
  distinct (they are the keys of a dict) and so are the physical ids (section 3 of the
  spec); no name starts with \<^verbatim>\<open>pin_\<close>, the prefix of the raw aliases; every always-output
  name and the clock pin \<^verbatim>\<open>rp_projclk\<close> are declared; when the board uses the mux, every
  muxed pair sits on a declared pin, its two halves are not names of the topology, and the
  mode map of the target mode has an entry for both halves.
\<close>

definition declared :: "gpiomap \<Rightarrow> string set" where
  "declared G = {n \<in> fst ` set (all_pins G). n \<noteq> muxName}"

definition wf_names :: "gpiomap \<Rightarrow> bool" where
  "wf_names G \<longleftrightarrow>
     distinct (map fst (all_pins G)) \<and> distinct (map snd (all_pins G)) \<and>
     (\<forall>n \<in> fst ` set (all_pins G). \<not> startswith n ''pin_'')"

definition wf_mux :: "gpiomap \<Rightarrow> int option \<Rightarrow> bool" where
  "wf_mux G md \<longleftrightarrow>
     (demoboard_uses_mux G \<longrightarrow>
       (\<forall>(pname, a, b) \<in> set (muxed_pairs G).
          pname \<in> declared G \<and> a \<notin> fst ` set (all_pins G) \<and> b \<notin> fst ` set (all_pins G) \<and>
          muxed_pinmode_map G md a \<noteq> None \<and> muxed_pinmode_map G md b \<noteq> None))"

definition wf_topology :: "gpiomap \<Rightarrow> int option \<Rightarrow> bool" where
  "wf_topology G md \<longleftrightarrow>
     wf_names G \<and> set (always_outputs G) \<subseteq> declared G \<and> ''rp_projclk'' \<in> declared G \<and>
     wf_mux G md"

text \<open>\<^verbatim>\<open>__init__\<close> creates the mux controller when the topology uses the mux.\<close>

definition mux_ready :: "gpiomap \<Rightarrow> pins \<Rightarrow> bool" where
  "mux_ready G s \<longleftrightarrow> (demoboard_uses_mux G \<longrightarrow> muxCtrl s \<noteq> None)"

text \<open>The four mode constants are four different integers.\<close>

definition distinct_modes :: "RPMode \<Rightarrow> bool" where
  "distinct_modes R \<longleftrightarrow>
     distinct [SAFE R, ASIC_RP_CONTROL R, ASIC_MANUAL_INPUTS R, STANDALONE R]"

definition is_mode :: "RPMode \<Rightarrow> int \<Rightarrow> bool" where
  "is_mode R m \<longleftrightarrow>
     m = SAFE R \<or> m = ASIC_RP_CONTROL R \<or> m = ASIC_MANUAL_INPUTS R \<or> m = STANDALONE R"

section \<open>Invariants of a transition\<close>

text \<open>The direction the first step gives a pin: output for an always-output name.\<close>

definition ptype :: "gpiomap \<Rightarrow> string \<Rightarrow> pin_mode" where
  "ptype G n = (if n \<in> set (always_outputs G) then OUT else IN)"

text \<open>The physical ids of the declared pins.\<close>

definition declared_gpios :: "gpiomap \<Rightarrow> nat set" where
  "declared_gpios G = snd ` {x \<in> set (all_pins G). fst x \<noteq> muxName}"

text \<open>
  After the first step every declared name is bound to a fresh \<^verbatim>\<open>StandardPin\<close> on its
  physical id (\<open>std_pins\<close>); once the muxed pins are created a declared name is bound to
  some pin object on its physical id (\<open>pins_present\<close>).
\<close>

definition std_pins :: "gpiomap \<Rightarrow> pins \<Rightarrow> bool" where
  "std_pins G s \<longleftrightarrow>
     (\<forall>(n, g) \<in> set (all_pins G). n \<noteq> muxName \<longrightarrow> attrs s n = Some (StandardPin n g))"

definition pins_present :: "gpiomap \<Rightarrow> pins \<Rightarrow> bool" where
  "pins_present G s \<longleftrightarrow>
     (\<forall>(n, g) \<in> set (all_pins G). n \<noteq> muxName \<longrightarrow>
        (\<exists>p. attrs s n = Some p \<and> pin_gpio p = g \<and> (\<forall>h. p \<noteq> RawPin h)))"

fun is_MuxedPinNew :: "event \<Rightarrow> bool" where
  "is_MuxedPinNew (MuxedPinNew pname) = True"
| "is_MuxedPinNew e = False"

text \<open>
  \<open>cfg_step G s t\<close>: from \<open>s\<close> to \<open>t\<close> only the mode and pull of declared lines have
  changed, and the trace has grown by events that create no muxed pin.
\<close>

definition cfg_step :: "gpiomap \<Rightarrow> pins \<Rightarrow> pins \<Rightarrow> bool" where
  "cfg_step G s t \<longleftrightarrow>
     dieOnInputControlSwitchHigh t = dieOnInputControlSwitchHigh s \<and>
     mode_attr t = mode_attr s \<and> attrs t = attrs s \<and> muxCtrl t = muxCtrl s \<and>
     (\<forall>g. line_out (lines t g) = line_out (lines s g)) \<and>
     (\<forall>g. g \<notin> declared_gpios G \<longrightarrow> lines t g = lines s g) \<and>
     (\<exists>evs. trace t = trace s @ evs \<and> \<not> list_ex is_MuxedPinNew evs)"

text \<open>
  \<open>mux_step G s t\<close>: from \<open>s\<close> to \<open>t\<close> the muxed pins of the topology have been
  created, one trace event each in the order of the pairs, and no line has changed.
\<close>

definition mux_events :: "gpiomap \<Rightarrow> event list" where
  "mux_events G =
     (if demoboard_uses_mux G then map (\<lambda>x. MuxedPinNew (fst x)) (muxed_pairs G) else [])"

definition mux_step :: "gpiomap \<Rightarrow> pins \<Rightarrow> pins \<Rightarrow> bool" where
  "mux_step G s t \<longleftrightarrow>
     lines t = lines s \<and>
     dieOnInputControlSwitchHigh t = dieOnInputControlSwitchHigh s \<and>
     mode_attr t = mode_attr s \<and> pins_present G t \<and>
     (muxCtrl t = None \<longleftrightarrow> muxCtrl s = None) \<and>
     trace t = trace s @ mux_events G"

text \<open>The error record that closes the direction pass when pins were left unconfigured.\<close>

definition errlog :: "string list \<Rightarrow> pins \<Rightarrow> pins" where
  "errlog unc s = (if length unc \<noteq> 0 then log_error (contention_error unc) s else s)"

text \<open>
  The trace of the first step: one construction per declared pin, in the order of the
  topology. The trace of the last step: the clock pin is forced in every mode but
  \<^verbatim>\<open>SAFE\<close>.
\<close>

definition init_events :: "gpiomap \<Rightarrow> event list" where
  "init_events G =
     map (\<lambda>(n, g). PinInit g (ptype G n) (Some (default_pull G n)))
       (filter (\<lambda>x. fst x \<noteq> muxName) (all_pins G))"

definition clk_events :: "RPMode \<Rightarrow> int \<Rightarrow> nat \<Rightarrow> event list" where
  "clk_events R m g =
     (if m = SAFE R then []
      else [PinMode g (if m = ASIC_MANUAL_INPUTS R then IN else OUT)])"

text \<open>A write to the line \<open>g\<close>: what a toggle of the selector line is in the trace.\<close>

fun is_write_on :: "nat \<Rightarrow> event \<Rightarrow> bool" where
  "is_write_on g (PinWrite h v) = (h = g)"
| "is_write_on g e = False"

text \<open>
  \<open>frame_eq G s t\<close>: \<open>s\<close> and \<open>t\<close> agree on everything a transition reads before it
  has rebuilt the declared pins: the output latches, the lines that are not declared, the
  contention flag, the stored mode and the presence of the mux controller.
\<close>

definition frame_eq :: "gpiomap \<Rightarrow> pins \<Rightarrow> pins \<Rightarrow> bool" where
  "frame_eq G s t \<longleftrightarrow>
     (\<forall>g. line_out (lines t g) = line_out (lines s g)) \<and>
     (\<forall>g. g \<notin> declared_gpios G \<longrightarrow> lines t g = lines s g) \<and>
     dieOnInputControlSwitchHigh t = dieOnInputControlSwitchHigh s \<and>
     mode_attr t = mode_attr s \<and>
     (muxCtrl t = None \<longleftrightarrow> muxCtrl s = None)"

text \<open>
  What the byte accessors need of a port. A pin object is host-writable when an access
  drives its line: a plain pin whose line is an output, or a muxed half whose recorded
  mode is output (the access itself puts the shared line in that mode), on a board whose
  mux controller exists. \<open>sel_gpio\<close> is the line of the mux selector. A port is in order
  when it has its eight pins, on eight different lines, none of them the selector line,
  all host-writable.
\<close>

definition host_writable :: "pins \<Rightarrow> pyobj \<Rightarrow> bool" where
  "host_writable s p =
     (case p of
        MuxedSub pname g info \<Rightarrow> info_dir info = OUT \<and> muxCtrl s \<noteq> None
      | _ \<Rightarrow> line_mode (lines s (pin_gpio p)) = OUT)"

definition sel_gpio :: "pins \<Rightarrow> nat option" where
  "sel_gpio s = map_option (\<lambda>mc. pin_gpio (ctrlpin mc)) (muxCtrl s)"

definition port_ok :: "pins \<Rightarrow> pyobj list \<Rightarrow> bool" where
  "port_ok s pl \<longleftrightarrow>
     length pl = 8 \<and> distinct (map pin_gpio pl) \<and> list_all (host_writable s) pl \<and>
     sel_gpio s \<notin> set (map (\<lambda>p. Some (pin_gpio p)) pl)"

text \<open>
  \<open>access_frame g s s'\<close>: what one read or write of a host-writable pin on line \<open>g\<close> does
  to the rest of the state. The line \<open>g\<close> is an output afterwards; of the other lines only
  the selector line may have changed.
\<close>

definition access_frame :: "nat \<Rightarrow> pins \<Rightarrow> pins \<Rightarrow> bool" where
  "access_frame g s s' \<longleftrightarrow>
     attrs s' = attrs s \<and> sel_gpio s' = sel_gpio s \<and> line_mode (lines s' g) = OUT \<and>
     (\<forall>h. h \<noteq> g \<longrightarrow> Some h \<noteq> sel_gpio s \<longrightarrow> lines s' h = lines s h)"

section \<open>Example boards\<close>

text \<open>
  Small topologies in the style of the two revisions, used to instantiate the theorems
  below at concrete inputs (the tables of \<^verbatim>\<open>ttboard.pins.gpio_map\<close> are not among the
  sources). \<open>demo_tt04\<close> has the on-board mux and two muxed pairs; \<open>demo_tt06\<close> has
  none, drives its control lines always and pulls two of them up.
\<close>

definition demo_modes :: RPMode where
  "demo_modes = \<lparr>SAFE = 0, ASIC_RP_CONTROL = 1, ASIC_MANUAL_INPUTS = 2, STANDALONE = 3\<rparr>"

definition demo_tt04 :: gpiomap where
  "demo_tt04 =
     \<lparr>all_pins = [(''rp_projclk'', 0), (''hk_csb'', 1), (''sdi_nprojectrst'', 3),
                  (''out0'', 5), (''cena_out1'', 6), (''in0'', 9), (''in1'', 10)],
      always_outputs = [],
      default_pull = (\<lambda>n. PULL_NONE),
      demoboard_uses_mux = True,
      mux_select = 1,
      muxed_pairs = [(''sdi_nprojectrst'', ''sdi'', ''nprojectrst''),
                     (''cena_out1'', ''cena'', ''out1'')],
      muxed_pinmode_map = (\<lambda>m.
        [''nprojectrst'' \<mapsto> OUT, ''cena'' \<mapsto> OUT, ''sdi'' \<mapsto> OUT,
         ''out1'' \<mapsto> (if m = Some 3 then OUT else IN)]),
      ctrl_enable = 6,
      ctrl_increment = 7,
      ctrl_reset = 8\<rparr>"

definition demo_tt06 :: gpiomap where
  "demo_tt06 =
     \<lparr>all_pins = [(''rp_projclk'', 0), (''nprojectrst'', 1), (''ncrst'', 2), (''cinc'', 3),
                  (''cena'', 4), (''out0'', 5), (''in0'', 9), (''in1'', 10)],
      always_outputs = [''cinc'', ''cena'', ''ncrst''],
      default_pull = (\<lambda>n. if n = ''nprojectrst'' \<or> n = ''cena'' then PULL_UP else PULL_NONE),
      demoboard_uses_mux = False,
      mux_select = 1,
      muxed_pairs = [],
      muxed_pinmode_map = (\<lambda>m. Map.empty),
      ctrl_enable = 4,
      ctrl_increment = 3,
      ctrl_reset = 2\<rparr>"

definition idle_line :: gpio_line where
  "idle_line = \<lparr>line_mode = IN, line_pull = PULL_NONE, line_out = False\<rparr>"

definition detect0 :: detect where
  "detect0 = \<lparr>lines = (\<lambda>g. idle_line), trace = [], PCB = UNKNOWN, CarrierPresent = None,
              GPIOMap = None\<rparr>"

text \<open>
  Three environments: a TT04 board, whose control read-back lines follow the mux select
  line (GPIO 1); lines that all read low; lines that all read high.
\<close>

definition env_tt04 :: env where
  "env_tt04 L g = (if g = 6 \<or> g = 7 \<or> g = 8 then line_out (L 1) else False)"

definition env_low :: env where
  "env_low L g = False"

definition env_high :: env where
  "env_high L g = True"

text \<open>
  A \<^verbatim>\<open>Pins\<close> object as \<^verbatim>\<open>__init__\<close> leaves it before it assigns the mode, on a
  board with the mux (\<open>pins_tt04\<close>) and on one without (\<open>pins_tt06\<close>).
\<close>

definition pins_tt04 :: pins where
  "pins_tt04 =
     \<lparr>lines = (\<lambda>g. idle_line)(1 := \<lparr>line_mode = OUT, line_pull = PULL_NONE, line_out = True\<rparr>),
      trace = [],
      dieOnInputControlSwitchHigh = True,
      mode_attr = None,
      attrs = [''hk_csb'' \<mapsto> StandardPin ''hk_csb'' 1, ''pin_hk_csb'' \<mapsto> RawPin 1],
      allpins = [''hk_csb'' \<mapsto> StandardPin ''hk_csb'' 1],
      muxCtrl = Some \<lparr>ctrlpin = StandardPin ''hk_csb'' 1, selected = SelIndex 1,
                      muxedPins = []\<rparr>\<rparr>"

definition pins_tt06 :: pins where
  "pins_tt06 =
     \<lparr>lines = (\<lambda>g. idle_line),
      trace = [],
      dieOnInputControlSwitchHigh = True,
      mode_attr = None,
      attrs = Map.empty,
      allpins = Map.empty,
      muxCtrl = None\<rparr>"

text \<open>
  A \<^verbatim>\<open>Pins\<close> object with a full output port driven by the host: seven plain pins and
  one half of a muxed pair (\<^verbatim>\<open>out1\<close>, on the shared line 6), the selector on line 1.
\<close>

definition out_line :: gpio_line where
  "out_line = \<lparr>line_mode = OUT, line_pull = PULL_NONE, line_out = False\<rparr>"

definition pins_port :: pins where
  "pins_port =
     \<lparr>lines = (\<lambda>g. if g = 6 then idle_line else out_line),
      trace = [],
      dieOnInputControlSwitchHigh = True,
      mode_attr = Some 3,
      attrs = [''out0'' \<mapsto> StandardPin ''out0'' 5,
               ''out1'' \<mapsto> MuxedSub ''out1'' 6 (MuxedPinInfo ''out1'' 1 OUT),
               ''out2'' \<mapsto> StandardPin ''out2'' 7,
               ''out3'' \<mapsto> StandardPin ''out3'' 8,
               ''out4'' \<mapsto> StandardPin ''out4'' 13,
               ''out5'' \<mapsto> StandardPin ''out5'' 14,
               ''out6'' \<mapsto> StandardPin ''out6'' 15,
               ''out7'' \<mapsto> StandardPin ''out7'' 16],
      allpins = Map.empty,
      muxCtrl = Some \<lparr>ctrlpin = StandardPin ''hk_csb'' 1, selected = SelIndex 0,
                      muxedPins = []\<rparr>\<rparr>"

section \<open>Facts about raw pins\<close>

lemma lines_get_raw_pin [simp]:
  "lines (get_raw_pin g m s) = (lines s)(g := (lines s g)\<lparr>line_mode := m\<rparr>)"
  by (simp add: get_raw_pin_def)

lemma lines_raw_write [simp]:
  "lines (raw_write g v s) = (lines s)(g := (lines s g)\<lparr>line_out := v\<rparr>)"
  by (simp add: raw_write_def)

lemma fst_raw_read [simp]: "fst (raw_read E g s) = level E (lines s) g"
  by (simp add: raw_read_def Let_def)

lemma lines_raw_read [simp]: "lines (snd (raw_read E g s)) = lines s"
  by (simp add: raw_read_def Let_def)

lemma detect_get_raw_pin [simp]:
  "PCB (get_raw_pin g m s) = PCB s"
  "CarrierPresent (get_raw_pin g m s) = CarrierPresent s"
  "GPIOMap (get_raw_pin g m s) = GPIOMap s"
  by (simp_all add: get_raw_pin_def)

lemma detect_raw_write [simp]:
  "PCB (raw_write g v s) = PCB s"
  "CarrierPresent (raw_write g v s) = CarrierPresent s"
  "GPIOMap (raw_write g v s) = GPIOMap s"
  by (simp_all add: raw_write_def)

lemma detect_raw_read [simp]:
  "PCB (snd (raw_read E g s)) = PCB s"
  "CarrierPresent (snd (raw_read E g s)) = CarrierPresent s"
  "GPIOMap (snd (raw_read E g s)) = GPIOMap s"
  by (simp_all add: raw_read_def Let_def)

section \<open>The detector\<close>

lemma fst_probe_tt04mux:
  "fst (probe_tt04mux E M04 s) =
   (let s4 = get_raw_pin (ctrl_reset M04) IN (get_raw_pin (ctrl_increment M04) IN
               (get_raw_pin (ctrl_enable M04) IN (get_raw_pin (mux_select M04) OUT s)));
        lo = lines (raw_write (mux_select M04) False s4);
        hi = lines (raw_write (mux_select M04) True s4);
        rb = [ctrl_enable M04, ctrl_increment M04, ctrl_reset M04]
    in map (level E hi) rb \<noteq> map (level E lo) rb)"
  by (simp add: probe_tt04mux_def Let_def split_beta)

lemma GPIOMap_probe_tt04mux [simp]: "GPIOMap (snd (probe_tt04mux E M04 s)) = GPIOMap s"
  by (simp add: probe_tt04mux_def Let_def split_beta)

lemma CarrierPresent_probe_tt04mux [simp]:
  "CarrierPresent (snd (probe_tt04mux E M04 s)) = CarrierPresent s"
  by (simp add: probe_tt04mux_def Let_def split_beta)

lemma PCB_probe_tt04mux:
  "PCB (snd (probe_tt04mux E M04 s)) = (if fst (probe_tt04mux E M04 s) then TT04 else PCB s)"
  by (simp add: probe_tt04mux_def Let_def split_beta)

lemma fst_probe_pullups:
  "fst (probe_pullups E M06 t) =
   (let pl = lines (get_raw_pin (ctrl_reset M06) IN (get_raw_pin (ctrl_enable M06) IN t))
    in \<not> level E pl (ctrl_reset M06) \<and> \<not> level E pl (ctrl_enable M06))"
  by (simp add: probe_pullups_def Let_def split_beta)

lemma snd_probe_pullups_True:
  "fst (probe_pullups E M06 t) \<Longrightarrow>
   PCB (snd (probe_pullups E M06 t)) = TT06 \<and>
   CarrierPresent (snd (probe_pullups E M06 t)) = Some True"
  by (simp add: probe_pullups_def Let_def split_beta del: lines_get_raw_pin split: if_splits)

lemma GPIOMap_probe_pullups [simp]: "GPIOMap (snd (probe_pullups E M06 s)) = GPIOMap s"
  by (simp add: probe_pullups_def Let_def split_beta)

lemma configure_gpiomap_TT04:
  "PCB s = TT04 \<Longrightarrow> configure_gpiomap s = (Inr (), s\<lparr>GPIOMap := Some GPIOMapTT04\<rparr>)"
  by (simp add: configure_gpiomap_def TT04_def TT06_def)

lemma configure_gpiomap_TT06:
  "PCB s = TT06 \<Longrightarrow> configure_gpiomap s = (Inr (), s\<lparr>GPIOMap := Some GPIOMapTT06\<rparr>)"
  by (simp add: configure_gpiomap_def TT04_def TT06_def)

lemma configure_gpiomap_other:
  "PCB s \<noteq> TT04 \<Longrightarrow> PCB s \<noteq> TT06 \<Longrightarrow>
   configure_gpiomap s = (Inl (RuntimeError ''Cannot set GPIO map''), s)"
  by (simp add: configure_gpiomap_def)

lemma probe_cases:
  "probe E M04 M06 s =
    (let t = snd (probe_tt04mux E M04 s); u = snd (probe_pullups E M06 t) in
     if fst (probe_tt04mux E M04 s) then (Inr True, t\<lparr>GPIOMap := Some GPIOMapTT04\<rparr>)
     else if fst (probe_pullups E M06 t) then (Inr True, u\<lparr>GPIOMap := Some GPIOMapTT06\<rparr>)
     else (Inr False, u\<lparr>PCB := TT06, GPIOMap := Some GPIOMapTT06\<rparr>))"
proof -
  obtain b t where bt: "probe_tt04mux E M04 s = (b, t)"
    by (cases "probe_tt04mux E M04 s")
  obtain c u where cu: "probe_pullups E M06 t = (c, u)"
    by (cases "probe_pullups E M06 t")
  show ?thesis
  proof (cases b)
    case True
    with bt have "PCB t = TT04"
      using PCB_probe_tt04mux [of E M04 s] by simp
    with True bt show ?thesis
      by (simp add: probe_def configure_gpiomap_TT04)
  next
    case False
    show ?thesis
    proof (cases c)
      case True
      with cu have "PCB u = TT06"
        using snd_probe_pullups_True [of E M06 t] by simp
      with True \<open>\<not> b\<close> bt cu show ?thesis
        by (simp add: probe_def configure_gpiomap_TT06)
    next
      case c: False
      have "configure_gpiomap (u\<lparr>PCB := TT06\<rparr>) =
            (Inr (), u\<lparr>PCB := TT06, GPIOMap := Some GPIOMapTT06\<rparr>)"
        by (simp add: configure_gpiomap_TT06)
      with c \<open>\<not> b\<close> bt cu show ?thesis
        by (simp add: probe_def)
    qed
  qed
qed

text \<open>
  C1. The probe decision is a strict-priority function of the samples. \<open>mux_0\<close> and
  \<open>mux_1\<close> are the samples of the three control read-back lines with the mux select
  line driven low and high; \<open>crst\<close> and \<open>cena\<close> are the samples of the two pull-test
  lines. If the mux samples differ, the probe returns True with revision TT04 recorded and
  the TT04 map installed, and its final state is the state the mux test left with the map
  installed: the pull test has not run. Otherwise, if both pull-test lines read low, it
  returns True with TT06 recorded and installed and the carrier recorded as present.
  Otherwise it returns False (not decisive) with TT06 recorded and installed.
\<close>

theorem probe_strict_priority:
  "let s4 = get_raw_pin (ctrl_reset M04) IN (get_raw_pin (ctrl_increment M04) IN
              (get_raw_pin (ctrl_enable M04) IN (get_raw_pin (mux_select M04) OUT s)));
       lo = lines (raw_write (mux_select M04) False s4);
       hi = lines (raw_write (mux_select M04) True s4);
       rb = [ctrl_enable M04, ctrl_increment M04, ctrl_reset M04];
       mux_0 = map (level E lo) rb;
       mux_1 = map (level E hi) rb;
       t = snd (probe_tt04mux E M04 s);
       pl = lines (get_raw_pin (ctrl_reset M06) IN (get_raw_pin (ctrl_enable M06) IN t));
       crst = level E pl (ctrl_reset M06);
       cena = level E pl (ctrl_enable M06);
       (res, s') = probe E M04 M06 s
   in if mux_1 \<noteq> mux_0 then
        res = Inr True \<and> s' = t\<lparr>GPIOMap := Some GPIOMapTT04\<rparr> \<and> PCB s' = TT04
      else if \<not> crst \<and> \<not> cena then
        res = Inr True \<and> PCB s' = TT06 \<and> GPIOMap s' = Some GPIOMapTT06 \<and>
        CarrierPresent s' = Some True
      else
        res = Inr False \<and> PCB s' = TT06 \<and> GPIOMap s' = Some GPIOMapTT06"
proof -
  let ?t = "snd (probe_tt04mux E M04 s)"
  have a: "fst (probe_tt04mux E M04 s) \<Longrightarrow> PCB ?t = TT04"
    by (simp add: PCB_probe_tt04mux)
  note b = snd_probe_pullups_True [of E M06 ?t]
  show ?thesis
    unfolding probe_cases
    using a b
    by (simp add: Let_def fst_probe_tt04mux fst_probe_pullups
          del: lines_get_raw_pin lines_raw_write)
qed


theorem probe_strict_priority_witness:
  "fst (probe env_tt04 demo_tt04 demo_tt06 detect0) = Inr True \<and>
   GPIOMap (snd (probe env_tt04 demo_tt04 demo_tt06 detect0)) = Some GPIOMapTT04 \<and>
   fst (probe env_low demo_tt04 demo_tt06 detect0) = Inr True \<and>
   GPIOMap (snd (probe env_low demo_tt04 demo_tt06 detect0)) = Some GPIOMapTT06 \<and>
   CarrierPresent (snd (probe env_low demo_tt04 demo_tt06 detect0)) = Some True \<and>
   fst (probe env_high demo_tt04 demo_tt06 detect0) = Inr False \<and>
   GPIOMap (snd (probe env_high demo_tt04 demo_tt06 detect0)) = Some GPIOMapTT06"
  using probe_strict_priority [of demo_tt04 detect0 env_tt04 demo_tt06]
    probe_strict_priority [of demo_tt04 detect0 env_low demo_tt06]
    probe_strict_priority [of demo_tt04 detect0 env_high demo_tt06]
  by (simp add: Let_def split_beta demo_tt04_def demo_tt06_def detect0_def env_tt04_def
        env_low_def env_high_def level_def idle_line_def)

text \<open>
  C9. The probe never raises, and when it returns the map installed is the one of the
  revision it recorded, TT04 or TT06. A forced detection of one of the two revisions
  installs its map. A forced detection of any other version raises \<^verbatim>\<open>RuntimeError\<close>;
  the version is recorded and the installed map is left as it was.
\<close>

theorem detector_installs_or_fails:
  "(\<exists>b. fst (probe E M04 M06 s) = Inr b) \<and>
   (PCB (snd (probe E M04 M06 s)) = TT04 \<and>
      GPIOMap (snd (probe E M04 M06 s)) = Some GPIOMapTT04 \<or>
    PCB (snd (probe E M04 M06 s)) = TT06 \<and>
      GPIOMap (snd (probe E M04 M06 s)) = Some GPIOMapTT06) \<and>
   force_detection TT04 s = (Inr (), s\<lparr>PCB := TT04, GPIOMap := Some GPIOMapTT04\<rparr>) \<and>
   force_detection TT06 s = (Inr (), s\<lparr>PCB := TT06, GPIOMap := Some GPIOMapTT06\<rparr>) \<and>
   (v \<noteq> TT04 \<and> v \<noteq> TT06 \<longrightarrow>
      force_detection v s = (Inl (RuntimeError ''Cannot set GPIO map''), s\<lparr>PCB := v\<rparr>) \<and>
      GPIOMap (snd (force_detection v s)) = GPIOMap s)"
proof -
  have a: "fst (probe_tt04mux E M04 s) \<Longrightarrow> PCB (snd (probe_tt04mux E M04 s)) = TT04"
    by (simp add: PCB_probe_tt04mux)
  note b = snd_probe_pullups_True [of E M06 "snd (probe_tt04mux E M04 s)"]
  have "(\<exists>b. fst (probe E M04 M06 s) = Inr b) \<and>
   (PCB (snd (probe E M04 M06 s)) = TT04 \<and>
      GPIOMap (snd (probe E M04 M06 s)) = Some GPIOMapTT04 \<or>
    PCB (snd (probe E M04 M06 s)) = TT06 \<and>
      GPIOMap (snd (probe E M04 M06 s)) = Some GPIOMapTT06)"
    unfolding probe_cases using a b by (auto simp add: Let_def)
  moreover have "force_detection TT04 s =
      (Inr (), s\<lparr>PCB := TT04, GPIOMap := Some GPIOMapTT04\<rparr>)"
    by (simp add: force_detection_def configure_gpiomap_TT04)
  moreover have "force_detection TT06 s =
      (Inr (), s\<lparr>PCB := TT06, GPIOMap := Some GPIOMapTT06\<rparr>)"
    by (simp add: force_detection_def configure_gpiomap_TT06)
  moreover have "v \<noteq> TT04 \<and> v \<noteq> TT06 \<longrightarrow>
      force_detection v s = (Inl (RuntimeError ''Cannot set GPIO map''), s\<lparr>PCB := v\<rparr>) \<and>
      GPIOMap (snd (force_detection v s)) = GPIOMap s"
    by (simp add: force_detection_def configure_gpiomap_other)
  ultimately show ?thesis by blast
qed

theorem detector_installs_or_fails_witness:
  "force_detection UNKNOWN detect0 =
     (Inl (RuntimeError ''Cannot set GPIO map''), detect0\<lparr>PCB := UNKNOWN\<rparr>) \<and>
   GPIOMap (snd (force_detection UNKNOWN detect0)) = None"
  using detector_installs_or_fails [of env_low demo_tt04 demo_tt06 detect0 UNKNOWN]
  by (simp add: UNKNOWN_def TT04_def TT06_def detect0_def)

section \<open>Loops and the primitive operations\<close>

lemma bind_Inr [simp]: "bind (Inr x) f = f x"
  by (simp add: bind_def)

lemma bind_Inl [simp]: "bind (Inl e) f = Inl e"
  by (simp add: bind_def)

lemma bind_eq_Inr: "bind m f = Inr y \<longleftrightarrow> (\<exists>x. m = Inr x \<and> f x = Inr y)"
  by (cases m) simp_all

lemma for_each_append:
  "for_each body (xs @ ys) s = bind (for_each body xs s) (for_each body ys)"
  by (induction xs arbitrary: s) (simp_all add: bind_def split: sum.splits)

lemma for_each_invariant:
  assumes "P s"
    and "\<And>x s. x \<in> set xs \<Longrightarrow> P s \<Longrightarrow> \<exists>s'. body x s = Inr s' \<and> P s'"
  shows "\<exists>s'. for_each body xs s = Inr s' \<and> P s'"
  using assms
proof (induction xs arbitrary: s)
  case Nil
  then show ?case by simp
next
  case (Cons x xs)
  from Cons.prems obtain s1 where s1: "body x s = Inr s1" "P s1"
    by (meson list.set_intros(1))
  have "\<exists>s'. for_each body xs s1 = Inr s' \<and> P s'"
    by (rule Cons.IH [OF s1(2)]) (simp add: Cons.prems(2))
  with s1 show ?case by simp
qed

lemma for_each_preserves:
  assumes "for_each body xs s = Inr s'" and "P s"
    and "\<And>x s s'. x \<in> set xs \<Longrightarrow> P s \<Longrightarrow> body x s = Inr s' \<Longrightarrow> P s'"
  shows "P s'"
  using assms
proof (induction xs arbitrary: s)
  case Nil
  then show ?case by simp
next
  case (Cons x xs)
  from Cons.prems(1) obtain s1 where s1: "body x s = Inr s1" "for_each body xs s1 = Inr s'"
    by (auto simp: bind_eq_Inr)
  have "P s1" using Cons.prems(2,3) s1(1) by (meson list.set_intros(1))
  show ?case
    by (rule Cons.IH [OF s1(2) \<open>P s1\<close>]) (use Cons.prems(3) in auto)
qed

lemma for_each_related:
  assumes "for_each body xs s = Inr s'" and "Rel s t"
    and "\<And>x s t s'. x \<in> set xs \<Longrightarrow> Rel s t \<Longrightarrow> body x s = Inr s' \<Longrightarrow>
           \<exists>t'. body x t = Inr t' \<and> Rel s' t'"
  shows "\<exists>t'. for_each body xs t = Inr t' \<and> Rel s' t'"
  using assms
proof (induction xs arbitrary: s t)
  case Nil
  then show ?case by auto
next
  case (Cons x xs)
  from Cons.prems(1) obtain s1 where s1: "body x s = Inr s1" "for_each body xs s1 = Inr s'"
    by (auto simp: bind_eq_Inr)
  from Cons.prems(2,3) s1(1) obtain t1 where t1: "body x t = Inr t1" "Rel s1 t1"
    by (meson list.set_intros(1))
  have "\<exists>t'. for_each body xs t1 = Inr t' \<and> Rel s' t'"
    by (rule Cons.IH [OF s1(2) t1(2)]) (use Cons.prems(3) in auto)
  with t1 show ?case by simp
qed


subsection \<open>Projections of the primitive operations\<close>

lemma line_init_simps [simp]:
  "lines (line_init g m q s) = (lines s)(g := (lines s g)\<lparr>line_mode := m, line_pull := q\<rparr>)"
  "trace (line_init g m q s) = trace s @ [PinInit g m (Some q)]"
  "dieOnInputControlSwitchHigh (line_init g m q s) = dieOnInputControlSwitchHigh s"
  "mode_attr (line_init g m q s) = mode_attr s"
  "attrs (line_init g m q s) = attrs s"
  "allpins (line_init g m q s) = allpins s"
  "muxCtrl (line_init g m q s) = muxCtrl s"
  by (simp_all add: line_init_def)

lemma line_set_mode_simps [simp]:
  "lines (line_set_mode g m s) = (lines s)(g := (lines s g)\<lparr>line_mode := m\<rparr>)"
  "trace (line_set_mode g m s) = trace s @ [PinMode g m]"
  "dieOnInputControlSwitchHigh (line_set_mode g m s) = dieOnInputControlSwitchHigh s"
  "mode_attr (line_set_mode g m s) = mode_attr s"
  "attrs (line_set_mode g m s) = attrs s"
  "allpins (line_set_mode g m s) = allpins s"
  "muxCtrl (line_set_mode g m s) = muxCtrl s"
  by (simp_all add: line_set_mode_def)

lemma line_set_pull_simps [simp]:
  "lines (line_set_pull g q s) = (lines s)(g := (lines s g)\<lparr>line_pull := q\<rparr>)"
  "trace (line_set_pull g q s) = trace s @ [PinPull g q]"
  "dieOnInputControlSwitchHigh (line_set_pull g q s) = dieOnInputControlSwitchHigh s"
  "mode_attr (line_set_pull g q s) = mode_attr s"
  "attrs (line_set_pull g q s) = attrs s"
  "allpins (line_set_pull g q s) = allpins s"
  "muxCtrl (line_set_pull g q s) = muxCtrl s"
  by (simp_all add: line_set_pull_def)

lemma raw_write_simps [simp]:
  "trace (raw_write g v s) = trace s @ [PinWrite g v]"
  "dieOnInputControlSwitchHigh (raw_write g v s) = dieOnInputControlSwitchHigh s"
  "mode_attr (raw_write g v s) = mode_attr s"
  "attrs (raw_write g v s) = attrs s"
  "allpins (raw_write g v s) = allpins s"
  "muxCtrl (raw_write g v s) = muxCtrl s"
  by (simp_all add: raw_write_def)

lemma raw_read_simps [simp]:
  "trace (snd (raw_read E g s)) = trace s @ [PinRead g (level E (lines s) g)]"
  "dieOnInputControlSwitchHigh (snd (raw_read E g s)) = dieOnInputControlSwitchHigh s"
  "mode_attr (snd (raw_read E g s)) = mode_attr s"
  "attrs (snd (raw_read E g s)) = attrs s"
  "allpins (snd (raw_read E g s)) = allpins s"
  "muxCtrl (snd (raw_read E g s)) = muxCtrl s"
  by (simp_all add: raw_read_def Let_def)

lemma log_warn_simps [simp]:
  "lines (log_warn msg s) = lines s"
  "trace (log_warn msg s) = trace s @ [LogWarn msg]"
  "dieOnInputControlSwitchHigh (log_warn msg s) = dieOnInputControlSwitchHigh s"
  "mode_attr (log_warn msg s) = mode_attr s"
  "attrs (log_warn msg s) = attrs s"
  "allpins (log_warn msg s) = allpins s"
  "muxCtrl (log_warn msg s) = muxCtrl s"
  by (simp_all add: log_warn_def)

lemma log_error_simps [simp]:
  "lines (log_error msg s) = lines s"
  "trace (log_error msg s) = trace s @ [LogError msg]"
  "dieOnInputControlSwitchHigh (log_error msg s) = dieOnInputControlSwitchHigh s"
  "mode_attr (log_error msg s) = mode_attr s"
  "attrs (log_error msg s) = attrs s"
  "allpins (log_error msg s) = allpins s"
  "muxCtrl (log_error msg s) = muxCtrl s"
  by (simp_all add: log_error_def)

lemma setattr_simps [simp]:
  "lines (setattr n p s) = lines s"
  "trace (setattr n p s) = trace s"
  "dieOnInputControlSwitchHigh (setattr n p s) = dieOnInputControlSwitchHigh s"
  "mode_attr (setattr n p s) = mode_attr s"
  "attrs (setattr n p s) = (attrs s)(n \<mapsto> p)"
  "allpins (setattr n p s) = allpins s"
  "muxCtrl (setattr n p s) = muxCtrl s"
  by (simp_all add: setattr_def)

lemma getattr_Some [simp]: "attrs s n = Some p \<Longrightarrow> getattr s n = Inr p"
  by (simp add: getattr_def)

lemma getattr_eq_Inr: "getattr s n = Inr p \<longleftrightarrow> attrs s n = Some p"
  by (simp add: getattr_def split: option.splits)

lemma set_pin_mode_eq_Inr:
  "set_pin_mode p m s = Inr s' \<longleftrightarrow> (\<forall>g. p \<noteq> RawPin g) \<and> s' = line_set_mode (pin_gpio p) m s"
  by (cases p) (auto simp: set_pin_mode_def)

lemma set_pin_pull_eq_Inr:
  "set_pin_pull p q s = Inr s' \<longleftrightarrow> (\<forall>g. p \<noteq> RawPin g) \<and> s' = line_set_pull (pin_gpio p) q s"
  by (cases p) (auto simp: set_pin_pull_def)

subsection \<open>The first step\<close>

lemma begin_inputs_all_body_mux [simp]:
  "begin_inputs_all_body G (muxName, g) s = Inr s"
  by (simp add: begin_inputs_all_body_def)

lemma begin_inputs_all_body_other:
  "n \<noteq> muxName \<Longrightarrow>
   begin_inputs_all_body G (n, g) s =
     Inr ((setattr n (StandardPin n g) (setattr (''pin_'' @ n) (RawPin g)
            (line_init g (ptype G n) (default_pull G n) s)))
          \<lparr>allpins := (allpins s)(n \<mapsto> StandardPin n g)\<rparr>)"
  by (simp add: begin_inputs_all_body_def Let_def ptype_def count_list_0_iff)

lemma begin_inputs_all_body_total: "\<exists>s'. begin_inputs_all_body G x s = Inr s'"
  by (cases x) (simp add: begin_inputs_all_body_def Let_def)

lemma begin_inputs_all_total: "\<exists>s'. for_each (begin_inputs_all_body G) xs s = Inr s'"
  using for_each_invariant [of "\<lambda>_. True" s xs "begin_inputs_all_body G"]
  by (simp add: begin_inputs_all_body_total)

lemma inputs_all_body_kept:
  assumes "begin_inputs_all_body G x s = Inr s1"
  shows "dieOnInputControlSwitchHigh s1 = dieOnInputControlSwitchHigh s \<and>
     mode_attr s1 = mode_attr s \<and> muxCtrl s1 = muxCtrl s \<and>
     (\<forall>g. line_out (lines s1 g) = line_out (lines s g))"
proof -
  obtain n g where x: "x = (n, g)" by (cases x)
  show ?thesis
  proof (cases "n = muxName")
    case True
    with assms x have "s1 = s" by simp
    then show ?thesis by simp
  next
    case False
    from assms have "s1 = (setattr n (StandardPin n g) (setattr (''pin_'' @ n) (RawPin g)
            (line_init g (ptype G n) (default_pull G n) s)))
          \<lparr>allpins := (allpins s)(n \<mapsto> StandardPin n g)\<rparr>"
      unfolding x begin_inputs_all_body_other [OF False] by simp
    then show ?thesis by simp
  qed
qed

lemma inputs_all_kept:
  assumes "for_each (begin_inputs_all_body G) xs s = Inr s'"
  shows "dieOnInputControlSwitchHigh s' = dieOnInputControlSwitchHigh s \<and>
     mode_attr s' = mode_attr s \<and> muxCtrl s' = muxCtrl s \<and>
     (\<forall>g. line_out (lines s' g) = line_out (lines s g))"
proof (rule for_each_preserves [OF assms])
  show "dieOnInputControlSwitchHigh s = dieOnInputControlSwitchHigh s \<and>
     mode_attr s = mode_attr s \<and> muxCtrl s = muxCtrl s \<and>
     (\<forall>g. line_out (lines s g) = line_out (lines s g))" by simp
next
  fix x t t'
  assume "dieOnInputControlSwitchHigh t = dieOnInputControlSwitchHigh s \<and>
     mode_attr t = mode_attr s \<and> muxCtrl t = muxCtrl s \<and>
     (\<forall>g. line_out (lines t g) = line_out (lines s g))"
    and "begin_inputs_all_body G x t = Inr t'"
  then show "dieOnInputControlSwitchHigh t' = dieOnInputControlSwitchHigh s \<and>
     mode_attr t' = mode_attr s \<and> muxCtrl t' = muxCtrl s \<and>
     (\<forall>g. line_out (lines t' g) = line_out (lines s g))"
    using inputs_all_body_kept [of G x t t'] by simp
qed

lemma inputs_all_body_fields:
  assumes "begin_inputs_all_body G (n, g) s = Inr s1"
  shows "lines s1 = (if n = muxName then lines s
           else (lines s)(g := (lines s g)\<lparr>line_mode := ptype G n, line_pull := default_pull G n\<rparr>))"
    and "attrs s1 = (if n = muxName then attrs s
           else (attrs s)(''pin_'' @ n \<mapsto> RawPin g, n \<mapsto> StandardPin n g))"
    and "trace s1 = (if n = muxName then trace s
           else trace s @ [PinInit g (ptype G n) (Some (default_pull G n))])"
proof -
  show "lines s1 = (if n = muxName then lines s
           else (lines s)(g := (lines s g)\<lparr>line_mode := ptype G n, line_pull := default_pull G n\<rparr>))"
    using assms by (cases "n = muxName") (auto simp: begin_inputs_all_body_other)
  show "attrs s1 = (if n = muxName then attrs s
           else (attrs s)(''pin_'' @ n \<mapsto> RawPin g, n \<mapsto> StandardPin n g))"
    using assms by (cases "n = muxName") (auto simp: begin_inputs_all_body_other)
  show "trace s1 = (if n = muxName then trace s
           else trace s @ [PinInit g (ptype G n) (Some (default_pull G n))])"
    using assms by (cases "n = muxName") (auto simp: begin_inputs_all_body_other)
qed

lemma inputs_all_lines_frame:
  "for_each (begin_inputs_all_body G) xs s = Inr s' \<Longrightarrow>
   g \<notin> snd ` {x \<in> set xs. fst x \<noteq> muxName} \<Longrightarrow> lines s' g = lines s g"
proof (induction xs arbitrary: s)
  case Nil
  then show ?case by simp
next
  case (Cons x xs)
  obtain n h where x: "x = (n, h)" by (cases x)
  from Cons.prems(1) obtain s1 where s1: "begin_inputs_all_body G (n, h) s = Inr s1"
    and rest: "for_each (begin_inputs_all_body G) xs s1 = Inr s'"
    by (auto simp: bind_eq_Inr x)
  from Cons.prems(2) have "g \<notin> snd ` {x \<in> set xs. fst x \<noteq> muxName}" by auto
  then have "lines s' g = lines s1 g" by (rule Cons.IH [OF rest])
  moreover from Cons.prems(2) have "n \<noteq> muxName \<Longrightarrow> g \<noteq> h" by (force simp: x)
  then have "lines s1 g = lines s g"
    by (simp add: inputs_all_body_fields(1) [OF s1])
  ultimately show ?case by simp
qed

lemma inputs_all_attrs_frame:
  "for_each (begin_inputs_all_body G) xs s = Inr s' \<Longrightarrow>
   n \<notin> fst ` set xs \<Longrightarrow> n \<notin> (\<lambda>x. ''pin_'' @ fst x) ` set xs \<Longrightarrow> attrs s' n = attrs s n"
proof (induction xs arbitrary: s)
  case Nil
  then show ?case by simp
next
  case (Cons x xs)
  obtain m h where x: "x = (m, h)" by (cases x)
  from Cons.prems(1) obtain s1 where s1: "begin_inputs_all_body G (m, h) s = Inr s1"
    and rest: "for_each (begin_inputs_all_body G) xs s1 = Inr s'"
    by (auto simp: bind_eq_Inr x)
  from Cons.prems(2,3) have "n \<notin> fst ` set xs" and "n \<notin> (\<lambda>x. ''pin_'' @ fst x) ` set xs"
    by auto
  then have "attrs s' n = attrs s1 n" by (rule Cons.IH [OF rest])
  moreover from Cons.prems(2,3) have "n \<noteq> m" and "n \<noteq> ''pin_'' @ m" by (auto simp: x)
  then have "attrs s1 n = attrs s n"
    by (simp add: inputs_all_body_fields(2) [OF s1])
  ultimately show ?case by simp
qed

lemma inputs_all_trace:
  "for_each (begin_inputs_all_body G) xs s = Inr s' \<Longrightarrow>
   trace s' = trace s @ map (\<lambda>(n, g). PinInit g (ptype G n) (Some (default_pull G n)))
                          (filter (\<lambda>x. fst x \<noteq> muxName) xs)"
proof (induction xs arbitrary: s)
  case Nil
  then show ?case by simp
next
  case (Cons x xs)
  obtain m h where x: "x = (m, h)" by (cases x)
  from Cons.prems(1) obtain s1 where s1: "begin_inputs_all_body G (m, h) s = Inr s1"
    and rest: "for_each (begin_inputs_all_body G) xs s1 = Inr s'"
    by (auto simp: bind_eq_Inr x)
  show ?case
    by (simp add: Cons.IH [OF rest] inputs_all_body_fields(3) [OF s1] x)
qed

lemma inputs_all_lines_result:
  "for_each (begin_inputs_all_body G) xs s = Inr s' \<Longrightarrow> distinct (map snd xs) \<Longrightarrow>
   (n, g) \<in> set xs \<Longrightarrow> n \<noteq> muxName \<Longrightarrow>
   lines s' g = (lines s g)\<lparr>line_mode := ptype G n, line_pull := default_pull G n\<rparr>"
proof (induction xs arbitrary: s)
  case Nil
  then show ?case by simp
next
  case (Cons x xs)
  obtain m h where x: "x = (m, h)" by (cases x)
  from Cons.prems(1) obtain s1 where s1: "begin_inputs_all_body G (m, h) s = Inr s1"
    and rest: "for_each (begin_inputs_all_body G) xs s1 = Inr s'"
    by (auto simp: bind_eq_Inr x)
  show ?case
  proof (cases "(n, g) = (m, h)")
    case True
    from Cons.prems(2) have "g \<notin> snd ` {x \<in> set xs. fst x \<noteq> muxName}"
      using True by (auto simp: x)
    then have "lines s' g = lines s1 g" by (rule inputs_all_lines_frame [OF rest])
    with True Cons.prems(4) show ?thesis
      by (simp add: inputs_all_body_fields(1) [OF s1])
  next
    case False
    with Cons.prems(3) have in_xs: "(n, g) \<in> set xs" by (auto simp: x)
    from Cons.prems(2) have d: "distinct (map snd xs)" by simp
    from Cons.prems(2) in_xs have "g \<noteq> h" by (force simp: x)
    then have "lines s1 g = lines s g"
      by (simp add: inputs_all_body_fields(1) [OF s1])
    with Cons.IH [OF rest d in_xs Cons.prems(4)] show ?thesis by simp
  qed
qed

lemma pin_alias_neq: "\<not> startswith m ''pin_'' \<Longrightarrow> m \<noteq> ''pin_'' @ k"
  by (auto simp: startswith_def)

lemma inputs_all_attrs_result:
  "for_each (begin_inputs_all_body G) xs s = Inr s' \<Longrightarrow> distinct (map fst xs) \<Longrightarrow>
   \<forall>m \<in> fst ` set xs. \<not> startswith m ''pin_'' \<Longrightarrow>
   (n, g) \<in> set xs \<Longrightarrow> n \<noteq> muxName \<Longrightarrow> attrs s' n = Some (StandardPin n g)"
proof (induction xs arbitrary: s)
  case Nil
  then show ?case by simp
next
  case (Cons x xs)
  obtain m h where x: "x = (m, h)" by (cases x)
  from Cons.prems(1) obtain s1 where s1: "begin_inputs_all_body G (m, h) s = Inr s1"
    and rest: "for_each (begin_inputs_all_body G) xs s1 = Inr s'"
    by (auto simp: bind_eq_Inr x)
  show ?case
  proof (cases "(n, g) = (m, h)")
    case True
    from Cons.prems(2) True have a: "n \<notin> fst ` set xs" by (auto simp: x)
    from Cons.prems(3) True have "\<not> startswith n ''pin_''" by (simp add: x)
    then have b: "n \<notin> (\<lambda>x. ''pin_'' @ fst x) ` set xs"
      using pin_alias_neq by blast
    have "attrs s' n = attrs s1 n" by (rule inputs_all_attrs_frame [OF rest a b])
    with True Cons.prems(5) show ?thesis
      by (simp add: inputs_all_body_fields(2) [OF s1])
  next
    case False
    with Cons.prems(4) have in_xs: "(n, g) \<in> set xs" by (auto simp: x)
    from Cons.prems(2) have d: "distinct (map fst xs)" by simp
    from Cons.prems(3) have p: "\<forall>m \<in> fst ` set xs. \<not> startswith m ''pin_''" by simp
    show ?thesis by (rule Cons.IH [OF rest d p in_xs Cons.prems(5)])
  qed
qed

subsection \<open>Steps on declared pins\<close>

lemma cfg_step_refl [simp]: "cfg_step G s s"
  by (simp add: cfg_step_def)

lemma cfg_step_trans:
  assumes st: "cfg_step G s t" and tu: "cfg_step G t u"
  shows "cfg_step G s u"
proof -
  from st obtain e1 where e1: "trace t = trace s @ e1" "\<not> list_ex is_MuxedPinNew e1"
    unfolding cfg_step_def by blast
  from tu obtain e2 where e2: "trace u = trace t @ e2" "\<not> list_ex is_MuxedPinNew e2"
    unfolding cfg_step_def by blast
  from e1 e2 have "trace u = trace s @ (e1 @ e2) \<and> \<not> list_ex is_MuxedPinNew (e1 @ e2)"
    by simp
  then have tr: "\<exists>evs. trace u = trace s @ evs \<and> \<not> list_ex is_MuxedPinNew evs"
    by blast
  from st tu have "dieOnInputControlSwitchHigh u = dieOnInputControlSwitchHigh s"
    and "mode_attr u = mode_attr s" and "attrs u = attrs s" and "muxCtrl u = muxCtrl s"
    and "\<forall>g. line_out (lines u g) = line_out (lines s g)"
    and "\<forall>g. g \<notin> declared_gpios G \<longrightarrow> lines u g = lines s g"
    by (simp_all add: cfg_step_def)
  with tr show ?thesis
    unfolding cfg_step_def by blast
qed

lemma declared_gpio: "(n, g) \<in> set (all_pins G) \<Longrightarrow> n \<noteq> muxName \<Longrightarrow> g \<in> declared_gpios G"
  by (force simp: declared_gpios_def)

lemma declaredD: "n \<in> declared G \<Longrightarrow> \<exists>g. (n, g) \<in> set (all_pins G) \<and> n \<noteq> muxName"
  by (auto simp: declared_def)

lemma cfg_step_set_mode:
  "g \<in> declared_gpios G \<Longrightarrow> cfg_step G s (line_set_mode g m s)"
  by (simp add: cfg_step_def)

lemma cfg_step_set_pull:
  "g \<in> declared_gpios G \<Longrightarrow> cfg_step G s (line_set_pull g q s)"
  by (simp add: cfg_step_def)

lemma cfg_step_read: "cfg_step G s (snd (raw_read E g s))"
  by (simp add: cfg_step_def)

lemma cfg_step_warn: "cfg_step G s (log_warn msg s)"
  by (simp add: cfg_step_def)

lemma cfg_step_error: "cfg_step G s (log_error msg s)"
  by (simp add: cfg_step_def)

lemma std_pins_cfg_step: "cfg_step G s t \<Longrightarrow> std_pins G s \<Longrightarrow> std_pins G t"
  by (simp add: cfg_step_def std_pins_def)

lemma pins_present_cfg_step: "cfg_step G s t \<Longrightarrow> pins_present G s \<Longrightarrow> pins_present G t"
  by (simp add: cfg_step_def pins_present_def)

lemma std_pins_present: "std_pins G s \<Longrightarrow> pins_present G s"
  by (fastforce simp: std_pins_def pins_present_def)

lemma std_pins_attr:
  "std_pins G s \<Longrightarrow> (n, g) \<in> set (all_pins G) \<Longrightarrow> n \<noteq> muxName \<Longrightarrow>
   attrs s n = Some (StandardPin n g)"
  by (auto simp: std_pins_def)

lemma pins_present_attr:
  "pins_present G s \<Longrightarrow> (n, g) \<in> set (all_pins G) \<Longrightarrow> n \<noteq> muxName \<Longrightarrow>
   \<exists>p. attrs s n = Some p \<and> pin_gpio p = g \<and> (\<forall>h. p \<noteq> RawPin h)"
  by (auto simp: pins_present_def)

lemma set_mode_present:
  assumes "pins_present G s" and "(n, g) \<in> set (all_pins G)" and "n \<noteq> muxName"
  shows "bind (getattr s n) (\<lambda>p. set_pin_mode p m s) = Inr (line_set_mode g m s)"
proof -
  from pins_present_attr [OF assms] obtain p
    where p: "attrs s n = Some p" "pin_gpio p = g" "\<forall>h. p \<noteq> RawPin h" by blast
  then have "set_pin_mode p m s = Inr (line_set_mode g m s)"
    by (simp add: set_pin_mode_eq_Inr)
  with p(1) show ?thesis by simp
qed

lemma set_pull_present:
  assumes "pins_present G s" and "(n, g) \<in> set (all_pins G)" and "n \<noteq> muxName"
  shows "bind (getattr s n) (\<lambda>p. set_pin_pull p q s) = Inr (line_set_pull g q s)"
proof -
  from pins_present_attr [OF assms] obtain p
    where p: "attrs s n = Some p" "pin_gpio p = g" "\<forall>h. p \<noteq> RawPin h" by blast
  then have "set_pin_pull p q s = Inr (line_set_pull g q s)"
    by (simp add: set_pin_pull_eq_Inr)
  with p(1) show ?thesis by simp
qed

subsection \<open>The first step, summed up\<close>

lemma begin_inputs_all_std:
  assumes "wf_names G"
  shows "\<exists>s1. begin_inputs_all G s = Inr s1 \<and> std_pins G s1 \<and>
     dieOnInputControlSwitchHigh s1 = dieOnInputControlSwitchHigh s \<and>
     mode_attr s1 = mode_attr s \<and> muxCtrl s1 = muxCtrl s"
proof -
  obtain s1 where s1: "for_each (begin_inputs_all_body G) (all_pins G) s = Inr s1"
    using begin_inputs_all_total by blast
  from assms have d: "distinct (map fst (all_pins G))"
    and p: "\<forall>m \<in> fst ` set (all_pins G). \<not> startswith m ''pin_''"
    by (simp_all add: wf_names_def)
  have "std_pins G s1"
    unfolding std_pins_def using inputs_all_attrs_result [OF s1 d p] by blast
  with s1 inputs_all_kept [OF s1] show ?thesis
    by (simp add: begin_inputs_all_def)
qed

subsection \<open>Forcing the always-output pins\<close>

lemma begin_alwaysOut_ok:
  assumes "std_pins G s" and "set (always_outputs G) \<subseteq> declared G"
  shows "\<exists>s'. begin_alwaysOut G s = Inr s' \<and> std_pins G s' \<and> cfg_step G s s'"
  unfolding begin_alwaysOut_def
proof (rule for_each_invariant [where P = "\<lambda>t. std_pins G t \<and> cfg_step G s t"])
  show "std_pins G s \<and> cfg_step G s s" using assms(1) by simp
next
  fix n t
  assume n: "n \<in> set (always_outputs G)" and t: "std_pins G t \<and> cfg_step G s t"
  with assms(2) obtain g where g: "(n, g) \<in> set (all_pins G)" "n \<noteq> muxName"
    using declaredD by blast
  from t have "pins_present G t" by (simp add: std_pins_present)
  then have b: "bind (getattr t n) (\<lambda>p. set_pin_mode p OUT t) = Inr (line_set_mode g OUT t)"
    using g by (rule set_mode_present)
  have c: "cfg_step G t (line_set_mode g OUT t)"
    using g by (simp add: cfg_step_set_mode declared_gpio)
  with t have "std_pins G (line_set_mode g OUT t) \<and> cfg_step G s (line_set_mode g OUT t)"
    using cfg_step_trans std_pins_cfg_step by blast
  with b show "\<exists>s'. bind (getattr t n) (\<lambda>p. set_pin_mode p OUT t) = Inr s' \<and>
      std_pins G s' \<and> cfg_step G s s'" by simp
qed

subsection \<open>The direction pass of ASIC_RP_CONTROL\<close>

lemma startswith_in_not_mux: "startswith n ''in'' \<Longrightarrow> n \<noteq> muxName"
  by (auto simp: startswith_def muxName_def)

lemma startswith_out_not_mux: "startswith n ''out'' \<Longrightarrow> n \<noteq> muxName"
  by (auto simp: startswith_def muxName_def)

lemma raw_read_pair: "raw_read E g s = (level E (lines s) g, snd (raw_read E g s))"
  by (simp add: raw_read_def Let_def)

lemma pin_read_StandardPin [simp]:
  "pin_read E (StandardPin n g) s = Inr (level E (lines s) g, snd (raw_read E g s))"
  by (simp add: pin_read_def raw_read_def Let_def)

lemma set_pin_mode_StandardPin [simp]:
  "set_pin_mode (StandardPin n g) m s = Inr (line_set_mode g m s)"
  by (simp add: set_pin_mode_def)

lemma set_pin_pull_StandardPin [simp]:
  "set_pin_pull (StandardPin n g) q s = Inr (line_set_pull g q s)"
  by (simp add: set_pin_pull_def)

lemma asic_body_skip:
  "\<not> startswith n ''in'' \<Longrightarrow> begin_asiconboard_body E n (unc, t) = Inr (unc, t)"
  by (simp add: begin_asiconboard_body_def)

lemma asic_body_std:
  assumes "std_pins G t" and "(n, g) \<in> set (all_pins G)" and "startswith n ''in''"
  shows "begin_asiconboard_body E n (unc, t) =
     Inr (if dieOnInputControlSwitchHigh t then
            if level E (lines t) g
            then (unc @ [n], log_warn (contention_warning n) (snd (raw_read E g t)))
            else (unc, line_set_mode g OUT (snd (raw_read E g t)))
          else (unc, line_set_mode g OUT t))"
proof -
  from assms have "attrs t n = Some (StandardPin n g)"
    using startswith_in_not_mux std_pins_attr by blast
  then show ?thesis
    using assms(3) by (simp add: begin_asiconboard_body_def)
qed

lemma asic_body_cfg_step:
  assumes "std_pins G t" and "n \<in> fst ` set (all_pins G)"
  shows "\<exists>unc' t'. begin_asiconboard_body E n (unc, t) = Inr (unc', t') \<and> cfg_step G t t'"
proof (cases "startswith n ''in''")
  case False
  then show ?thesis by (simp add: asic_body_skip)
next
  case True
  from assms(2) obtain g where g: "(n, g) \<in> set (all_pins G)" by auto
  from g True have dg: "g \<in> declared_gpios G"
    using declared_gpio startswith_in_not_mux by blast
  let ?t1 = "snd (raw_read E g t)"
  have r: "cfg_step G t ?t1" by (rule cfg_step_read)
  have "cfg_step G ?t1 (log_warn (contention_warning n) ?t1)" by (rule cfg_step_warn)
  with r have a: "cfg_step G t (log_warn (contention_warning n) ?t1)" by (rule cfg_step_trans)
  have "cfg_step G ?t1 (line_set_mode g OUT ?t1)" using dg by (rule cfg_step_set_mode)
  with r have b: "cfg_step G t (line_set_mode g OUT ?t1)" by (rule cfg_step_trans)
  have c: "cfg_step G t (line_set_mode g OUT t)" using dg by (rule cfg_step_set_mode)
  show ?thesis
    unfolding asic_body_std [OF assms(1) g True] using a b c by simp
qed

lemma asic_pass_ok:
  assumes "std_pins G s"
  shows "\<exists>unc s'. for_each (begin_asiconboard_body E) (map fst (all_pins G)) (unc0, s) = Inr (unc, s')
     \<and> std_pins G s' \<and> cfg_step G s s'"
proof -
  have "\<exists>r. for_each (begin_asiconboard_body E) (map fst (all_pins G)) (unc0, s) = Inr r \<and>
      (std_pins G (snd r) \<and> cfg_step G s (snd r))"
  proof (rule for_each_invariant [where P = "\<lambda>r. std_pins G (snd r) \<and> cfg_step G s (snd r)"])
    show "std_pins G (snd (unc0, s)) \<and> cfg_step G s (snd (unc0, s))"
      using assms by simp
  next
    fix n and r :: "string list \<times> pins"
    assume n: "n \<in> set (map fst (all_pins G))"
      and r: "std_pins G (snd r) \<and> cfg_step G s (snd r)"
    obtain unc t where ut: "r = (unc, t)" by (cases r)
    from n r ut obtain unc' t' where
      b: "begin_asiconboard_body E n (unc, t) = Inr (unc', t')" and c: "cfg_step G t t'"
      using asic_body_cfg_step [of G t n E unc] by auto
    from r ut c have "std_pins G t' \<and> cfg_step G s t'"
      using cfg_step_trans std_pins_cfg_step by auto
    with b ut show "\<exists>r'. begin_asiconboard_body E n r = Inr r' \<and>
        (std_pins G (snd r') \<and> cfg_step G s (snd r'))" by simp
  qed
  then show ?thesis by auto
qed

subsection \<open>The direction pass of STANDALONE\<close>

lemma standalone_body_cfg_step:
  assumes "std_pins G t" and "n \<in> fst ` set (all_pins G)"
  shows "\<exists>t'. begin_standalone_body n t = Inr t' \<and> std_pins G t' \<and> cfg_step G t t'"
proof -
  from assms(2) obtain g where g: "(n, g) \<in> set (all_pins G)" by auto
  let ?t1 = "if startswith n ''out'' then line_set_mode g OUT t else t"
  let ?t2 = "if startswith n ''in'' then line_set_pull g PULL_DOWN ?t1 else ?t1"
  have dg: "startswith n ''out'' \<or> startswith n ''in'' \<Longrightarrow> g \<in> declared_gpios G"
    using g declared_gpio startswith_in_not_mux startswith_out_not_mux by blast
  have a1: "startswith n ''out'' \<Longrightarrow> attrs t n = Some (StandardPin n g)"
    using assms(1) g startswith_out_not_mux std_pins_attr by blast
  have c1: "cfg_step G t ?t1" using dg by (simp add: cfg_step_set_mode)
  then have s1: "std_pins G ?t1" using assms(1) std_pins_cfg_step by blast
  have a2: "startswith n ''in'' \<Longrightarrow> attrs ?t1 n = Some (StandardPin n g)"
    using s1 g startswith_in_not_mux std_pins_attr by blast
  have "cfg_step G ?t1 ?t2" using dg by (simp add: cfg_step_set_pull)
  with c1 have c2: "cfg_step G t ?t2" by (rule cfg_step_trans)
  then have s2: "std_pins G ?t2" using assms(1) std_pins_cfg_step by blast
  have e1: "(if startswith n ''out''
           then bind (getattr t n) (\<lambda>p. set_pin_mode p OUT t)
           else Inr t) = Inr ?t1"
    using a1 by simp
  have e2: "(if startswith n ''in''
              then bind (getattr ?t1 n) (\<lambda>p. set_pin_pull p PULL_DOWN ?t1)
              else Inr ?t1) = Inr ?t2"
    using a2 by simp
  have "begin_standalone_body n t = Inr ?t2"
    unfolding begin_standalone_body_def e1 bind_Inr e2 ..
  with c2 s2 show ?thesis by blast
qed

lemma standalone_pass_ok:
  assumes "std_pins G s"
  shows "\<exists>s'. for_each begin_standalone_body (map fst (all_pins G)) s = Inr s'
     \<and> std_pins G s' \<and> cfg_step G s s'"
proof (rule for_each_invariant [where P = "\<lambda>t. std_pins G t \<and> cfg_step G s t"])
  show "std_pins G s \<and> cfg_step G s s" using assms by simp
next
  fix n t
  assume n: "n \<in> set (map fst (all_pins G))" and t: "std_pins G t \<and> cfg_step G s t"
  then obtain t' where "begin_standalone_body n t = Inr t'" "std_pins G t'" "cfg_step G t t'"
    using standalone_body_cfg_step [of G t n] by auto
  with t show "\<exists>s'. begin_standalone_body n t = Inr s' \<and> std_pins G s' \<and> cfg_step G s s'"
    using cfg_step_trans by blast
qed

subsection \<open>Creating the muxed pins\<close>

lemma mux_body_ok:
  assumes pp: "pins_present G t" and mc: "muxCtrl t \<noteq> None" and pn: "pn \<in> declared G"
    and a: "a \<notin> fst ` set (all_pins G)" and b: "b \<notin> fst ` set (all_pins G)"
    and ma: "modeMap a \<noteq> None" and mb: "modeMap b \<noteq> None"
  shows "\<exists>t'. begin_muxPins_body modeMap (pn, a, b) t = Inr t' \<and> pins_present G t' \<and>
     lines t' = lines t \<and> dieOnInputControlSwitchHigh t' = dieOnInputControlSwitchHigh t \<and>
     mode_attr t' = mode_attr t \<and> muxCtrl t' \<noteq> None \<and>
     trace t' = trace t @ [MuxedPinNew pn]"
proof -
  from mc obtain c where c: "muxCtrl t = Some c" by blast
  from pn obtain g where g: "(pn, g) \<in> set (all_pins G)" "pn \<noteq> muxName"
    using declaredD by blast
  from pins_present_attr [OF pp g] obtain p
    where p: "attrs t pn = Some p" "pin_gpio p = g" by blast
  from ma obtain d0 where d0: "modeMap a = Some d0" by blast
  from mb obtain d1 where d1: "modeMap b = Some d1" by blast
  define mp where "mp = MuxedPin pn g (MuxedPinInfo a 0 d0) (MuxedPinInfo b 1 d1)"
  define t' where "t' = setattr pn mp (setattr b (MuxedSub pn g (MuxedPinInfo b 1 d1))
      (setattr a (MuxedSub pn g (MuxedPinInfo a 0 d0))
        (t\<lparr>trace := trace t @ [MuxedPinNew pn],
           muxCtrl := Some (c\<lparr>muxedPins := muxedPins c @ [mp]\<rparr>),
           allpins := (allpins t)(pn \<mapsto> mp)\<rparr>)))"
  have body: "begin_muxPins_body modeMap (pn, a, b) t = Inr t'"
    by (simp add: begin_muxPins_body_def c p d0 d1 Let_def t'_def mp_def)
  have at: "attrs t' = (attrs t)(a \<mapsto> MuxedSub pn g (MuxedPinInfo a 0 d0),
      b \<mapsto> MuxedSub pn g (MuxedPinInfo b 1 d1), pn \<mapsto> mp)"
    by (simp add: t'_def)
  have "pins_present G t'"
    unfolding pins_present_def
  proof (intro ballI, clarify)
    fix n h
    assume nh: "(n, h) \<in> set (all_pins G)" and nm: "n \<noteq> muxName"
    from pins_present_attr [OF pp nh nm] obtain q
      where q: "attrs t n = Some q" "pin_gpio q = h" "\<forall>k. q \<noteq> RawPin k" by blast
    from nh a b have na: "n \<noteq> a" and nb: "n \<noteq> b" by force+
    show "\<exists>p. attrs t' n = Some p \<and> pin_gpio p = h \<and> (\<forall>k. p \<noteq> RawPin k)"
    proof (cases "n = pn")
      case True
      with q p have "g = h" by simp
      with True show ?thesis by (simp add: at mp_def)
    next
      case False
      with na nb q show ?thesis by (simp add: at)
    qed
  qed
  moreover have "lines t' = lines t" "dieOnInputControlSwitchHigh t' = dieOnInputControlSwitchHigh t"
    "mode_attr t' = mode_attr t" "muxCtrl t' \<noteq> None" "trace t' = trace t @ [MuxedPinNew pn]"
    by (simp_all add: t'_def)
  ultimately show ?thesis using body by blast
qed

lemma mux_loop_ok:
  assumes "\<forall>(pn, a, b) \<in> set xs. pn \<in> declared G \<and> a \<notin> fst ` set (all_pins G) \<and>
      b \<notin> fst ` set (all_pins G) \<and> modeMap a \<noteq> None \<and> modeMap b \<noteq> None"
    and "pins_present G s" and "muxCtrl s \<noteq> None"
  shows "\<exists>s'. for_each (begin_muxPins_body modeMap) xs s = Inr s' \<and> pins_present G s' \<and>
     lines s' = lines s \<and> dieOnInputControlSwitchHigh s' = dieOnInputControlSwitchHigh s \<and>
     mode_attr s' = mode_attr s \<and> muxCtrl s' \<noteq> None \<and>
     trace s' = trace s @ map (\<lambda>x. MuxedPinNew (fst x)) xs"
  using assms
proof (induction xs arbitrary: s)
  case Nil
  then show ?case by simp
next
  case (Cons x xs)
  obtain pn a b where x: "x = (pn, a, b)" by (cases x)
  from Cons.prems(1) have hx: "pn \<in> declared G" "a \<notin> fst ` set (all_pins G)"
    "b \<notin> fst ` set (all_pins G)" "modeMap a \<noteq> None" "modeMap b \<noteq> None"
    by (simp_all add: x)
  from Cons.prems(1) have hxs: "\<forall>(pn, a, b) \<in> set xs. pn \<in> declared G \<and>
      a \<notin> fst ` set (all_pins G) \<and> b \<notin> fst ` set (all_pins G) \<and>
      modeMap a \<noteq> None \<and> modeMap b \<noteq> None"
    by simp
  from mux_body_ok [OF Cons.prems(2,3) hx] obtain s1
    where s1: "begin_muxPins_body modeMap (pn, a, b) s = Inr s1" "pins_present G s1"
      "lines s1 = lines s" "dieOnInputControlSwitchHigh s1 = dieOnInputControlSwitchHigh s"
      "mode_attr s1 = mode_attr s" "muxCtrl s1 \<noteq> None" "trace s1 = trace s @ [MuxedPinNew pn]"
    by blast
  from Cons.IH [OF hxs s1(2) s1(6)] obtain s'
    where s': "for_each (begin_muxPins_body modeMap) xs s1 = Inr s'" "pins_present G s'"
      "lines s' = lines s1" "dieOnInputControlSwitchHigh s' = dieOnInputControlSwitchHigh s1"
      "mode_attr s' = mode_attr s1" "muxCtrl s' \<noteq> None"
      "trace s' = trace s1 @ map (\<lambda>x. MuxedPinNew (fst x)) xs"
    by blast
  have "for_each (begin_muxPins_body modeMap) (x # xs) s = Inr s'"
    by (simp add: x s1(1) s'(1))
  moreover have "trace s' = trace s @ map (\<lambda>x. MuxedPinNew (fst x)) (x # xs)"
    by (simp add: s'(7) s1(7) x)
  ultimately show ?case
    using s'(2,6) s'(3) s1(3) s'(4) s1(4) s'(5) s1(5) by auto
qed

lemma begin_muxPins_ok:
  assumes "pins_present G s" and "wf_mux G (mode_attr s)" and "mux_ready G s"
  shows "\<exists>s'. begin_muxPins G s = Inr s' \<and> mux_step G s s'"
proof (cases "demoboard_uses_mux G")
  case False
  with assms(1) show ?thesis
    by (simp add: begin_muxPins_def mux_step_def mux_events_def)
next
  case True
  with assms(2) have w: "\<forall>(pn, a, b) \<in> set (muxed_pairs G). pn \<in> declared G \<and>
      a \<notin> fst ` set (all_pins G) \<and> b \<notin> fst ` set (all_pins G) \<and>
      muxed_pinmode_map G (mode_attr s) a \<noteq> None \<and> muxed_pinmode_map G (mode_attr s) b \<noteq> None"
    by (simp add: wf_mux_def)
  from assms(3) True have m: "muxCtrl s \<noteq> None" by (simp add: mux_ready_def)
  from mux_loop_ok [OF w assms(1) m] obtain s'
    where "for_each (begin_muxPins_body (muxed_pinmode_map G (mode_attr s))) (muxed_pairs G) s = Inr s'"
      "pins_present G s'" "lines s' = lines s"
      "dieOnInputControlSwitchHigh s' = dieOnInputControlSwitchHigh s"
      "mode_attr s' = mode_attr s" "muxCtrl s' \<noteq> None"
      "trace s' = trace s @ map (\<lambda>x. MuxedPinNew (fst x)) (muxed_pairs G)"
    by blast
  with True m show ?thesis
    by (auto simp add: begin_muxPins_def mux_step_def mux_events_def)
qed

subsection \<open>Forcing the clock pin\<close>

lemma bind_Inr_right [simp]: "bind m Inr = m"
  by (cases m) simp_all

lemma project_clk_present:
  assumes "pins_present G s" and "(''rp_projclk'', g) \<in> set (all_pins G)"
  shows "project_clk_driven_by_RP2040 b s = Inr (line_set_mode g (if b then OUT else IN) s)"
proof -
  have nm: "''rp_projclk'' \<noteq> muxName" by (simp add: muxName_def)
  have "bind (getattr s ''rp_projclk'') (\<lambda>p. set_pin_mode p m s) = Inr (line_set_mode g m s)" for m
    using assms nm by (rule set_mode_present)
  from this [of OUT] this [of IN] show ?thesis
    by (cases b) (simp_all add: project_clk_driven_by_RP2040_def)
qed

subsection \<open>The transitions, step by step\<close>

lemma wf_topologyD:
  assumes "wf_topology G md"
  shows "wf_names G" and "set (always_outputs G) \<subseteq> declared G"
    and "\<exists>g. (''rp_projclk'', g) \<in> set (all_pins G)" and "wf_mux G md"
  using assms declaredD [of "''rp_projclk''" G] by (auto simp: wf_topology_def)

lemma mux_ready_cong:
  "muxCtrl t = muxCtrl s \<Longrightarrow> mux_ready G s \<Longrightarrow> mux_ready G t"
  by (simp add: mux_ready_def)

lemma first_two_steps:
  assumes wf: "wf_topology G (mode_attr s)" and mr: "mux_ready G s"
  obtains s1 s2 where "begin_inputs_all G s = Inr s1" and "std_pins G s1"
    and "begin_alwaysOut G s1 = Inr s2" and "std_pins G s2" and "cfg_step G s1 s2"
    and "mode_attr s2 = mode_attr s" and "mux_ready G s2"
    and "dieOnInputControlSwitchHigh s2 = dieOnInputControlSwitchHigh s"
proof -
  from begin_inputs_all_std [OF wf_topologyD(1) [OF wf], of s] obtain s1
    where s1: "begin_inputs_all G s = Inr s1" "std_pins G s1"
      "dieOnInputControlSwitchHigh s1 = dieOnInputControlSwitchHigh s"
      "mode_attr s1 = mode_attr s" "muxCtrl s1 = muxCtrl s"
    by blast
  from begin_alwaysOut_ok [OF s1(2) wf_topologyD(2) [OF wf]] obtain s2
    where s2: "begin_alwaysOut G s1 = Inr s2" "std_pins G s2" "cfg_step G s1 s2"
    by blast
  from s2(3) s1 have "mode_attr s2 = mode_attr s" "muxCtrl s2 = muxCtrl s"
    "dieOnInputControlSwitchHigh s2 = dieOnInputControlSwitchHigh s"
    by (simp_all add: cfg_step_def)
  with s1 s2 mr that show ?thesis
    using mux_ready_cong by blast
qed

lemma begin_safe_steps:
  assumes wf: "wf_topology G (mode_attr s)" and mr: "mux_ready G s"
  obtains s1 s2 s3 where "begin_inputs_all G s = Inr s1" and "std_pins G s1"
    and "begin_alwaysOut G s1 = Inr s2" and "std_pins G s2" and "cfg_step G s1 s2"
    and "begin_muxPins G s2 = Inr s3" and "mux_step G s2 s3"
    and "begin_safe G s = Inr s3"
proof -
  from first_two_steps [OF wf mr] obtain s1 s2
    where a: "begin_inputs_all G s = Inr s1" "std_pins G s1"
      "begin_alwaysOut G s1 = Inr s2" "std_pins G s2" "cfg_step G s1 s2"
      "mode_attr s2 = mode_attr s" "mux_ready G s2"
    by blast
  from wf a(6) have "wf_mux G (mode_attr s2)" by (simp add: wf_topologyD(4))
  from begin_muxPins_ok [OF std_pins_present [OF a(4)] this a(7)] obtain s3
    where s3: "begin_muxPins G s2 = Inr s3" "mux_step G s2 s3" by blast
  have "begin_safe G s = Inr s3"
    by (simp add: begin_safe_def a(1,3) s3(1))
  with a s3 that show ?thesis by blast
qed

lemma begin_asic_manual_inputs_steps:
  assumes wf: "wf_topology G (mode_attr s)" and mr: "mux_ready G s"
    and clk: "(''rp_projclk'', g) \<in> set (all_pins G)"
  obtains s1 s2 s3 where "begin_inputs_all G s = Inr s1" and "std_pins G s1"
    and "begin_alwaysOut G s1 = Inr s2" and "std_pins G s2" and "cfg_step G s1 s2"
    and "begin_muxPins G s2 = Inr s3" and "mux_step G s2 s3"
    and "begin_asic_manual_inputs G s = Inr (line_set_mode g IN s3)"
proof -
  from begin_safe_steps [OF wf mr] obtain s1 s2 s3
    where a: "begin_inputs_all G s = Inr s1" "std_pins G s1"
      "begin_alwaysOut G s1 = Inr s2" "std_pins G s2" "cfg_step G s1 s2"
      "begin_muxPins G s2 = Inr s3" "mux_step G s2 s3"
    by blast
  from a(7) have "pins_present G s3" by (simp add: mux_step_def)
  from project_clk_present [OF this clk, of False]
  have "begin_asic_manual_inputs G s = Inr (line_set_mode g IN s3)"
    by (simp add: begin_asic_manual_inputs_def a(1,3,6))
  with a that show ?thesis by blast
qed

lemma cfg_step_errlog: "cfg_step G s (errlog unc s)"
  by (simp add: errlog_def cfg_step_error)

lemma begin_asiconboard_steps:
  assumes wf: "wf_topology G (mode_attr s)" and mr: "mux_ready G s"
    and clk: "(''rp_projclk'', g) \<in> set (all_pins G)"
  obtains s1 s2 unc s3 s4 where "begin_inputs_all G s = Inr s1" and "std_pins G s1"
    and "begin_alwaysOut G s1 = Inr s2" and "std_pins G s2" and "cfg_step G s1 s2"
    and "for_each (begin_asiconboard_body E) (map fst (all_pins G)) ([], s2) = Inr (unc, s3)"
    and "std_pins G s3" and "cfg_step G s2 s3"
    and "begin_muxPins G (errlog unc s3) = Inr s4" and "mux_step G (errlog unc s3) s4"
    and "begin_asiconboard G E s = Inr (line_set_mode g OUT s4)"
proof -
  from first_two_steps [OF wf mr] obtain s1 s2
    where a: "begin_inputs_all G s = Inr s1" "std_pins G s1"
      "begin_alwaysOut G s1 = Inr s2" "std_pins G s2" "cfg_step G s1 s2"
      "mode_attr s2 = mode_attr s" "mux_ready G s2"
    by blast
  from asic_pass_ok [OF a(4), of E "[]"] obtain unc s3
    where b: "for_each (begin_asiconboard_body E) (map fst (all_pins G)) ([], s2) = Inr (unc, s3)"
      "std_pins G s3" "cfg_step G s2 s3"
    by blast
  let ?s3 = "errlog unc s3"
  have c: "cfg_step G s3 ?s3" by (rule cfg_step_errlog)
  with b(2) have sp: "std_pins G ?s3" using std_pins_cfg_step by blast
  from b(3) c a(6) have m: "mode_attr ?s3 = mode_attr s" by (simp add: cfg_step_def)
  from b(3) c have "muxCtrl ?s3 = muxCtrl s2" by (simp add: cfg_step_def)
  with a(7) have mr3: "mux_ready G ?s3" using mux_ready_cong by blast
  from wf m have "wf_mux G (mode_attr ?s3)" by (simp add: wf_topologyD(4))
  from begin_muxPins_ok [OF std_pins_present [OF sp] this mr3] obtain s4
    where d: "begin_muxPins G ?s3 = Inr s4" "mux_step G ?s3 s4" by blast
  from d(2) have "pins_present G s4" by (simp add: mux_step_def)
  from project_clk_present [OF this clk, of True] d(1)
  have "begin_asiconboard G E s = Inr (line_set_mode g OUT s4)"
    by (simp add: begin_asiconboard_def a(1,3) b(1) errlog_def)
  with a b d that show ?thesis by blast
qed

lemma begin_standalone_steps:
  assumes wf: "wf_topology G (mode_attr s)" and mr: "mux_ready G s"
    and clk: "(''rp_projclk'', g) \<in> set (all_pins G)"
  obtains s1 s2 s3 s4 where "begin_inputs_all G s = Inr s1" and "std_pins G s1"
    and "begin_alwaysOut G s1 = Inr s2" and "std_pins G s2" and "cfg_step G s1 s2"
    and "for_each begin_standalone_body (map fst (all_pins G)) s2 = Inr s3"
    and "std_pins G s3" and "cfg_step G s2 s3"
    and "begin_muxPins G s3 = Inr s4" and "mux_step G s3 s4"
    and "begin_standalone G s = Inr (line_set_mode g OUT s4)"
proof -
  from first_two_steps [OF wf mr] obtain s1 s2
    where a: "begin_inputs_all G s = Inr s1" "std_pins G s1"
      "begin_alwaysOut G s1 = Inr s2" "std_pins G s2" "cfg_step G s1 s2"
      "mode_attr s2 = mode_attr s" "mux_ready G s2"
    by blast
  from standalone_pass_ok [OF a(4)] obtain s3
    where b: "for_each begin_standalone_body (map fst (all_pins G)) s2 = Inr s3"
      "std_pins G s3" "cfg_step G s2 s3"
    by blast
  from b(3) a(6) have m: "mode_attr s3 = mode_attr s" by (simp add: cfg_step_def)
  from b(3) have "muxCtrl s3 = muxCtrl s2" by (simp add: cfg_step_def)
  with a(7) have mr3: "mux_ready G s3" using mux_ready_cong by blast
  from wf m have "wf_mux G (mode_attr s3)" by (simp add: wf_topologyD(4))
  from begin_muxPins_ok [OF std_pins_present [OF b(2)] this mr3] obtain s4
    where d: "begin_muxPins G s3 = Inr s4" "mux_step G s3 s4" by blast
  from d(2) have "pins_present G s4" by (simp add: mux_step_def)
  from project_clk_present [OF this clk, of True] d(1)
  have "begin_standalone G s = Inr (line_set_mode g OUT s4)"
    by (simp add: begin_standalone_def a(1,3) b(1))
  with a b d that show ?thesis by blast
qed

subsection \<open>The mode setter\<close>

lemma startupMap_SAFE: "startupMap R G E (SAFE R) = Some (begin_safe G)"
  by (simp add: startupMap_def)

lemma startupMap_invalid: "\<not> is_mode R m \<Longrightarrow> startupMap R G E m = None"
  by (simp add: startupMap_def is_mode_def)

lemma startupMap_modes:
  assumes "distinct_modes R"
  shows "startupMap R G E (ASIC_RP_CONTROL R) = Some (begin_asiconboard G E)"
    and "startupMap R G E (ASIC_MANUAL_INPUTS R) = Some (begin_asic_manual_inputs G)"
    and "startupMap R G E (STANDALONE R) = Some (begin_standalone G)"
  using assms by (auto simp: startupMap_def distinct_modes_def)

lemma set_mode_SAFE:
  "set_mode R G E (SAFE R) s = begin_safe G (s\<lparr>mode_attr := Some (SAFE R)\<rparr>)"
  by (simp add: set_mode_def startupMap_SAFE)

lemma set_mode_invalid:
  "\<not> is_mode R m \<Longrightarrow> set_mode R G E m s = begin_safe G (s\<lparr>mode_attr := Some (SAFE R)\<rparr>)"
  by (simp add: set_mode_def startupMap_SAFE startupMap_invalid)

lemma set_mode_modes:
  assumes "distinct_modes R"
  shows "set_mode R G E (ASIC_RP_CONTROL R) s =
      begin_asiconboard G E (s\<lparr>mode_attr := Some (ASIC_RP_CONTROL R)\<rparr>)"
    and "set_mode R G E (ASIC_MANUAL_INPUTS R) s =
      begin_asic_manual_inputs G (s\<lparr>mode_attr := Some (ASIC_MANUAL_INPUTS R)\<rparr>)"
    and "set_mode R G E (STANDALONE R) s =
      begin_standalone G (s\<lparr>mode_attr := Some (STANDALONE R)\<rparr>)"
  by (simp_all add: set_mode_def startupMap_modes [OF assms])

lemma mux_step_kept:
  assumes "mux_step G s t"
  shows "lines t = lines s" and "mode_attr t = mode_attr s"
    and "dieOnInputControlSwitchHigh t = dieOnInputControlSwitchHigh s"
    and "trace t = trace s @ mux_events G" and "pins_present G t"
  using assms by (simp_all add: mux_step_def)

lemma cfg_step_kept:
  assumes "cfg_step G s t"
  shows "mode_attr t = mode_attr s"
    and "dieOnInputControlSwitchHigh t = dieOnInputControlSwitchHigh s"
    and "muxCtrl t = muxCtrl s" and "attrs t = attrs s"
    and "line_out (lines t g) = line_out (lines s g)"
    and "g \<notin> declared_gpios G \<Longrightarrow> lines t g = lines s g"
  using assms by (simp_all add: cfg_step_def)

lemma begin_inputs_all_kept:
  assumes "begin_inputs_all G s = Inr s1"
  shows "mode_attr s1 = mode_attr s"
    and "dieOnInputControlSwitchHigh s1 = dieOnInputControlSwitchHigh s"
    and "muxCtrl s1 = muxCtrl s"
    and "line_out (lines s1 g) = line_out (lines s g)"
  using inputs_all_kept [OF assms [unfolded begin_inputs_all_def]] by simp_all

text \<open>
  C10. A value that is none of the four mode constants raises no error when it is assigned
  to \<^verbatim>\<open>mode\<close>: the assignment behaves as the assignment of \<^verbatim>\<open>SAFE\<close>, it runs
  \<^verbatim>\<open>begin_safe\<close> with \<^verbatim>\<open>SAFE\<close> stored, and on a well-formed topology it completes with
  \<^verbatim>\<open>SAFE\<close> as the stored mode.
\<close>

theorem invalid_mode_coerced_to_SAFE:
  assumes "\<not> is_mode R m" and "wf_topology G (Some (SAFE R))" and "mux_ready G s"
  shows "set_mode R G E m s = set_mode R G E (SAFE R) s \<and>
     set_mode R G E m s = begin_safe G (s\<lparr>mode_attr := Some (SAFE R)\<rparr>) \<and>
     (\<exists>s'. set_mode R G E m s = Inr s' \<and> mode_attr s' = Some (SAFE R))"
proof -
  let ?s0 = "s\<lparr>mode_attr := Some (SAFE R)\<rparr>"
  have e: "set_mode R G E m s = begin_safe G ?s0"
    using assms(1) by (rule set_mode_invalid)
  have wf: "wf_topology G (mode_attr ?s0)" using assms(2) by simp
  have mr: "mux_ready G ?s0" using assms(3) by (simp add: mux_ready_def)
  from begin_safe_steps [OF wf mr] obtain s1 s2 s3
    where a: "begin_inputs_all G ?s0 = Inr s1" "cfg_step G s1 s2" "mux_step G s2 s3"
      "begin_safe G ?s0 = Inr s3"
    by blast
  have "mode_attr s3 = mode_attr ?s0"
    using begin_inputs_all_kept(1) [OF a(1)] cfg_step_kept(1) [OF a(2)] mux_step_kept(2) [OF a(3)]
    by simp
  with a(4) e show ?thesis
    by (simp add: set_mode_SAFE)
qed

lemma wf_demo_tt04: "wf_topology demo_tt04 md"
  by (simp add: wf_topology_def wf_names_def wf_mux_def declared_def demo_tt04_def muxName_def
        startswith_def)

lemma wf_demo_tt06: "wf_topology demo_tt06 md"
  by (simp add: wf_topology_def wf_names_def wf_mux_def declared_def demo_tt06_def muxName_def
        startswith_def)

lemma mux_ready_demo [simp]:
  "mux_ready demo_tt04 (pins_tt04\<lparr>dieOnInputControlSwitchHigh := d\<rparr>)"
  "mux_ready demo_tt06 (pins_tt06\<lparr>dieOnInputControlSwitchHigh := d\<rparr>)"
  "mux_ready demo_tt04 pins_tt04" "mux_ready demo_tt06 pins_tt06"
  by (simp_all add: mux_ready_def pins_tt04_def demo_tt06_def)

lemma demo_modes_simps [simp]:
  "SAFE demo_modes = 0" "ASIC_RP_CONTROL demo_modes = 1"
  "ASIC_MANUAL_INPUTS demo_modes = 2" "STANDALONE demo_modes = 3"
  "distinct_modes demo_modes"
  by (simp_all add: demo_modes_def distinct_modes_def)

theorem invalid_mode_coerced_to_SAFE_witness:
  "\<not> is_mode demo_modes 7 \<and>
   (\<exists>s'. set_mode demo_modes demo_tt04 env_low 7 pins_tt04 = Inr s' \<and> mode_attr s' = Some 0)"
proof -
  have a: "\<not> is_mode demo_modes 7" by (simp add: is_mode_def)
  have b: "wf_topology demo_tt04 (Some (SAFE demo_modes))" by (rule wf_demo_tt04)
  from invalid_mode_coerced_to_SAFE [OF a b mux_ready_demo(3), of env_low]
  have "\<exists>s'. set_mode demo_modes demo_tt04 env_low 7 pins_tt04 = Inr s' \<and>
      mode_attr s' = Some (SAFE demo_modes)" by blast
  with a show ?thesis by simp
qed

section \<open>The clock pin\<close>

lemma distinct_snd_unique:
  "distinct (map snd xs) \<Longrightarrow> (a, g) \<in> set xs \<Longrightarrow> (b, g) \<in> set xs \<Longrightarrow> a = b"
  by (induction xs) force+

lemma begin_inputs_all_line:
  assumes "wf_names G" and "begin_inputs_all G s = Inr s1"
    and "(n, g) \<in> set (all_pins G)" and "n \<noteq> muxName"
  shows "lines s1 g = (lines s g)\<lparr>line_mode := ptype G n, line_pull := default_pull G n\<rparr>"
proof -
  from assms(1) have d: "distinct (map snd (all_pins G))" by (simp add: wf_names_def)
  from assms(2) have "for_each (begin_inputs_all_body G) (all_pins G) s = Inr s1"
    by (simp add: begin_inputs_all_def)
  then show ?thesis using d assms(3,4) by (rule inputs_all_lines_result)
qed

lemma begin_inputs_all_frame:
  assumes "begin_inputs_all G s = Inr s1" and "g \<notin> declared_gpios G"
  shows "lines s1 g = lines s g"
proof -
  from assms(1) have "for_each (begin_inputs_all_body G) (all_pins G) s = Inr s1"
    by (simp add: begin_inputs_all_def)
  then show ?thesis using assms(2) unfolding declared_gpios_def
    by (rule inputs_all_lines_frame)
qed

lemma begin_alwaysOut_frame:
  assumes sp: "std_pins G s" and sub: "set (always_outputs G) \<subseteq> declared G"
    and run: "begin_alwaysOut G s = Inr s'"
    and h: "\<forall>n \<in> set (always_outputs G). (n, h) \<notin> set (all_pins G)"
  shows "lines s' h = lines s h"
proof -
  let ?P = "\<lambda>t. std_pins G t \<and> lines t h = lines s h"
  have "?P s'"
  proof (rule for_each_preserves [OF run [unfolded begin_alwaysOut_def], of ?P])
    show "?P s" using sp by simp
  next
    fix n t t'
    assume n: "n \<in> set (always_outputs G)" and t: "?P t"
      and b: "bind (getattr t n) (\<lambda>p. set_pin_mode p OUT t) = Inr t'"
    from n sub obtain g where g: "(n, g) \<in> set (all_pins G)" "n \<noteq> muxName"
      using declaredD by blast
    from t have "pins_present G t" by (simp add: std_pins_present)
    from set_mode_present [OF this g, of OUT] b have t': "t' = line_set_mode g OUT t" by simp
    from n h g have "g \<noteq> h" by auto
    with t t' show "?P t'"
      using std_pins_cfg_step [OF cfg_step_set_mode [OF declared_gpio [OF g]]] by simp
  qed
  then show ?thesis by simp
qed

text \<open>
  C8. On a well-formed topology whose clock pin \<^verbatim>\<open>rp_projclk\<close> is not an always-output
  pin, every transition into one of the four modes completes, and afterwards the clock
  line is an output if the mode is \<^verbatim>\<open>ASIC_RP_CONTROL\<close> or \<^verbatim>\<open>STANDALONE\<close> and an input if
  it is \<^verbatim>\<open>ASIC_MANUAL_INPUTS\<close> or \<^verbatim>\<open>SAFE\<close>.
\<close>

theorem clock_pin_direction:
  assumes dm: "distinct_modes R" and im: "is_mode R m"
    and wf: "wf_topology G (Some m)" and mr: "mux_ready G s"
    and clk: "(''rp_projclk'', g) \<in> set (all_pins G)"
    and na: "''rp_projclk'' \<notin> set (always_outputs G)"
  shows "\<exists>s'. set_mode R G E m s = Inr s' \<and>
     line_mode (lines s' g) = (if m = ASIC_RP_CONTROL R \<or> m = STANDALONE R then OUT else IN)"
proof -
  let ?s0 = "s\<lparr>mode_attr := Some m\<rparr>"
  have wf0: "wf_topology G (mode_attr ?s0)" using wf by simp
  have mr0: "mux_ready G ?s0" using mr by (simp add: mux_ready_def)
  from dm have ne: "SAFE R \<noteq> ASIC_RP_CONTROL R" "SAFE R \<noteq> STANDALONE R"
    "ASIC_MANUAL_INPUTS R \<noteq> ASIC_RP_CONTROL R" "ASIC_MANUAL_INPUTS R \<noteq> STANDALONE R"
    by (auto simp: distinct_modes_def)
  from im consider (safe) "m = SAFE R" | (rp) "m = ASIC_RP_CONTROL R"
    | (manual) "m = ASIC_MANUAL_INPUTS R" | (standalone) "m = STANDALONE R"
    by (auto simp: is_mode_def)
  then show ?thesis
  proof cases
    case safe
    from begin_safe_steps [OF wf0 mr0] obtain s1 s2 s3
      where a: "begin_inputs_all G ?s0 = Inr s1" "std_pins G s1"
        "begin_alwaysOut G s1 = Inr s2" "mux_step G s2 s3" "begin_safe G ?s0 = Inr s3"
      by blast
    have nm: "''rp_projclk'' \<noteq> muxName" by (simp add: muxName_def)
    have "lines s1 g = (lines ?s0 g)\<lparr>line_mode := ptype G ''rp_projclk'',
        line_pull := default_pull G ''rp_projclk''\<rparr>"
      using wf_topologyD(1) [OF wf] a(1) clk nm by (rule begin_inputs_all_line)
    with na have l1: "line_mode (lines s1 g) = IN" by (simp add: ptype_def)
    have "\<forall>n \<in> set (always_outputs G). (n, g) \<notin> set (all_pins G)"
    proof
      fix n assume n: "n \<in> set (always_outputs G)"
      show "(n, g) \<notin> set (all_pins G)"
      proof
        assume "(n, g) \<in> set (all_pins G)"
        with clk wf_topologyD(1) [OF wf] have "n = ''rp_projclk''"
          using distinct_snd_unique by (fastforce simp: wf_names_def)
        with n na show False by simp
      qed
    qed
    with a(2,3) wf_topologyD(2) [OF wf] have "lines s2 g = lines s1 g"
      using begin_alwaysOut_frame by blast
    with l1 mux_step_kept(1) [OF a(4)] have "line_mode (lines s3 g) = IN" by simp
    with a(5) safe ne show ?thesis by (simp add: set_mode_SAFE)
  next
    case rp
    from begin_asiconboard_steps [OF wf0 mr0 clk, of E] obtain s4
      where "begin_asiconboard G E ?s0 = Inr (line_set_mode g OUT s4)" by blast
    with rp show ?thesis by (simp add: set_mode_modes(1) [OF dm])
  next
    case manual
    from begin_asic_manual_inputs_steps [OF wf0 mr0 clk] obtain s3
      where "begin_asic_manual_inputs G ?s0 = Inr (line_set_mode g IN s3)" by blast
    with manual ne show ?thesis by (simp add: set_mode_modes(2) [OF dm])
  next
    case standalone
    from begin_standalone_steps [OF wf0 mr0 clk] obtain s4
      where "begin_standalone G ?s0 = Inr (line_set_mode g OUT s4)" by blast
    with standalone show ?thesis by (simp add: set_mode_modes(3) [OF dm])
  qed
qed

theorem clock_pin_direction_witness:
  "(\<exists>s'. set_mode demo_modes demo_tt06 env_high 0 pins_tt06 = Inr s' \<and>
         line_mode (lines s' 0) = IN) \<and>
   (\<exists>s'. set_mode demo_modes demo_tt04 env_high 1 pins_tt04 = Inr s' \<and>
         line_mode (lines s' 0) = OUT)"
proof -
  have m: "is_mode demo_modes 0" "is_mode demo_modes 1" by (simp_all add: is_mode_def)
  have c: "(''rp_projclk'', 0) \<in> set (all_pins demo_tt06)"
    "''rp_projclk'' \<notin> set (always_outputs demo_tt06)"
    "(''rp_projclk'', 0) \<in> set (all_pins demo_tt04)"
    "''rp_projclk'' \<notin> set (always_outputs demo_tt04)"
    by (simp_all add: demo_tt06_def demo_tt04_def)
  from clock_pin_direction [OF demo_modes_simps(5) m(1) wf_demo_tt06 mux_ready_demo(4) c(1,2),
      of env_high]
    clock_pin_direction [OF demo_modes_simps(5) m(2) wf_demo_tt04 mux_ready_demo(3) c(3,4),
      of env_high]
  show ?thesis by simp
qed

section \<open>The order of the steps\<close>

lemma level_env_low_IN: "line_mode (L g) = IN \<Longrightarrow> level env_low L g = False"
  by (simp add: level_def env_low_def)

lemma for_each_Cons_Inr: "body x s = Inr s1 \<Longrightarrow> for_each body (x # xs) s = for_each body xs s1"
  by simp

lemma cfg_step_trace:
  assumes "cfg_step G s t"
  obtains evs where "trace t = trace s @ evs" and "\<not> list_ex is_MuxedPinNew evs"
  using assms unfolding cfg_step_def by blast

lemma begin_inputs_all_trace:
  "begin_inputs_all G s = Inr s1 \<Longrightarrow> trace s1 = trace s @ init_events G"
  unfolding begin_inputs_all_def init_events_def by (rule inputs_all_trace)

lemma not_mux_init_events: "\<not> list_ex is_MuxedPinNew (init_events G)"
  by (simp add: init_events_def list_ex_iff case_prod_beta)

lemma transition_trace:
  assumes dm: "distinct_modes R" and im: "is_mode R m"
    and wf: "wf_topology G (Some m)" and mr: "mux_ready G s"
    and clk: "(''rp_projclk'', g) \<in> set (all_pins G)"
  shows "\<exists>s1 s' pre. begin_inputs_all G (s\<lparr>mode_attr := Some m\<rparr>) = Inr s1 \<and>
     set_mode R G E m s = Inr s' \<and>
     trace s' = trace s1 @ pre @ mux_events G @ clk_events R m g \<and>
     \<not> list_ex is_MuxedPinNew pre"
proof -
  let ?s0 = "s\<lparr>mode_attr := Some m\<rparr>"
  have wf0: "wf_topology G (mode_attr ?s0)" using wf by simp
  have mr0: "mux_ready G ?s0" using mr by (simp add: mux_ready_def)
  from dm have ne: "ASIC_RP_CONTROL R \<noteq> SAFE R" "STANDALONE R \<noteq> SAFE R"
    "ASIC_MANUAL_INPUTS R \<noteq> SAFE R"
    "ASIC_RP_CONTROL R \<noteq> ASIC_MANUAL_INPUTS R" "STANDALONE R \<noteq> ASIC_MANUAL_INPUTS R"
    by (auto simp: distinct_modes_def)
  from im consider (safe) "m = SAFE R" | (rp) "m = ASIC_RP_CONTROL R"
    | (manual) "m = ASIC_MANUAL_INPUTS R" | (standalone) "m = STANDALONE R"
    by (auto simp: is_mode_def)
  then show ?thesis
  proof cases
    case safe
    from begin_safe_steps [OF wf0 mr0] obtain s1 s2 s3
      where a: "begin_inputs_all G ?s0 = Inr s1" "cfg_step G s1 s2" "mux_step G s2 s3"
        "begin_safe G ?s0 = Inr s3"
      by blast
    from cfg_step_trace [OF a(2)] obtain e1
      where e1: "trace s2 = trace s1 @ e1" "\<not> list_ex is_MuxedPinNew e1" by blast
    have t: "trace s3 = trace s1 @ e1 @ mux_events G @ clk_events R m g"
      using mux_step_kept(4) [OF a(3)] e1(1) safe by (simp add: clk_events_def)
    have r: "set_mode R G E m s = Inr s3"
      using a(4) safe by (simp add: set_mode_SAFE)
    show ?thesis
      by (intro exI conjI) (rule a(1), rule r, rule t, rule e1(2))
  next
    case manual
    from begin_asic_manual_inputs_steps [OF wf0 mr0 clk] obtain s1 s2 s3
      where a: "begin_inputs_all G ?s0 = Inr s1" "cfg_step G s1 s2" "mux_step G s2 s3"
        "begin_asic_manual_inputs G ?s0 = Inr (line_set_mode g IN s3)"
      by blast
    from cfg_step_trace [OF a(2)] obtain e1
      where e1: "trace s2 = trace s1 @ e1" "\<not> list_ex is_MuxedPinNew e1" by blast
    have t: "trace (line_set_mode g IN s3) = trace s1 @ e1 @ mux_events G @ clk_events R m g"
      using mux_step_kept(4) [OF a(3)] e1(1) manual ne by (simp add: clk_events_def)
    have r: "set_mode R G E m s = Inr (line_set_mode g IN s3)"
      using a(4) manual by (simp add: set_mode_modes(2) [OF dm])
    show ?thesis
      by (intro exI conjI) (rule a(1), rule r, rule t, rule e1(2))
  next
    case rp
    obtain s1 s2 unc s3 s4
      where b: "begin_inputs_all G ?s0 = Inr s1" "std_pins G s1"
        "begin_alwaysOut G s1 = Inr s2" "std_pins G s2" "cfg_step G s1 s2"
        "for_each (begin_asiconboard_body E) (map fst (all_pins G)) ([], s2) = Inr (unc, s3)"
        "std_pins G s3" "cfg_step G s2 s3"
        "begin_muxPins G (errlog unc s3) = Inr s4" "mux_step G (errlog unc s3) s4"
        "begin_asiconboard G E ?s0 = Inr (line_set_mode g OUT s4)"
      by (rule begin_asiconboard_steps [OF wf0 mr0 clk])
    note a = b(1) b(5) b(8) b(10) b(11)
    have "cfg_step G s1 (errlog unc s3)"
      by (rule cfg_step_trans [OF cfg_step_trans [OF a(2) a(3)] cfg_step_errlog])
    from cfg_step_trace [OF this] obtain e1
      where e1: "trace (errlog unc s3) = trace s1 @ e1" "\<not> list_ex is_MuxedPinNew e1" by blast
    have t: "trace (line_set_mode g OUT s4) = trace s1 @ e1 @ mux_events G @ clk_events R m g"
      using mux_step_kept(4) [OF a(4)] e1(1) rp ne by (simp add: clk_events_def)
    have r: "set_mode R G E m s = Inr (line_set_mode g OUT s4)"
      using a(5) rp by (simp add: set_mode_modes(1) [OF dm])
    show ?thesis
      by (intro exI conjI) (rule a(1), rule r, rule t, rule e1(2))
  next
    case standalone
    obtain s1 s2 s3 s4
      where b: "begin_inputs_all G ?s0 = Inr s1" "std_pins G s1"
        "begin_alwaysOut G s1 = Inr s2" "std_pins G s2" "cfg_step G s1 s2"
        "for_each begin_standalone_body (map fst (all_pins G)) s2 = Inr s3"
        "std_pins G s3" "cfg_step G s2 s3"
        "begin_muxPins G s3 = Inr s4" "mux_step G s3 s4"
        "begin_standalone G ?s0 = Inr (line_set_mode g OUT s4)"
      by (rule begin_standalone_steps [OF wf0 mr0 clk])
    note a = b(1) b(5) b(8) b(10) b(11)
    have "cfg_step G s1 s3"
      by (rule cfg_step_trans [OF a(2) a(3)])
    from cfg_step_trace [OF this] obtain e1
      where e1: "trace s3 = trace s1 @ e1" "\<not> list_ex is_MuxedPinNew e1" by blast
    have t: "trace (line_set_mode g OUT s4) = trace s1 @ e1 @ mux_events G @ clk_events R m g"
      using mux_step_kept(4) [OF a(4)] e1(1) standalone ne by (simp add: clk_events_def)
    have r: "set_mode R G E m s = Inr (line_set_mode g OUT s4)"
      using a(5) standalone by (simp add: set_mode_modes(3) [OF dm])
    show ?thesis
      by (intro exI conjI) (rule a(1), rule r, rule t, rule e1(2))
  qed
qed

text \<open>
  C3 (as amended). In every transition of a well-formed topology into one of the four modes
  the first step, \<^verbatim>\<open>begin_inputs_all\<close>, constructs every declared pin except the mux
  selector \<^verbatim>\<open>hk_csb\<close>: as an output if its name is in the always-output set and as an
  input otherwise, with the topology's default pull for its name; no other line changes.
  Its operations are the first of the transition: the trace of the transition continues
  the trace of the first step.
\<close>

theorem first_step_constructs_declared_pins:
  assumes dm: "distinct_modes R" and im: "is_mode R m"
    and wf: "wf_topology G (Some m)" and mr: "mux_ready G s"
  shows "\<exists>s1 s' rest. begin_inputs_all G (s\<lparr>mode_attr := Some m\<rparr>) = Inr s1 \<and>
     set_mode R G E m s = Inr s' \<and>
     trace s1 = trace s @ init_events G \<and> trace s' = trace s1 @ rest \<and>
     (\<forall>(n, g) \<in> set (all_pins G). n \<noteq> muxName \<longrightarrow>
        attrs s1 n = Some (StandardPin n g) \<and>
        lines s1 g = (lines s g)\<lparr>line_mode := (if n \<in> set (always_outputs G) then OUT else IN),
                                  line_pull := default_pull G n\<rparr>) \<and>
     (\<forall>g. g \<notin> declared_gpios G \<longrightarrow> lines s1 g = lines s g)"
proof -
  from wf_topologyD(3) [OF wf] obtain c where c: "(''rp_projclk'', c) \<in> set (all_pins G)"
    by blast
  from transition_trace [OF dm im wf mr c, of E] obtain s1 s' pre
    where a: "begin_inputs_all G (s\<lparr>mode_attr := Some m\<rparr>) = Inr s1"
      "set_mode R G E m s = Inr s'"
      "trace s' = trace s1 @ pre @ mux_events G @ clk_events R m c"
    by blast
  have t1: "trace s1 = trace s @ init_events G"
    using begin_inputs_all_trace [OF a(1)] by simp
  from begin_inputs_all_std [OF wf_topologyD(1) [OF wf], of "s\<lparr>mode_attr := Some m\<rparr>"] a(1)
  have sp: "std_pins G s1" by simp
  have per: "\<forall>(n, g) \<in> set (all_pins G). n \<noteq> muxName \<longrightarrow>
        attrs s1 n = Some (StandardPin n g) \<and>
        lines s1 g = (lines s g)\<lparr>line_mode := (if n \<in> set (always_outputs G) then OUT else IN),
                                  line_pull := default_pull G n\<rparr>"
  proof (intro ballI, clarify)
    fix n g
    assume ng: "(n, g) \<in> set (all_pins G)" and nm: "n \<noteq> muxName"
    have "lines s1 g = (lines (s\<lparr>mode_attr := Some m\<rparr>) g)\<lparr>line_mode := ptype G n,
        line_pull := default_pull G n\<rparr>"
      using wf_topologyD(1) [OF wf] a(1) ng nm by (rule begin_inputs_all_line)
    then show "attrs s1 n = Some (StandardPin n g) \<and>
        lines s1 g = (lines s g)\<lparr>line_mode := (if n \<in> set (always_outputs G) then OUT else IN),
                                  line_pull := default_pull G n\<rparr>"
      using std_pins_attr [OF sp ng nm] by (simp add: ptype_def)
  qed
  have fr: "\<forall>g. g \<notin> declared_gpios G \<longrightarrow> lines s1 g = lines s g"
    using begin_inputs_all_frame [OF a(1)] by simp
  have t2: "trace s' = trace s1 @ (pre @ mux_events G @ clk_events R m c)"
    using a(3) by simp
  show ?thesis
    by (intro exI conjI) (rule a(1), rule a(2), rule t1, rule t2, rule per, rule fr)
qed

theorem first_step_constructs_declared_pins_witness:
  "\<exists>s1. begin_inputs_all demo_tt06 (pins_tt06\<lparr>mode_attr := Some 0\<rparr>) = Inr s1 \<and>
     attrs s1 ''in0'' = Some (StandardPin ''in0'' 9) \<and> line_mode (lines s1 9) = IN \<and>
     line_mode (lines s1 3) = OUT"
proof -
  have m: "is_mode demo_modes 0" by (simp add: is_mode_def)
  from first_step_constructs_declared_pins [OF demo_modes_simps(5) m wf_demo_tt06
      mux_ready_demo(4), of env_low]
  obtain s1 where a: "begin_inputs_all demo_tt06 (pins_tt06\<lparr>mode_attr := Some 0\<rparr>) = Inr s1"
    and b: "\<forall>(n, g) \<in> set (all_pins demo_tt06). n \<noteq> muxName \<longrightarrow>
        attrs s1 n = Some (StandardPin n g) \<and>
        lines s1 g = (lines pins_tt06 g)\<lparr>line_mode :=
            (if n \<in> set (always_outputs demo_tt06) then OUT else IN),
          line_pull := default_pull demo_tt06 n\<rparr>"
    by blast
  have "(''in0'', 9) \<in> set (all_pins demo_tt06)" "(''cinc'', 3) \<in> set (all_pins demo_tt06)"
    by (simp_all add: demo_tt06_def)
  with b have "attrs s1 ''in0'' = Some (StandardPin ''in0'' 9) \<and> line_mode (lines s1 9) = IN \<and>
     line_mode (lines s1 3) = OUT"
    by (fastforce simp: muxName_def demo_tt06_def)
  with a show ?thesis by blast
qed

theorem first_step_not_all_inputs:
  "(''cena'', 4) \<in> set (all_pins demo_tt06) \<and>
   \<not> isl (begin_inputs_all demo_tt06 pins_tt06) \<and>
   line_mode (lines (projr (begin_inputs_all demo_tt06 pins_tt06)) 4) = OUT \<and>
   line_pull (lines (projr (begin_inputs_all demo_tt06 pins_tt06)) 4) = PULL_UP \<and>
   (''hk_csb'', 1) \<in> set (all_pins demo_tt04) \<and>
   \<not> isl (begin_inputs_all demo_tt04 pins_tt04) \<and>
   lines (projr (begin_inputs_all demo_tt04 pins_tt04)) 1 = lines pins_tt04 1 \<and>
   line_mode (lines pins_tt04 1) = OUT"
proof -
  from begin_inputs_all_std [OF wf_topologyD(1) [OF wf_demo_tt06], of pins_tt06]
  obtain s1 where s1: "begin_inputs_all demo_tt06 pins_tt06 = Inr s1" by blast
  have c: "(''cena'', 4) \<in> set (all_pins demo_tt06)" by (simp add: demo_tt06_def)
  have "''cena'' \<noteq> muxName" by (simp add: muxName_def)
  from begin_inputs_all_line [OF wf_topologyD(1) [OF wf_demo_tt06] s1 c this]
  have l: "line_mode (lines s1 4) = OUT \<and> line_pull (lines s1 4) = PULL_UP"
    by (simp add: ptype_def demo_tt06_def)
  from begin_inputs_all_std [OF wf_topologyD(1) [OF wf_demo_tt04], of pins_tt04]
  obtain t1 where t1: "begin_inputs_all demo_tt04 pins_tt04 = Inr t1" by blast
  have h: "(''hk_csb'', 1) \<in> set (all_pins demo_tt04)" by (simp add: demo_tt04_def)
  have "1 \<notin> declared_gpios demo_tt04"
    by (simp add: declared_gpios_def demo_tt04_def muxName_def image_iff)
  from begin_inputs_all_frame [OF t1 this] have f: "lines t1 1 = lines pins_tt04 1" .
  have "line_mode (lines pins_tt04 1) = OUT" by (simp add: pins_tt04_def)
  with c l h f show ?thesis by (simp add: s1 t1)
qed

text \<open>
  C4 (as amended). In every transition of a well-formed topology into one of the four modes
  the muxed pins are created after every other operation of the transition but the last:
  the trace is some events \<open>pre\<close> that create no muxed pin (the first step, the
  always-output forcing and the mode-specific direction pass), then the creation of the
  muxed pins, then the forcing of the clock pin. So the direction pass precedes the creation
  of the muxed pins.
\<close>

theorem direction_pass_precedes_mux_creation:
  assumes dm: "distinct_modes R" and im: "is_mode R m"
    and wf: "wf_topology G (Some m)" and mr: "mux_ready G s"
    and clk: "(''rp_projclk'', g) \<in> set (all_pins G)"
  shows "\<exists>s' pre. set_mode R G E m s = Inr s' \<and>
     trace s' = trace s @ pre @ mux_events G @ clk_events R m g \<and>
     \<not> list_ex is_MuxedPinNew pre"
proof -
  from transition_trace [OF dm im wf mr clk, of E] obtain s1 s' pre
    where a: "begin_inputs_all G (s\<lparr>mode_attr := Some m\<rparr>) = Inr s1"
      "set_mode R G E m s = Inr s'"
      "trace s' = trace s1 @ pre @ mux_events G @ clk_events R m g"
      "\<not> list_ex is_MuxedPinNew pre"
    by blast
  have "trace s1 = trace s @ init_events G"
    using begin_inputs_all_trace [OF a(1)] by simp
  with a(3) have t: "trace s' = trace s @ (init_events G @ pre) @ mux_events G @ clk_events R m g"
    by simp
  have n: "\<not> list_ex is_MuxedPinNew (init_events G @ pre)"
    using a(4) not_mux_init_events by simp
  show ?thesis
    by (intro exI conjI) (rule a(2), rule t, rule n)
qed

theorem direction_pass_precedes_mux_creation_witness:
  "\<exists>s' pre. set_mode demo_modes demo_tt04 env_low 3 pins_tt04 = Inr s' \<and>
     trace s' = pre @ [MuxedPinNew ''sdi_nprojectrst'', MuxedPinNew ''cena_out1'', PinMode 0 OUT]"
proof -
  have m: "is_mode demo_modes 3" by (simp add: is_mode_def)
  have c: "(''rp_projclk'', 0) \<in> set (all_pins demo_tt04)" by (simp add: demo_tt04_def)
  from direction_pass_precedes_mux_creation [OF demo_modes_simps(5) m wf_demo_tt04
      mux_ready_demo(3) c, of env_low]
  obtain s' pre where "set_mode demo_modes demo_tt04 env_low 3 pins_tt04 = Inr s'"
    "trace s' = trace pins_tt04 @ pre @ mux_events demo_tt04 @ clk_events demo_modes 3 0"
    by blast
  then have "set_mode demo_modes demo_tt04 env_low 3 pins_tt04 = Inr s' \<and>
     trace s' = pre @ [MuxedPinNew ''sdi_nprojectrst'', MuxedPinNew ''cena_out1'', PinMode 0 OUT]"
    by (simp add: pins_tt04_def mux_events_def clk_events_def demo_tt04_def)
  then show ?thesis by blast
qed

theorem asic_inputs_driven_before_mux_creation:
  "\<not> isl (set_mode demo_modes demo_tt04 env_low 1 pins_tt04) \<and>
   trace (projr (set_mode demo_modes demo_tt04 env_low 1 pins_tt04)) =
     [PinInit 0 IN (Some PULL_NONE), PinInit 3 IN (Some PULL_NONE),
      PinInit 5 IN (Some PULL_NONE), PinInit 6 IN (Some PULL_NONE),
      PinInit 9 IN (Some PULL_NONE), PinInit 10 IN (Some PULL_NONE),
      PinRead 9 False, PinMode 9 OUT, PinRead 10 False, PinMode 10 OUT,
      MuxedPinNew ''sdi_nprojectrst'', MuxedPinNew ''cena_out1'', PinMode 0 OUT]"
proof -
  let ?G = demo_tt04
  let ?s0 = "pins_tt04\<lparr>mode_attr := Some (ASIC_RP_CONTROL demo_modes)\<rparr>"
  have wf0: "wf_topology ?G (mode_attr ?s0)" by (rule wf_demo_tt04)
  have mr0: "mux_ready ?G ?s0" by (simp add: mux_ready_def pins_tt04_def)
  have clk: "(''rp_projclk'', 0) \<in> set (all_pins ?G)" by (simp add: demo_tt04_def)
  obtain s1 s2 unc s3 s4
    where b: "begin_inputs_all ?G ?s0 = Inr s1" "std_pins ?G s1"
      "begin_alwaysOut ?G s1 = Inr s2" "std_pins ?G s2" "cfg_step ?G s1 s2"
      "for_each (begin_asiconboard_body env_low) (map fst (all_pins ?G)) ([], s2) = Inr (unc, s3)"
      "std_pins ?G s3" "cfg_step ?G s2 s3"
      "begin_muxPins ?G (errlog unc s3) = Inr s4" "mux_step ?G (errlog unc s3) s4"
      "begin_asiconboard ?G env_low ?s0 = Inr (line_set_mode 0 OUT s4)"
    by (rule begin_asiconboard_steps [OF wf0 mr0 clk])
  have wn: "wf_names ?G" by (rule wf_topologyD(1) [OF wf_demo_tt04])
  have t1: "trace s1 = [PinInit 0 IN (Some PULL_NONE), PinInit 3 IN (Some PULL_NONE),
      PinInit 5 IN (Some PULL_NONE), PinInit 6 IN (Some PULL_NONE),
      PinInit 9 IN (Some PULL_NONE), PinInit 10 IN (Some PULL_NONE)]"
    using begin_inputs_all_trace [OF b(1)]
    by (simp add: init_events_def demo_tt04_def pins_tt04_def muxName_def ptype_def)
  have s2: "s2 = s1" using b(3) by (simp add: begin_alwaysOut_def demo_tt04_def)
  have in0: "(''in0'', 9) \<in> set (all_pins ?G)" and in1: "(''in1'', 10) \<in> set (all_pins ?G)"
    by (simp_all add: demo_tt04_def)
  have nm: "''in0'' \<noteq> muxName" "''in1'' \<noteq> muxName" by (simp_all add: muxName_def)
  have d: "dieOnInputControlSwitchHigh s1"
    using begin_inputs_all_kept(2) [OF b(1)] by (simp add: pins_tt04_def)
  have l9: "line_mode (lines s1 9) = IN"
    using begin_inputs_all_line [OF wn b(1) in0 nm(1)] by (simp add: ptype_def demo_tt04_def)
  have l10: "line_mode (lines s1 10) = IN"
    using begin_inputs_all_line [OF wn b(1) in1 nm(2)] by (simp add: ptype_def demo_tt04_def)
  define u where "u = line_set_mode 9 OUT (snd (raw_read env_low 9 s1))"
  define v where "v = line_set_mode 10 OUT (snd (raw_read env_low 10 u))"
  have sw: "startswith ''in0'' ''in''" "startswith ''in1'' ''in''"
    by (simp_all add: startswith_def)
  have e0: "begin_asiconboard_body env_low ''in0'' ([], s1) = Inr ([], u)"
    unfolding asic_body_std [OF b(2) in0 sw(1)] using d l9
    by (simp add: level_env_low_IN u_def)
  have su: "std_pins ?G u"
    unfolding u_def using b(2) by (simp add: std_pins_def)
  have du: "dieOnInputControlSwitchHigh u" using d by (simp add: u_def)
  have lu: "line_mode (lines u 10) = IN" using l10 by (simp add: u_def)
  have e1: "begin_asiconboard_body env_low ''in1'' ([], u) = Inr ([], v)"
    unfolding asic_body_std [OF su in1 sw(2)] using du lu
    by (simp add: level_env_low_IN v_def)
  have sk: "\<not> startswith ''rp_projclk'' ''in''" "\<not> startswith ''hk_csb'' ''in''"
    "\<not> startswith ''sdi_nprojectrst'' ''in''" "\<not> startswith ''out0'' ''in''"
    "\<not> startswith ''cena_out1'' ''in''"
    by (simp_all add: startswith_def)
  have names: "map fst (all_pins ?G) = [''rp_projclk'', ''hk_csb'', ''sdi_nprojectrst'',
      ''out0'', ''cena_out1'', ''in0'', ''in1'']"
    by (simp add: demo_tt04_def)
  have "for_each (begin_asiconboard_body env_low) (map fst (all_pins ?G)) ([], s1) = Inr ([], v)"
    unfolding names by (simp add: asic_body_skip sk e0 e1)
  with b(6) s2 have r: "unc = []" "s3 = v" by simp_all
  have t3: "trace s3 = trace s1 @ [PinRead 9 False, PinMode 9 OUT, PinRead 10 False, PinMode 10 OUT]"
    using l9 lu by (simp add: r v_def u_def level_env_low_IN)
  have "trace s4 = trace s3 @ [MuxedPinNew ''sdi_nprojectrst'', MuxedPinNew ''cena_out1'']"
    using mux_step_kept(4) [OF b(10)] by (simp add: r errlog_def mux_events_def demo_tt04_def)
  with t1 t3 have "trace (line_set_mode 0 OUT s4) =
     [PinInit 0 IN (Some PULL_NONE), PinInit 3 IN (Some PULL_NONE),
      PinInit 5 IN (Some PULL_NONE), PinInit 6 IN (Some PULL_NONE),
      PinInit 9 IN (Some PULL_NONE), PinInit 10 IN (Some PULL_NONE),
      PinRead 9 False, PinMode 9 OUT, PinRead 10 False, PinMode 10 OUT,
      MuxedPinNew ''sdi_nprojectrst'', MuxedPinNew ''cena_out1'', PinMode 0 OUT]"
    by simp
  moreover have "set_mode demo_modes demo_tt04 env_low 1 pins_tt04 = Inr (line_set_mode 0 OUT s4)"
    using b(11) set_mode_modes(1) [OF demo_modes_simps(5), of ?G env_low pins_tt04] by simp
  ultimately show ?thesis by simp
qed

section \<open>Sticky selection of a muxed pin\<close>

lemma select_pin_parked:
  assumes "muxCtrl s = Some mc" and "selected mc = SelIndex (info_select info)"
  shows "select_pin g info s = Inr (line_set_mode g (info_dir info) s)"
  using assms by (simp add: select_pin_def)

lemma select_pin_switch:
  assumes "muxCtrl s = Some mc" and "selected mc \<noteq> SelIndex (info_select info)"
  shows "select_pin g info s =
     Inr (line_set_mode g (info_dir info)
           ((raw_write (pin_gpio (ctrlpin mc)) (info_select info \<noteq> 0) s)
              \<lparr>muxCtrl := Some (mc\<lparr>selected := SelIndex (info_select info)\<rparr>)\<rparr>))"
  using assms by (simp add: select_pin_def select_def)

lemma pin_read_MuxedSub:
  "pin_read E (MuxedSub pn g info) s =
     bind (select_pin g info s) (\<lambda>s1. Inr (level E (lines s1) g, snd (raw_read E g s1)))"
  by (simp add: pin_read_def raw_read_def Let_def)

lemma muxed_read_parked:
  assumes "muxCtrl s = Some mc" and "selected mc = SelIndex (info_select info)"
  shows "\<exists>v s1. pin_read E (MuxedSub pn g info) s = Inr (v, s1) \<and> muxCtrl s1 = muxCtrl s \<and>
     (\<forall>h. line_out (lines s1 h) = line_out (lines s h)) \<and>
     trace s1 = trace s @ [PinMode g (info_dir info), PinRead g v]"
  by (simp add: pin_read_MuxedSub select_pin_parked [OF assms])

lemma muxed_read_switch:
  assumes "muxCtrl s = Some mc" and "selected mc \<noteq> SelIndex (info_select info)"
  shows "\<exists>v s1. pin_read E (MuxedSub pn g info) s = Inr (v, s1) \<and>
     muxCtrl s1 = Some (mc\<lparr>selected := SelIndex (info_select info)\<rparr>) \<and>
     trace s1 = trace s @ [PinWrite (pin_gpio (ctrlpin mc)) (info_select info \<noteq> 0),
                           PinMode g (info_dir info), PinRead g v]"
  by (simp add: pin_read_MuxedSub select_pin_switch [OF assms])

text \<open>
  C5. Two reads in a row of the same half of a muxed pin, on a pin set that has its mux
  controller: both return; after the first the controller is parked at the half's index;
  the second leaves the controller and every output latch (the selector's among them) as
  they are and writes nothing to the selector line; over both reads the selector line is
  written at most once.
\<close>

theorem muxed_read_sticky:
  assumes mc: "muxCtrl s = Some mc"
  shows "\<exists>v1 s1 v2 s2 mc1.
     pin_read E (MuxedSub pn g info) s = Inr (v1, s1) \<and>
     pin_read E (MuxedSub pn g info) s1 = Inr (v2, s2) \<and>
     muxCtrl s1 = Some mc1 \<and> selected mc1 = SelIndex (info_select info) \<and>
     muxCtrl s2 = muxCtrl s1 \<and>
     (\<forall>h. line_out (lines s2 h) = line_out (lines s1 h)) \<and>
     filter (is_write_on (pin_gpio (ctrlpin mc))) (drop (length (trace s1)) (trace s2)) = [] \<and>
     length (filter (is_write_on (pin_gpio (ctrlpin mc))) (drop (length (trace s)) (trace s2)))
       \<le> 1"
proof -
  have first: "\<exists>v1 s1 mc1. pin_read E (MuxedSub pn g info) s = Inr (v1, s1) \<and>
      muxCtrl s1 = Some mc1 \<and> selected mc1 = SelIndex (info_select info) \<and>
      (\<exists>evs. trace s1 = trace s @ evs \<and>
         length (filter (is_write_on (pin_gpio (ctrlpin mc))) evs) \<le> 1)"
  proof (cases "selected mc = SelIndex (info_select info)")
    case True
    from muxed_read_parked [OF mc True, of E pn g] mc True show ?thesis by auto
  next
    case False
    from muxed_read_switch [OF mc False, of E pn g] show ?thesis by auto
  qed
  then obtain v1 s1 mc1 evs where a: "pin_read E (MuxedSub pn g info) s = Inr (v1, s1)"
    "muxCtrl s1 = Some mc1" "selected mc1 = SelIndex (info_select info)"
    "trace s1 = trace s @ evs" "length (filter (is_write_on (pin_gpio (ctrlpin mc))) evs) \<le> 1"
    by blast
  from muxed_read_parked [OF a(2,3), of E pn g] obtain v2 s2
    where b: "pin_read E (MuxedSub pn g info) s1 = Inr (v2, s2)" "muxCtrl s2 = muxCtrl s1"
      "\<forall>h. line_out (lines s2 h) = line_out (lines s1 h)"
      "trace s2 = trace s1 @ [PinMode g (info_dir info), PinRead g v2]"
    by blast
  have c: "filter (is_write_on (pin_gpio (ctrlpin mc))) (drop (length (trace s1)) (trace s2)) = []"
    by (simp add: b(4))
  have d: "length (filter (is_write_on (pin_gpio (ctrlpin mc)))
      (drop (length (trace s)) (trace s2))) \<le> 1"
    using a(5) by (simp add: b(4) a(4))
  show ?thesis
    by (intro exI conjI) (rule a(1), rule b(1), rule a(2), rule a(3), rule b(2), rule b(3),
      rule c, rule d)
qed

theorem muxed_read_sticky_witness:
  "muxCtrl pins_tt04 \<noteq> None \<and>
   (\<exists>v1 s1 v2 s2. pin_read env_low (MuxedSub ''cena_out1'' 6 (MuxedPinInfo ''cena'' 0 OUT))
        pins_tt04 = Inr (v1, s1) \<and>
      pin_read env_low (MuxedSub ''cena_out1'' 6 (MuxedPinInfo ''cena'' 0 OUT)) s1 = Inr (v2, s2) \<and>
      muxCtrl s2 = muxCtrl s1 \<and>
      filter (is_write_on 1) (drop (length (trace s1)) (trace s2)) = [])"
proof -
  have m: "muxCtrl pins_tt04 = Some \<lparr>ctrlpin = StandardPin ''hk_csb'' 1, selected = SelIndex 1,
      muxedPins = []\<rparr>"
    by (simp add: pins_tt04_def)
  from muxed_read_sticky [OF m, of env_low "''cena_out1''" 6 "MuxedPinInfo ''cena'' 0 OUT"]
  obtain v1 s1 v2 s2 where
    "pin_read env_low (MuxedSub ''cena_out1'' 6 (MuxedPinInfo ''cena'' 0 OUT)) pins_tt04 = Inr (v1, s1)"
    "pin_read env_low (MuxedSub ''cena_out1'' 6 (MuxedPinInfo ''cena'' 0 OUT)) s1 = Inr (v2, s2)"
    "muxCtrl s2 = muxCtrl s1"
    "filter (is_write_on 1) (drop (length (trace s1)) (trace s2)) = []"
    by auto
  with m show ?thesis by auto
qed

section \<open>The contention guard of ASIC_RP_CONTROL\<close>

lemma begin_alwaysOut_events:
  assumes sp: "std_pins G s" and sub: "set (always_outputs G) \<subseteq> declared G"
    and run: "begin_alwaysOut G s = Inr s'"
  shows "\<exists>evs. trace s' = trace s @ evs \<and> (\<forall>e \<in> set evs. \<exists>h. e = PinMode h OUT)"
proof -
  let ?P = "\<lambda>t. std_pins G t \<and>
    (\<exists>evs. trace t = trace s @ evs \<and> (\<forall>e \<in> set evs. \<exists>h. e = PinMode h OUT))"
  have "?P s'"
  proof (rule for_each_preserves [OF run [unfolded begin_alwaysOut_def], of ?P])
    show "?P s" using sp by simp
  next
    fix n t t'
    assume n: "n \<in> set (always_outputs G)" and t: "?P t"
      and b: "bind (getattr t n) (\<lambda>p. set_pin_mode p OUT t) = Inr t'"
    from n sub obtain g where g: "(n, g) \<in> set (all_pins G)" "n \<noteq> muxName"
      using declaredD by blast
    from t have "pins_present G t" by (simp add: std_pins_present)
    from set_mode_present [OF this g, of OUT] b have t': "t' = line_set_mode g OUT t" by simp
    from t obtain evs where evs: "trace t = trace s @ evs" "\<forall>e \<in> set evs. \<exists>h. e = PinMode h OUT"
      by blast
    have "trace t' = trace s @ (evs @ [PinMode g OUT])" by (simp add: t' evs(1))
    moreover have "\<forall>e \<in> set (evs @ [PinMode g OUT]). \<exists>h. e = PinMode h OUT"
      using evs(2) by auto
    ultimately have "\<exists>evs. trace t' = trace s @ evs \<and> (\<forall>e \<in> set evs. \<exists>h. e = PinMode h OUT)"
      by blast
    moreover have "std_pins G t'"
      using t t' std_pins_cfg_step [OF cfg_step_set_mode [OF declared_gpio [OF g]]] by simp
    ultimately show "?P t'" by simp
  qed
  then show ?thesis by simp
qed

lemma begin_alwaysOut_keeps_OUT:
  assumes sp: "std_pins G s" and sub: "set (always_outputs G) \<subseteq> declared G"
    and run: "begin_alwaysOut G s = Inr s'" and out: "line_mode (lines s g) = OUT"
  shows "line_mode (lines s' g) = OUT"
proof -
  let ?P = "\<lambda>t. std_pins G t \<and> line_mode (lines t g) = OUT"
  have "?P s'"
  proof (rule for_each_preserves [OF run [unfolded begin_alwaysOut_def], of ?P])
    show "?P s" using sp out by simp
  next
    fix n t t'
    assume n: "n \<in> set (always_outputs G)" and t: "?P t"
      and b: "bind (getattr t n) (\<lambda>p. set_pin_mode p OUT t) = Inr t'"
    from n sub obtain h where h: "(n, h) \<in> set (all_pins G)" "n \<noteq> muxName"
      using declaredD by blast
    from t have "pins_present G t" by (simp add: std_pins_present)
    from set_mode_present [OF this h, of OUT] b have t': "t' = line_set_mode h OUT t" by simp
    have "std_pins G t'"
      using t t' std_pins_cfg_step [OF cfg_step_set_mode [OF declared_gpio [OF h]]] by simp
    moreover have "line_mode (lines t' g) = OUT" using t by (simp add: t')
    ultimately show "?P t'" by simp
  qed
  then show ?thesis by simp
qed

lemma asic_body_result:
  assumes "std_pins G t" and "m \<in> fst ` set (all_pins G)"
  obtains unc' t' where "begin_asiconboard_body E m (unc, t) = Inr (unc', t')"
    and "std_pins G t'" and "cfg_step G t t'"
proof -
  from asic_body_cfg_step [OF assms, of E unc] obtain unc' t'
    where a: "begin_asiconboard_body E m (unc, t) = Inr (unc', t')" "cfg_step G t t'" by blast
  from a(2) assms(1) have "std_pins G t'" by (rule std_pins_cfg_step)
  with a that show ?thesis by blast
qed

lemma asic_body_other:
  assumes sp: "std_pins G t" and m: "m \<in> fst ` set (all_pins G)"
    and run: "begin_asiconboard_body E m (unc, t) = Inr (unc', t')"
    and other: "startswith m ''in'' \<Longrightarrow> (m, g) \<notin> set (all_pins G)"
  shows "lines t' g = lines t g \<and>
     (\<exists>evs. trace t' = trace t @ evs \<and> (\<forall>v. PinRead g v \<notin> set evs))"
proof (cases "startswith m ''in''")
  case False
  with run have "t' = t" by (simp add: asic_body_skip)
  then show ?thesis by simp
next
  case True
  from m obtain h where h: "(m, h) \<in> set (all_pins G)" by auto
  with other True have ne: "h \<noteq> g" by blast
  note e = run [unfolded asic_body_std [OF sp h True]]
  show ?thesis
  proof (cases "dieOnInputControlSwitchHigh t")
    case False
    with e have "t' = line_set_mode h OUT t" by simp
    with ne show ?thesis by simp
  next
    case die: True
    show ?thesis
    proof (cases "level E (lines t) h")
      case True
      with e die have "t' = log_warn (contention_warning m) (snd (raw_read E h t))" by simp
      with ne show ?thesis by simp
    next
      case False
      with e die have "t' = line_set_mode h OUT (snd (raw_read E h t))" by simp
      with ne show ?thesis by simp
    qed
  qed
qed

lemma asic_pass_other:
  assumes sp: "std_pins G s" and sub: "set ns \<subseteq> fst ` set (all_pins G)"
    and run: "for_each (begin_asiconboard_body E) ns (unc, s) = Inr (unc', s')"
    and other: "\<forall>m \<in> set ns. startswith m ''in'' \<longrightarrow> (m, g) \<notin> set (all_pins G)"
  shows "lines s' g = lines s g \<and>
     (\<exists>evs. trace s' = trace s @ evs \<and> (\<forall>v. PinRead g v \<notin> set evs))"
proof -
  let ?P = "\<lambda>r :: string list \<times> pins. std_pins G (snd r) \<and> lines (snd r) g = lines s g \<and>
     (\<exists>evs. trace (snd r) = trace s @ evs \<and> (\<forall>v. PinRead g v \<notin> set evs))"
  have "?P (unc', s')"
  proof (rule for_each_preserves [OF run, of ?P])
    show "?P (unc, s)" using sp by simp
  next
    fix m and r r' :: "string list \<times> pins"
    assume m: "m \<in> set ns" and r: "?P r" and b: "begin_asiconboard_body E m r = Inr r'"
    obtain u t where ut: "r = (u, t)" by (cases r)
    obtain u' t' where ut': "r' = (u', t')" by (cases r')
    from r ut have sp: "std_pins G t" and l: "lines t g = lines s g" by simp_all
    from r ut obtain e1 where e1: "trace t = trace s @ e1" "\<forall>v. PinRead g v \<notin> set e1"
      by auto
    from m sub have mm: "m \<in> fst ` set (all_pins G)" by blast
    from b ut ut' have b': "begin_asiconboard_body E m (u, t) = Inr (u', t')" by simp
    from asic_body_result [OF sp mm, of E u] b' have sp': "std_pins G t'"
      by (metis Pair_inject sum.inject(2))
    from m other have "startswith m ''in'' \<Longrightarrow> (m, g) \<notin> set (all_pins G)" by blast
    from asic_body_other [OF sp mm b' this] obtain e2
      where e2: "lines t' g = lines t g" "trace t' = trace t @ e2" "\<forall>v. PinRead g v \<notin> set e2"
      by blast
    have "trace t' = trace s @ (e1 @ e2)" by (simp add: e2(2) e1(1))
    moreover have "\<forall>v. PinRead g v \<notin> set (e1 @ e2)" using e1(2) e2(3) by simp
    ultimately have "\<exists>evs. trace t' = trace s @ evs \<and> (\<forall>v. PinRead g v \<notin> set evs)"
      by blast
    with sp' e2(1) l show "?P r'" by (simp add: ut')
  qed
  then show ?thesis by simp
qed

lemma gpio_names_unique:
  "wf_names G \<Longrightarrow> (a, g) \<in> set (all_pins G) \<Longrightarrow> (b, g) \<in> set (all_pins G) \<Longrightarrow> a = b"
  using distinct_snd_unique by (fastforce simp: wf_names_def)

lemma asic_pass_pin:
  assumes wn: "wf_names G" and ng: "(n, g) \<in> set (all_pins G)" and sw: "startswith n ''in''"
  shows "std_pins G s \<Longrightarrow> dieOnInputControlSwitchHigh s \<Longrightarrow> distinct ns \<Longrightarrow>
     set ns \<subseteq> fst ` set (all_pins G) \<Longrightarrow> n \<in> set ns \<Longrightarrow>
     for_each (begin_asiconboard_body E) ns (unc, s) = Inr (unc', s') \<Longrightarrow>
     \<exists>evs. trace s' = trace s @ evs \<and>
       (if PinRead g True \<in> set evs
        then lines s' g = lines s g \<and> LogWarn (contention_warning n) \<in> set evs
        else line_mode (lines s' g) = OUT \<and> PinRead g False \<in> set evs)"
proof (induction ns arbitrary: s unc)
  case Nil
  then show ?case by simp
next
  case (Cons m ns)
  from Cons.prems(4) have mm: "m \<in> fst ` set (all_pins G)" and sub: "set ns \<subseteq> fst ` set (all_pins G)"
    by simp_all
  obtain unc1 s1 where b: "begin_asiconboard_body E m (unc, s) = Inr (unc1, s1)"
    and sp1: "std_pins G s1" and c1: "cfg_step G s s1"
    by (rule asic_body_result [OF Cons.prems(1) mm])
  from Cons.prems(6) b have rest: "for_each (begin_asiconboard_body E) ns (unc1, s1) = Inr (unc', s')"
    by simp
  from c1 Cons.prems(2) have d1: "dieOnInputControlSwitchHigh s1" by (simp add: cfg_step_def)
  show ?case
  proof (cases "m = n")
    case True
    with Cons.prems(3) have nn: "n \<notin> set ns" by simp
    have "\<forall>k \<in> set ns. startswith k ''in'' \<longrightarrow> (k, g) \<notin> set (all_pins G)"
      using nn gpio_names_unique [OF wn _ ng] by blast
    from asic_pass_other [OF sp1 sub rest this] obtain e2
      where e2: "lines s' g = lines s1 g" "trace s' = trace s1 @ e2" "\<forall>v. PinRead g v \<notin> set e2"
      by blast
    note e = b [unfolded True asic_body_std [OF Cons.prems(1) ng sw]]
    show ?thesis
    proof (cases "level E (lines s) g")
      case hi: True
      with e Cons.prems(2)
      have s1: "s1 = log_warn (contention_warning n) (snd (raw_read E g s))" by simp
      let ?evs = "[PinRead g True, LogWarn (contention_warning n)] @ e2"
      have t: "trace s' = trace s @ ?evs" using hi by (simp add: e2(2) s1)
      have l: "lines s' g = lines s g" by (simp add: e2(1) s1)
      have "PinRead g True \<in> set ?evs" "LogWarn (contention_warning n) \<in> set ?evs" by simp_all
      with l have "if PinRead g True \<in> set ?evs
        then lines s' g = lines s g \<and> LogWarn (contention_warning n) \<in> set ?evs
        else line_mode (lines s' g) = OUT \<and> PinRead g False \<in> set ?evs" by simp
      with t show ?thesis by blast
    next
      case lo: False
      with e Cons.prems(2)
      have s1: "s1 = line_set_mode g OUT (snd (raw_read E g s))" by simp
      let ?evs = "[PinRead g False, PinMode g OUT] @ e2"
      have t: "trace s' = trace s @ ?evs" using lo by (simp add: e2(2) s1)
      have l: "line_mode (lines s' g) = OUT" by (simp add: e2(1) s1)
      have "PinRead g True \<notin> set ?evs" "PinRead g False \<in> set ?evs" using e2(3) by simp_all
      with l have "if PinRead g True \<in> set ?evs
        then lines s' g = lines s g \<and> LogWarn (contention_warning n) \<in> set ?evs
        else line_mode (lines s' g) = OUT \<and> PinRead g False \<in> set ?evs" by simp
      with t show ?thesis by blast
    qed
  next
    case False
    with Cons.prems(5) have n_in: "n \<in> set ns" by simp
    from Cons.prems(3) have dn: "distinct ns" by simp
    have "startswith m ''in'' \<Longrightarrow> (m, g) \<notin> set (all_pins G)"
      using False gpio_names_unique [OF wn _ ng] by blast
    from asic_body_other [OF Cons.prems(1) mm b this] obtain e1
      where e1: "lines s1 g = lines s g" "trace s1 = trace s @ e1" "\<forall>v. PinRead g v \<notin> set e1"
      by blast
    from Cons.IH [OF sp1 d1 dn sub n_in rest] obtain e2
      where e2: "trace s' = trace s1 @ e2"
        "if PinRead g True \<in> set e2
         then lines s' g = lines s1 g \<and> LogWarn (contention_warning n) \<in> set e2
         else line_mode (lines s' g) = OUT \<and> PinRead g False \<in> set e2"
      by blast
    have t: "trace s' = trace s @ (e1 @ e2)" by (simp add: e2(1) e1(2))
    have iff: "PinRead g True \<in> set (e1 @ e2) \<longleftrightarrow> PinRead g True \<in> set e2"
      using e1(3) by simp
    have "if PinRead g True \<in> set (e1 @ e2)
        then lines s' g = lines s g \<and> LogWarn (contention_warning n) \<in> set (e1 @ e2)
        else line_mode (lines s' g) = OUT \<and> PinRead g False \<in> set (e1 @ e2)"
      unfolding iff using e2(2) e1(1) by (cases "PinRead g True \<in> set e2") simp_all
    with t show ?thesis by blast
  qed
qed

lemma PinRead_notin_init_events [simp]: "PinRead g v \<notin> set (init_events G)"
  by (auto simp: init_events_def)

lemma LogWarn_notin_init_events [simp]: "LogWarn w \<notin> set (init_events G)"
  by (auto simp: init_events_def)

lemma PinRead_notin_mux_events [simp]: "PinRead g v \<notin> set (mux_events G)"
  by (auto simp: mux_events_def)

lemma trace_errlog:
  "trace (errlog unc s) = trace s @ (if length unc \<noteq> 0 then [LogError (contention_error unc)] else [])"
  by (simp add: errlog_def)

lemma lines_errlog [simp]: "lines (errlog unc s) = lines s"
  by (simp add: errlog_def)

lemma startswith_in_not_clk: "startswith n ''in'' \<Longrightarrow> n \<noteq> ''rp_projclk''"
  by (auto simp: startswith_def)

text \<open>
  C2 (as amended). While \<^verbatim>\<open>dieOnInputControlSwitchHigh\<close> is set, every transition into
  \<^verbatim>\<open>ASIC_RP_CONTROL\<close> on a well-formed topology completes, and for every pin whose name
  starts with \<^verbatim>\<open>in\<close>: if the transition sampled it high (the event \<open>PinRead g True\<close>
  is among the new events of the trace), its line keeps the direction the first step gave
  it (input, unless the pin is an always-output pin) and the warning that names it is
  logged; otherwise it was sampled low and its line is an output.
\<close>

theorem contention_guard:
  assumes dm: "distinct_modes R" and wf: "wf_topology G (Some (ASIC_RP_CONTROL R))"
    and mr: "mux_ready G s" and die: "dieOnInputControlSwitchHigh s"
    and ng: "(n, g) \<in> set (all_pins G)" and sw: "startswith n ''in''"
  shows "\<exists>s' new. set_mode R G E (ASIC_RP_CONTROL R) s = Inr s' \<and> trace s' = trace s @ new \<and>
     (if PinRead g True \<in> set new
      then line_mode (lines s' g) = (if n \<in> set (always_outputs G) then OUT else IN) \<and>
           LogWarn (contention_warning n) \<in> set new
      else line_mode (lines s' g) = OUT \<and> PinRead g False \<in> set new)"
proof -
  let ?s0 = "s\<lparr>mode_attr := Some (ASIC_RP_CONTROL R)\<rparr>"
  have wf0: "wf_topology G (mode_attr ?s0)" using wf by simp
  have mr0: "mux_ready G ?s0" using mr by (simp add: mux_ready_def)
  note wn = wf_topologyD(1) [OF wf]
  note sub = wf_topologyD(2) [OF wf]
  from wf_topologyD(3) [OF wf] obtain c where clk: "(''rp_projclk'', c) \<in> set (all_pins G)"
    by blast
  obtain s1 s2 unc s3 s4
    where b: "begin_inputs_all G ?s0 = Inr s1" "std_pins G s1"
      "begin_alwaysOut G s1 = Inr s2" "std_pins G s2" "cfg_step G s1 s2"
      "for_each (begin_asiconboard_body E) (map fst (all_pins G)) ([], s2) = Inr (unc, s3)"
      "std_pins G s3" "cfg_step G s2 s3"
      "begin_muxPins G (errlog unc s3) = Inr s4" "mux_step G (errlog unc s3) s4"
      "begin_asiconboard G E ?s0 = Inr (line_set_mode c OUT s4)"
    by (rule begin_asiconboard_steps [OF wf0 mr0 clk])
  have nm: "n \<noteq> muxName" using sw by (rule startswith_in_not_mux)
  have "lines s1 g = (lines ?s0 g)\<lparr>line_mode := ptype G n, line_pull := default_pull G n\<rparr>"
    using wn b(1) ng nm by (rule begin_inputs_all_line)
  then have l1: "line_mode (lines s1 g) = ptype G n" by simp
  have l2: "line_mode (lines s2 g) = ptype G n"
  proof (cases "n \<in> set (always_outputs G)")
    case True
    with l1 have "line_mode (lines s1 g) = OUT" by (simp add: ptype_def)
    with b(2) sub b(3) have "line_mode (lines s2 g) = OUT" by (rule begin_alwaysOut_keeps_OUT)
    with True show ?thesis by (simp add: ptype_def)
  next
    case False
    have "\<forall>k \<in> set (always_outputs G). (k, g) \<notin> set (all_pins G)"
      using False gpio_names_unique [OF wn _ ng] by blast
    with b(2) sub b(3) have "lines s2 g = lines s1 g" by (rule begin_alwaysOut_frame)
    with l1 show ?thesis by simp
  qed
  have d2: "dieOnInputControlSwitchHigh s2"
    using die begin_inputs_all_kept(2) [OF b(1)] cfg_step_kept(2) [OF b(5)] by simp
  from wn have dn: "distinct (map fst (all_pins G))" by (simp add: wf_names_def)
  have ss: "set (map fst (all_pins G)) \<subseteq> fst ` set (all_pins G)" by simp
  from ng have nin: "n \<in> set (map fst (all_pins G))" by force
  from asic_pass_pin [OF wn ng sw b(4) d2 dn ss nin b(6)] obtain e3
    where e3: "trace s3 = trace s2 @ e3"
      "if PinRead g True \<in> set e3
       then lines s3 g = lines s2 g \<and> LogWarn (contention_warning n) \<in> set e3
       else line_mode (lines s3 g) = OUT \<and> PinRead g False \<in> set e3"
    by blast
  from begin_alwaysOut_events [OF b(2) sub b(3)] obtain e2
    where e2: "trace s2 = trace s1 @ e2" "\<forall>e \<in> set e2. \<exists>h. e = PinMode h OUT" by blast
  have t1: "trace s1 = trace s @ init_events G"
    using begin_inputs_all_trace [OF b(1)] by simp
  define ee where "ee = (if length unc \<noteq> 0 then [LogError (contention_error unc)] else [])"
  define new where "new = init_events G @ e2 @ e3 @ ee @ mux_events G @ [PinMode c OUT]"
  have t: "trace (line_set_mode c OUT s4) = trace s @ new"
    using mux_step_kept(4) [OF b(10)] t1 e2(1) e3(1)
    by (simp add: trace_errlog new_def ee_def)
  have "g \<noteq> c"
    using gpio_names_unique [OF wn ng] clk startswith_in_not_clk [OF sw] by blast
  then have l: "lines (line_set_mode c OUT s4) g = lines s3 g"
    using mux_step_kept(1) [OF b(10)] by simp
  have r2: "PinRead g v \<notin> set e2" for v using e2(2) by auto
  have ree: "PinRead g v \<notin> set ee" for v by (simp add: ee_def)
  have iff: "PinRead g v \<in> set new \<longleftrightarrow> PinRead g v \<in> set e3" for v
    using r2 ree by (simp add: new_def)
  have w: "LogWarn (contention_warning n) \<in> set e3 \<Longrightarrow> LogWarn (contention_warning n) \<in> set new"
    by (simp add: new_def)
  have cond: "if PinRead g True \<in> set new
      then line_mode (lines (line_set_mode c OUT s4) g) =
             (if n \<in> set (always_outputs G) then OUT else IN) \<and>
           LogWarn (contention_warning n) \<in> set new
      else line_mode (lines (line_set_mode c OUT s4) g) = OUT \<and> PinRead g False \<in> set new"
  proof (cases "PinRead g True \<in> set e3")
    case True
    with e3(2) have "lines s3 g = lines s2 g" "LogWarn (contention_warning n) \<in> set e3"
      by simp_all
    with l l2 w True show ?thesis by (simp add: iff ptype_def)
  next
    case False
    with e3(2) have "line_mode (lines s3 g) = OUT" "PinRead g False \<in> set e3" by simp_all
    with l False show ?thesis by (simp add: iff)
  qed
  have r: "set_mode R G E (ASIC_RP_CONTROL R) s = Inr (line_set_mode c OUT s4)"
    using b(11) by (simp add: set_mode_modes(1) [OF dm])
  show ?thesis
    by (intro exI conjI) (rule r, rule t, rule cond)
qed

theorem contention_guard_witness:
  "dieOnInputControlSwitchHigh pins_tt04 \<and> (''in0'', 9) \<in> set (all_pins demo_tt04) \<and>
   startswith ''in0'' ''in'' \<and>
   (\<exists>s' new. set_mode demo_modes demo_tt04 env_high (ASIC_RP_CONTROL demo_modes) pins_tt04 = Inr s' \<and>
      trace s' = trace pins_tt04 @ new \<and>
     (if PinRead 9 True \<in> set new
      then line_mode (lines s' 9) = (if ''in0'' \<in> set (always_outputs demo_tt04) then OUT else IN) \<and>
           LogWarn (contention_warning ''in0'') \<in> set new
      else line_mode (lines s' 9) = OUT \<and> PinRead 9 False \<in> set new))"
proof -
  have d: "dieOnInputControlSwitchHigh pins_tt04" by (simp add: pins_tt04_def)
  have i: "(''in0'', 9) \<in> set (all_pins demo_tt04)" by (simp add: demo_tt04_def)
  have s: "startswith ''in0'' ''in''" by (simp add: startswith_def)
  have w: "wf_topology demo_tt04 (Some (ASIC_RP_CONTROL demo_modes))" by (rule wf_demo_tt04)
  show ?thesis
    by (intro conjI) (rule d, rule i, rule s,
      rule contention_guard [OF demo_modes_simps(5) w mux_ready_demo(3) d i s])
qed

theorem contention_guard_is_gated:
  "\<not> dieOnInputControlSwitchHigh (pins_tt06\<lparr>dieOnInputControlSwitchHigh := False\<rparr>) \<and>
   (''in0'', 9) \<in> set (all_pins demo_tt06) \<and>
   env_high (lines (pins_tt06\<lparr>dieOnInputControlSwitchHigh := False\<rparr>)) 9 \<and>
   \<not> isl (set_mode demo_modes demo_tt06 env_high 1
           (pins_tt06\<lparr>dieOnInputControlSwitchHigh := False\<rparr>)) \<and>
   line_mode (lines (projr (set_mode demo_modes demo_tt06 env_high 1
           (pins_tt06\<lparr>dieOnInputControlSwitchHigh := False\<rparr>))) 9) = OUT"
proof -
  let ?G = demo_tt06
  let ?p = "pins_tt06\<lparr>dieOnInputControlSwitchHigh := False\<rparr>"
  let ?s0 = "?p\<lparr>mode_attr := Some (ASIC_RP_CONTROL demo_modes)\<rparr>"
  have wf0: "wf_topology ?G (mode_attr ?s0)" by (rule wf_demo_tt06)
  have mr0: "mux_ready ?G ?s0" by (simp add: mux_ready_def demo_tt06_def)
  have clk: "(''rp_projclk'', 0) \<in> set (all_pins ?G)" by (simp add: demo_tt06_def)
  obtain s1 s2 unc s3 s4
    where b: "begin_inputs_all ?G ?s0 = Inr s1" "std_pins ?G s1"
      "begin_alwaysOut ?G s1 = Inr s2" "std_pins ?G s2" "cfg_step ?G s1 s2"
      "for_each (begin_asiconboard_body env_high) (map fst (all_pins ?G)) ([], s2) = Inr (unc, s3)"
      "std_pins ?G s3" "cfg_step ?G s2 s3"
      "begin_muxPins ?G (errlog unc s3) = Inr s4" "mux_step ?G (errlog unc s3) s4"
      "begin_asiconboard ?G env_high ?s0 = Inr (line_set_mode 0 OUT s4)"
    by (rule begin_asiconboard_steps [OF wf0 mr0 clk])
  have d2: "\<not> dieOnInputControlSwitchHigh s2"
    using begin_inputs_all_kept(2) [OF b(1)] cfg_step_kept(2) [OF b(5)] by simp
  have in0: "(''in0'', 9) \<in> set (all_pins ?G)" and in1: "(''in1'', 10) \<in> set (all_pins ?G)"
    by (simp_all add: demo_tt06_def)
  have sw: "startswith ''in0'' ''in''" "startswith ''in1'' ''in''"
    by (simp_all add: startswith_def)
  define u where "u = line_set_mode 9 OUT s2"
  have e0: "begin_asiconboard_body env_high ''in0'' ([], s2) = Inr ([], u)"
    unfolding asic_body_std [OF b(4) in0 sw(1)] using d2 by (simp add: u_def)
  have su: "std_pins ?G u" unfolding u_def using b(4) by (simp add: std_pins_def)
  have du: "\<not> dieOnInputControlSwitchHigh u" using d2 by (simp add: u_def)
  have e1: "begin_asiconboard_body env_high ''in1'' ([], u) = Inr ([], line_set_mode 10 OUT u)"
    unfolding asic_body_std [OF su in1 sw(2)] using du by simp
  have sk: "\<not> startswith ''rp_projclk'' ''in''" "\<not> startswith ''nprojectrst'' ''in''"
    "\<not> startswith ''ncrst'' ''in''" "\<not> startswith ''cinc'' ''in''"
    "\<not> startswith ''cena'' ''in''" "\<not> startswith ''out0'' ''in''"
    by (simp_all add: startswith_def)
  have names: "map fst (all_pins ?G) = [''rp_projclk'', ''nprojectrst'', ''ncrst'', ''cinc'',
      ''cena'', ''out0'', ''in0'', ''in1'']"
    by (simp add: demo_tt06_def)
  have "for_each (begin_asiconboard_body env_high) (map fst (all_pins ?G)) ([], s2) =
      Inr ([], line_set_mode 10 OUT u)"
    unfolding names by (simp add: asic_body_skip sk e0 e1)
  with b(6) have r: "s3 = line_set_mode 10 OUT u" by simp
  have "line_mode (lines s3 9) = OUT" by (simp add: r u_def)
  then have "line_mode (lines (line_set_mode 0 OUT s4) 9) = OUT"
    using mux_step_kept(1) [OF b(10)] by simp
  moreover have "set_mode demo_modes demo_tt06 env_high 1 ?p = Inr (line_set_mode 0 OUT s4)"
    using b(11) set_mode_modes(1) [OF demo_modes_simps(5), of ?G env_high ?p] by simp
  moreover have "env_high (lines ?p) 9" by (simp add: env_high_def)
  ultimately show ?thesis using in0 by simp
qed

section \<open>Setting a mode twice\<close>

lemma frame_eqI:
  assumes "\<And>g. line_out (lines t g) = line_out (lines s g)"
    and "\<And>g. g \<notin> declared_gpios G \<Longrightarrow> lines t g = lines s g"
    and "dieOnInputControlSwitchHigh t = dieOnInputControlSwitchHigh s"
    and "mode_attr t = mode_attr s"
    and "muxCtrl t = None \<longleftrightarrow> muxCtrl s = None"
  shows "frame_eq G s t"
  unfolding frame_eq_def using assms by blast

lemma frame_eqD:
  assumes "frame_eq G s t"
  shows "line_out (lines t g) = line_out (lines s g)"
    and "g \<notin> declared_gpios G \<Longrightarrow> lines t g = lines s g"
    and "dieOnInputControlSwitchHigh t = dieOnInputControlSwitchHigh s"
    and "mode_attr t = mode_attr s"
    and "muxCtrl t = None \<longleftrightarrow> muxCtrl s = None"
  using assms unfolding frame_eq_def by blast+

lemma frame_eq_refl: "frame_eq G s s"
  by (rule frame_eqI) (rule refl)+

lemma frame_eq_trans:
  assumes a: "frame_eq G s t" and b: "frame_eq G t u"
  shows "frame_eq G s u"
proof (rule frame_eqI)
  fix g
  show "line_out (lines u g) = line_out (lines s g)"
    by (rule trans [OF frame_eqD(1) [OF b] frame_eqD(1) [OF a]])
  show "lines u g = lines s g" if "g \<notin> declared_gpios G"
    by (rule trans [OF frame_eqD(2) [OF b that] frame_eqD(2) [OF a that]])
next
  show "dieOnInputControlSwitchHigh u = dieOnInputControlSwitchHigh s"
    by (rule trans [OF frame_eqD(3) [OF b] frame_eqD(3) [OF a]])
  show "mode_attr u = mode_attr s"
    by (rule trans [OF frame_eqD(4) [OF b] frame_eqD(4) [OF a]])
  show "muxCtrl u = None \<longleftrightarrow> muxCtrl s = None"
    by (rule trans [OF frame_eqD(5) [OF b] frame_eqD(5) [OF a]])
qed

lemma frame_eq_inputs_all:
  assumes r: "begin_inputs_all G s = Inr s1"
  shows "frame_eq G s s1"
proof (rule frame_eqI)
  fix g
  show "line_out (lines s1 g) = line_out (lines s g)"
    by (rule begin_inputs_all_kept(4) [OF r])
  show "lines s1 g = lines s g" if "g \<notin> declared_gpios G"
    by (rule begin_inputs_all_frame [OF r that])
next
  show "dieOnInputControlSwitchHigh s1 = dieOnInputControlSwitchHigh s"
    by (rule begin_inputs_all_kept(2) [OF r])
  show "mode_attr s1 = mode_attr s"
    by (rule begin_inputs_all_kept(1) [OF r])
  show "muxCtrl s1 = None \<longleftrightarrow> muxCtrl s = None"
    by (rule arg_cong [OF begin_inputs_all_kept(3) [OF r]])
qed

lemma frame_eq_cfg_step:
  assumes r: "cfg_step G s t"
  shows "frame_eq G s t"
proof (rule frame_eqI)
  fix g
  show "line_out (lines t g) = line_out (lines s g)"
    by (rule cfg_step_kept(5) [OF r])
  show "lines t g = lines s g" if "g \<notin> declared_gpios G"
    by (rule cfg_step_kept(6) [OF r that])
next
  show "dieOnInputControlSwitchHigh t = dieOnInputControlSwitchHigh s"
    by (rule cfg_step_kept(2) [OF r])
  show "mode_attr t = mode_attr s"
    by (rule cfg_step_kept(1) [OF r])
  show "muxCtrl t = None \<longleftrightarrow> muxCtrl s = None"
    by (rule arg_cong [OF cfg_step_kept(3) [OF r]])
qed

lemma mux_step_none: "mux_step G s t \<Longrightarrow> (muxCtrl t = None) = (muxCtrl s = None)"
  unfolding mux_step_def by blast

lemma frame_eq_mux_step:
  assumes r: "mux_step G s t"
  shows "frame_eq G s t"
proof (rule frame_eqI)
  fix g
  have l: "lines t = lines s" by (rule mux_step_kept(1) [OF r])
  show "line_out (lines t g) = line_out (lines s g)" by (simp only: l)
  show "lines t g = lines s g" if "g \<notin> declared_gpios G" by (simp only: l)
next
  show "dieOnInputControlSwitchHigh t = dieOnInputControlSwitchHigh s"
    by (rule mux_step_kept(3) [OF r])
  show "mode_attr t = mode_attr s"
    by (rule mux_step_kept(2) [OF r])
  show "muxCtrl t = None \<longleftrightarrow> muxCtrl s = None"
    by (rule mux_step_none [OF r])
qed

lemma frame_eq_clk:
  "(''rp_projclk'', g) \<in> set (all_pins G) \<Longrightarrow> frame_eq G s (line_set_mode g m s)"
proof -
  assume "(''rp_projclk'', g) \<in> set (all_pins G)"
  moreover have "''rp_projclk'' \<noteq> muxName" by (simp add: muxName_def)
  ultimately have "g \<in> declared_gpios G" by (rule declared_gpio)
  then show ?thesis by (rule frame_eq_cfg_step [OF cfg_step_set_mode])
qed


lemma line_cfg_eq:
  fixes x y :: gpio_line
  shows "line_out x = line_out y \<Longrightarrow>
    x\<lparr>line_mode := a, line_pull := b\<rparr> = y\<lparr>line_mode := a, line_pull := b\<rparr>"
  by (cases x; cases y) simp

lemma begin_inputs_all_cong:
  assumes wn: "wf_names G" and fe: "frame_eq G s t"
    and rs: "begin_inputs_all G s = Inr s1" and rt: "begin_inputs_all G t = Inr t1"
  shows "lines t1 = lines s1"
proof
  fix g
  show "lines t1 g = lines s1 g"
  proof (cases "g \<in> declared_gpios G")
    case True
    then obtain n where n: "(n, g) \<in> set (all_pins G)" "n \<noteq> muxName"
      unfolding declared_gpios_def by force
    have a: "lines s1 g = (lines s g)\<lparr>line_mode := ptype G n, line_pull := default_pull G n\<rparr>"
      using wn rs n by (rule begin_inputs_all_line)
    have b: "lines t1 g = (lines t g)\<lparr>line_mode := ptype G n, line_pull := default_pull G n\<rparr>"
      using wn rt n by (rule begin_inputs_all_line)
    have c: "line_out (lines t g) = line_out (lines s g)"
      by (rule frame_eqD(1) [OF fe])
    show ?thesis unfolding a b by (rule line_cfg_eq [OF c])
  next
    case False
    have "lines t1 g = lines t g" by (rule begin_inputs_all_frame [OF rt False])
    also have "\<dots> = lines s g" by (rule frame_eqD(2) [OF fe False])
    also have "\<dots> = lines s1 g" by (rule begin_inputs_all_frame [OF rs False, symmetric])
    finally show ?thesis .
  qed
qed


lemma alwaysOut_body_cong:
  assumes sa: "std_pins G r" and sb: "std_pins G t" and l: "lines t = lines r"
    and n: "n \<in> declared G"
    and b: "bind (getattr r n) (\<lambda>p. set_pin_mode p OUT r) = Inr r'"
  shows "\<exists>t'. bind (getattr t n) (\<lambda>p. set_pin_mode p OUT t) = Inr t' \<and>
    std_pins G r' \<and> std_pins G t' \<and> lines t' = lines r'"
proof -
  from declaredD [OF n] obtain g where g: "(n, g) \<in> set (all_pins G)" "n \<noteq> muxName"
    by blast
  have dg: "g \<in> declared_gpios G" by (rule declared_gpio [OF g])
  have er: "bind (getattr r n) (\<lambda>p. set_pin_mode p OUT r) = Inr (line_set_mode g OUT r)"
    by (rule set_mode_present [OF std_pins_present [OF sa] g])
  have et: "bind (getattr t n) (\<lambda>p. set_pin_mode p OUT t) = Inr (line_set_mode g OUT t)"
    by (rule set_mode_present [OF std_pins_present [OF sb] g])
  from b er have r': "r' = line_set_mode g OUT r" by simp
  have s1: "std_pins G r'" unfolding r'
    by (rule std_pins_cfg_step [OF cfg_step_set_mode [OF dg] sa])
  have s2: "std_pins G (line_set_mode g OUT t)"
    by (rule std_pins_cfg_step [OF cfg_step_set_mode [OF dg] sb])
  have s3: "lines (line_set_mode g OUT t) = lines r'"
    unfolding r' by (simp add: line_set_mode_simps l)
  show ?thesis by (intro exI conjI) (rule et, rule s1, rule s2, rule s3)
qed

lemma begin_alwaysOut_cong:
  assumes sa: "std_pins G a" and sb: "std_pins G b" and l: "lines b = lines a"
    and sub: "set (always_outputs G) \<subseteq> declared G"
    and ra: "begin_alwaysOut G a = Inr a'" and rb: "begin_alwaysOut G b = Inr b'"
  shows "lines b' = lines a'"
proof -
  define Rel where "Rel = (\<lambda>r t. std_pins G r \<and> std_pins G t \<and> lines t = lines r)"
  have r0: "Rel a b" unfolding Rel_def using sa sb l by simp
  have stp: "\<exists>t'. bind (getattr t n) (\<lambda>p. set_pin_mode p OUT t) = Inr t' \<and> Rel r' t'"
    if "n \<in> set (always_outputs G)" "Rel r t"
      "bind (getattr r n) (\<lambda>p. set_pin_mode p OUT r) = Inr r'" for n r t r'
  proof -
    from that(1) sub have n: "n \<in> declared G" by blast
    from that(2) have h: "std_pins G r" "std_pins G t" "lines t = lines r"
      unfolding Rel_def by simp_all
    from alwaysOut_body_cong [OF h n that(3)] show ?thesis unfolding Rel_def by simp
  qed
  have "\<exists>t'. for_each (\<lambda>pname s. bind (getattr s pname) (\<lambda>p. set_pin_mode p OUT s))
      (always_outputs G) b = Inr t' \<and> Rel a' t'"
    by (rule for_each_related [where Rel = Rel
          and body = "\<lambda>pname s. bind (getattr s pname) (\<lambda>p. set_pin_mode p OUT s)",
          OF ra [unfolded begin_alwaysOut_def] r0 stp])
  then obtain t' where t': "begin_alwaysOut G b = Inr t'" "Rel a' t'"
    unfolding begin_alwaysOut_def by blast
  from t'(1) rb have "t' = b'" by simp
  with t'(2) show ?thesis unfolding Rel_def by simp
qed


lemma asic_body_cong:
  assumes sr: "std_pins G r" and st: "std_pins G t" and l: "lines t = lines r"
    and d: "dieOnInputControlSwitchHigh t = dieOnInputControlSwitchHigh r"
    and n: "n \<in> fst ` set (all_pins G)"
    and b: "begin_asiconboard_body E n (ur, r) = Inr (ur', r')"
  shows "\<exists>ut' t'. begin_asiconboard_body E n (ut, t) = Inr (ut', t') \<and>
    std_pins G r' \<and> std_pins G t' \<and> lines t' = lines r' \<and>
    dieOnInputControlSwitchHigh t' = dieOnInputControlSwitchHigh r'"
proof -
  obtain ut' t' where bt: "begin_asiconboard_body E n (ut, t) = Inr (ut', t')"
    and spt: "std_pins G t'" and ct: "cfg_step G t t'"
    by (rule asic_body_result [OF st n])
  obtain ur2 r2 where br: "begin_asiconboard_body E n (ur, r) = Inr (ur2, r2)"
    and spr2: "std_pins G r2" and cr2: "cfg_step G r r2"
    by (rule asic_body_result [OF sr n])
  from b br have eq: "r2 = r'" by simp
  have spr: "std_pins G r'" using spr2 unfolding eq .
  have cr: "cfg_step G r r'" using cr2 unfolding eq .
  have dd: "dieOnInputControlSwitchHigh t' = dieOnInputControlSwitchHigh r'"
    unfolding cfg_step_kept(2) [OF ct] cfg_step_kept(2) [OF cr] by (rule d)
  have ll: "lines t' = lines r'"
  proof (cases "startswith n ''in''")
    case False
    from bt have "t' = t" unfolding asic_body_skip [OF False] by simp
    moreover from b have "r' = r" unfolding asic_body_skip [OF False] by simp
    ultimately show ?thesis using l by simp
  next
    case True
    from n obtain g where g: "(n, g) \<in> set (all_pins G)" by force
    note et = bt [unfolded asic_body_std [OF st g True]]
    note er = b [unfolded asic_body_std [OF sr g True]]
    show ?thesis
    proof (cases "dieOnInputControlSwitchHigh r")
      case False
      with d have "\<not> dieOnInputControlSwitchHigh t" by simp
      with et have "t' = line_set_mode g OUT t" by simp
      moreover from er False have "r' = line_set_mode g OUT r" by simp
      ultimately show ?thesis by (simp add: line_set_mode_simps l)
    next
      case dT: True
      with d have dt: "dieOnInputControlSwitchHigh t" by simp
      show ?thesis
      proof (cases "level E (lines r) g")
        case True
        with l have "level E (lines t) g" by simp
        with et dt have "t' = log_warn (contention_warning n) (snd (raw_read E g t))" by simp
        moreover from er dT True
        have "r' = log_warn (contention_warning n) (snd (raw_read E g r))" by simp
        ultimately show ?thesis by (simp add: log_warn_simps lines_raw_read l)
      next
        case False
        with l have "\<not> level E (lines t) g" by simp
        with et dt have "t' = line_set_mode g OUT (snd (raw_read E g t))" by simp
        moreover from er dT False
        have "r' = line_set_mode g OUT (snd (raw_read E g r))" by simp
        ultimately show ?thesis by (simp add: line_set_mode_simps lines_raw_read l)
      qed
    qed
  qed
  show ?thesis by (intro exI conjI) (rule bt, rule spr, rule spt, rule ll, rule dd)
qed


lemma asic_pass_cong:
  assumes sa: "std_pins G a" and sb: "std_pins G b" and l: "lines b = lines a"
    and d: "dieOnInputControlSwitchHigh b = dieOnInputControlSwitchHigh a"
    and ra: "for_each (begin_asiconboard_body E) (map fst (all_pins G)) (ua, a) = Inr (ua', a')"
    and rb: "for_each (begin_asiconboard_body E) (map fst (all_pins G)) (ub, b) = Inr (ub', b')"
  shows "lines b' = lines a'"
proof -
  define Rel where "Rel = (\<lambda>(r :: string list \<times> pins) (t :: string list \<times> pins).
     std_pins G (snd r) \<and> std_pins G (snd t) \<and> lines (snd t) = lines (snd r) \<and>
     dieOnInputControlSwitchHigh (snd t) = dieOnInputControlSwitchHigh (snd r))"
  have r0: "Rel (ua, a) (ub, b)" unfolding Rel_def using sa sb l d by simp
  have stp: "\<exists>t'. begin_asiconboard_body E n t = Inr t' \<and> Rel r' t'"
    if "n \<in> set (map fst (all_pins G))" "Rel r t" "begin_asiconboard_body E n r = Inr r'"
    for n and r t r' :: "string list \<times> pins"
  proof -
    from that(1) have n: "n \<in> fst ` set (all_pins G)" by simp
    from that(2) have h: "std_pins G (snd r)" "std_pins G (snd t)"
      "lines (snd t) = lines (snd r)"
      "dieOnInputControlSwitchHigh (snd t) = dieOnInputControlSwitchHigh (snd r)"
      unfolding Rel_def by simp_all
    from that(3) have b: "begin_asiconboard_body E n (fst r, snd r) = Inr (fst r', snd r')"
      by simp
    from asic_body_cong [OF h n b, of "fst t"]
    obtain ut' t' where "begin_asiconboard_body E n (fst t, snd t) = Inr (ut', t')"
      "std_pins G (snd r')" "std_pins G t'" "lines t' = lines (snd r')"
      "dieOnInputControlSwitchHigh t' = dieOnInputControlSwitchHigh (snd r')"
      by blast
    then have "begin_asiconboard_body E n t = Inr (ut', t') \<and> Rel r' (ut', t')"
      unfolding Rel_def by simp
    then show ?thesis by blast
  qed
  have "\<exists>t'. for_each (begin_asiconboard_body E) (map fst (all_pins G)) (ub, b) = Inr t' \<and>
      Rel (ua', a') t'"
    by (rule for_each_related [where Rel = Rel and body = "begin_asiconboard_body E",
          OF ra r0 stp])
  then obtain t' where t': "for_each (begin_asiconboard_body E) (map fst (all_pins G)) (ub, b)
      = Inr t'" "Rel (ua', a') t'"
    by blast
  from t'(1) rb have "t' = (ub', b')" by simp
  with t'(2) show ?thesis unfolding Rel_def by simp
qed

lemma standalone_body_form:
  assumes su: "std_pins G u" and g: "(n, g) \<in> set (all_pins G)"
    and bu: "begin_standalone_body n u = Inr u'"
  shows "lines u' = lines
      (if startswith n ''in''
       then line_set_pull g PULL_DOWN (if startswith n ''out'' then line_set_mode g OUT u else u)
       else (if startswith n ''out'' then line_set_mode g OUT u else u))"
proof -
  have a1: "attrs u n = Some (StandardPin n g)" if "startswith n ''out''"
    by (rule std_pins_attr [OF su g startswith_out_not_mux [OF that]])
  have a2: "attrs u n = Some (StandardPin n g)" if "startswith n ''in''"
    by (rule std_pins_attr [OF su g startswith_in_not_mux [OF that]])
  show ?thesis
  proof (cases "startswith n ''out''")
    case oT: True
    show ?thesis
    proof (cases "startswith n ''in''")
      case True
      from bu show ?thesis
        by (simp add: begin_standalone_body_def oT True a1 [OF oT] getattr_Some
            line_set_mode_simps line_set_pull_simps)
    next
      case False
      from bu show ?thesis
        by (simp add: begin_standalone_body_def oT False a1 [OF oT] getattr_Some)
    qed
  next
    case oF: False
    show ?thesis
    proof (cases "startswith n ''in''")
      case True
      from bu show ?thesis
        by (simp add: begin_standalone_body_def oF True a2 [OF True] getattr_Some)
    next
      case False
      from bu show ?thesis
        by (simp add: begin_standalone_body_def oF False)
    qed
  qed
qed


lemma standalone_pass_cong:
  assumes sa: "std_pins G a" and sb: "std_pins G b" and l: "lines b = lines a"
    and ra: "for_each begin_standalone_body (map fst (all_pins G)) a = Inr a'"
    and rb: "for_each begin_standalone_body (map fst (all_pins G)) b = Inr b'"
  shows "lines b' = lines a'"
proof -
  define Rel where "Rel = (\<lambda>r t. std_pins G r \<and> std_pins G t \<and> lines t = lines r)"
  have r0: "Rel a b" unfolding Rel_def using sa sb l by simp
  have stp: "\<exists>t'. begin_standalone_body n t = Inr t' \<and> Rel r' t'"
    if "n \<in> set (map fst (all_pins G))" "Rel r t" "begin_standalone_body n r = Inr r'"
    for n r t r'
  proof -
    from that(1) have n: "n \<in> fst ` set (all_pins G)" by simp
    then obtain g where g: "(n, g) \<in> set (all_pins G)" by force
    from that(2) have h: "std_pins G r" "std_pins G t" "lines t = lines r"
      unfolding Rel_def by simp_all
    from standalone_body_cfg_step [OF h(2) n]
    obtain t' where bt: "begin_standalone_body n t = Inr t'" and spt: "std_pins G t'"
      by blast
    from standalone_body_cfg_step [OF h(1) n] that(3) have spr: "std_pins G r'" by simp
    have "lines t' = lines r'"
      unfolding standalone_body_form [OF h(2) g bt] standalone_body_form [OF h(1) g that(3)]
      by (simp add: line_set_mode_simps line_set_pull_simps h(3))
    with spt spr have "Rel r' t'" unfolding Rel_def by simp
    with bt show ?thesis by blast
  qed
  have "\<exists>t'. for_each begin_standalone_body (map fst (all_pins G)) b = Inr t' \<and> Rel a' t'"
    by (rule for_each_related [where Rel = Rel and body = begin_standalone_body,
          OF ra r0 stp])
  then obtain t' where t': "for_each begin_standalone_body (map fst (all_pins G)) b = Inr t'"
    "Rel a' t'"
    by blast
  from t'(1) rb have "t' = b'" by simp
  with t'(2) show ?thesis unfolding Rel_def by simp
qed

subsection \<open>A transition depends on the frame only\<close>

lemma begin_safe_cong:
  assumes wf: "wf_topology G (mode_attr s)" and mr: "mux_ready G s"
    and wf': "wf_topology G (mode_attr s')" and mr': "mux_ready G s'"
    and fe: "frame_eq G s s'"
  shows "\<exists>t u. begin_safe G s = Inr t \<and> begin_safe G s' = Inr u \<and> lines u = lines t \<and>
    frame_eq G s t"
proof -
  obtain s1 s2 s3 where "begin_inputs_all G s = Inr s1" "std_pins G s1"
    "begin_alwaysOut G s1 = Inr s2" "std_pins G s2" "cfg_step G s1 s2"
    "begin_muxPins G s2 = Inr s3" "mux_step G s2 s3" "begin_safe G s = Inr s3"
    by (rule begin_safe_steps [OF wf mr])
  note a = this
  obtain t1 t2 t3 where "begin_inputs_all G s' = Inr t1" "std_pins G t1"
    "begin_alwaysOut G t1 = Inr t2" "std_pins G t2" "cfg_step G t1 t2"
    "begin_muxPins G t2 = Inr t3" "mux_step G t2 t3" "begin_safe G s' = Inr t3"
    by (rule begin_safe_steps [OF wf' mr'])
  note b = this
  have l1: "lines t1 = lines s1"
    by (rule begin_inputs_all_cong [OF wf_topologyD(1) [OF wf] fe a(1) b(1)])
  have l2: "lines t2 = lines s2"
    by (rule begin_alwaysOut_cong [OF a(2) b(2) l1 wf_topologyD(2) [OF wf] a(3) b(3)])
  have l3: "lines t3 = lines s3"
    unfolding mux_step_kept(1) [OF a(7)] mux_step_kept(1) [OF b(7)] by (rule l2)
  have f: "frame_eq G s s3"
    by (rule frame_eq_trans [OF frame_eq_inputs_all [OF a(1)]
          frame_eq_trans [OF frame_eq_cfg_step [OF a(5)] frame_eq_mux_step [OF a(7)]]])
  show ?thesis by (intro exI conjI) (rule a(8), rule b(8), rule l3, rule f)
qed

lemma begin_asic_manual_inputs_cong:
  assumes wf: "wf_topology G (mode_attr s)" and mr: "mux_ready G s"
    and wf': "wf_topology G (mode_attr s')" and mr': "mux_ready G s'"
    and fe: "frame_eq G s s'"
  shows "\<exists>t u. begin_asic_manual_inputs G s = Inr t \<and> begin_asic_manual_inputs G s' = Inr u \<and>
    lines u = lines t \<and> frame_eq G s t"
proof -
  from wf_topologyD(3) [OF wf] obtain g where clk: "(''rp_projclk'', g) \<in> set (all_pins G)"
    by blast
  obtain s1 s2 s3 where "begin_inputs_all G s = Inr s1" "std_pins G s1"
    "begin_alwaysOut G s1 = Inr s2" "std_pins G s2" "cfg_step G s1 s2"
    "begin_muxPins G s2 = Inr s3" "mux_step G s2 s3"
    "begin_asic_manual_inputs G s = Inr (line_set_mode g IN s3)"
    by (rule begin_asic_manual_inputs_steps [OF wf mr clk])
  note a = this
  obtain t1 t2 t3 where "begin_inputs_all G s' = Inr t1" "std_pins G t1"
    "begin_alwaysOut G t1 = Inr t2" "std_pins G t2" "cfg_step G t1 t2"
    "begin_muxPins G t2 = Inr t3" "mux_step G t2 t3"
    "begin_asic_manual_inputs G s' = Inr (line_set_mode g IN t3)"
    by (rule begin_asic_manual_inputs_steps [OF wf' mr' clk])
  note b = this
  have l1: "lines t1 = lines s1"
    by (rule begin_inputs_all_cong [OF wf_topologyD(1) [OF wf] fe a(1) b(1)])
  have l2: "lines t2 = lines s2"
    by (rule begin_alwaysOut_cong [OF a(2) b(2) l1 wf_topologyD(2) [OF wf] a(3) b(3)])
  have l3: "lines t3 = lines s3"
    unfolding mux_step_kept(1) [OF a(7)] mux_step_kept(1) [OF b(7)] by (rule l2)
  have l4: "lines (line_set_mode g IN t3) = lines (line_set_mode g IN s3)"
    by (simp add: line_set_mode_simps l3)
  have f: "frame_eq G s (line_set_mode g IN s3)"
    by (rule frame_eq_trans [OF frame_eq_inputs_all [OF a(1)]
          frame_eq_trans [OF frame_eq_cfg_step [OF a(5)]
            frame_eq_trans [OF frame_eq_mux_step [OF a(7)] frame_eq_clk [OF clk]]]])
  show ?thesis by (intro exI conjI) (rule a(8), rule b(8), rule l4, rule f)
qed

lemma begin_standalone_cong:
  assumes wf: "wf_topology G (mode_attr s)" and mr: "mux_ready G s"
    and wf': "wf_topology G (mode_attr s')" and mr': "mux_ready G s'"
    and fe: "frame_eq G s s'"
  shows "\<exists>t u. begin_standalone G s = Inr t \<and> begin_standalone G s' = Inr u \<and>
    lines u = lines t \<and> frame_eq G s t"
proof -
  from wf_topologyD(3) [OF wf] obtain g where clk: "(''rp_projclk'', g) \<in> set (all_pins G)"
    by blast
  obtain s1 s2 s3 s4 where "begin_inputs_all G s = Inr s1" "std_pins G s1"
    "begin_alwaysOut G s1 = Inr s2" "std_pins G s2" "cfg_step G s1 s2"
    "for_each begin_standalone_body (map fst (all_pins G)) s2 = Inr s3"
    "std_pins G s3" "cfg_step G s2 s3"
    "begin_muxPins G s3 = Inr s4" "mux_step G s3 s4"
    "begin_standalone G s = Inr (line_set_mode g OUT s4)"
    by (rule begin_standalone_steps [OF wf mr clk])
  note a = this
  obtain t1 t2 t3 t4 where "begin_inputs_all G s' = Inr t1" "std_pins G t1"
    "begin_alwaysOut G t1 = Inr t2" "std_pins G t2" "cfg_step G t1 t2"
    "for_each begin_standalone_body (map fst (all_pins G)) t2 = Inr t3"
    "std_pins G t3" "cfg_step G t2 t3"
    "begin_muxPins G t3 = Inr t4" "mux_step G t3 t4"
    "begin_standalone G s' = Inr (line_set_mode g OUT t4)"
    by (rule begin_standalone_steps [OF wf' mr' clk])
  note b = this
  have l1: "lines t1 = lines s1"
    by (rule begin_inputs_all_cong [OF wf_topologyD(1) [OF wf] fe a(1) b(1)])
  have l2: "lines t2 = lines s2"
    by (rule begin_alwaysOut_cong [OF a(2) b(2) l1 wf_topologyD(2) [OF wf] a(3) b(3)])
  have l3: "lines t3 = lines s3"
    by (rule standalone_pass_cong [OF a(4) b(4) l2 a(6) b(6)])
  have l4: "lines t4 = lines s4"
    unfolding mux_step_kept(1) [OF a(10)] mux_step_kept(1) [OF b(10)] by (rule l3)
  have l5: "lines (line_set_mode g OUT t4) = lines (line_set_mode g OUT s4)"
    by (simp add: line_set_mode_simps l4)
  have f: "frame_eq G s (line_set_mode g OUT s4)"
    by (rule frame_eq_trans [OF frame_eq_inputs_all [OF a(1)]
          frame_eq_trans [OF frame_eq_cfg_step [OF a(5)]
            frame_eq_trans [OF frame_eq_cfg_step [OF a(8)]
              frame_eq_trans [OF frame_eq_mux_step [OF a(10)] frame_eq_clk [OF clk]]]]])
  show ?thesis by (intro exI conjI) (rule a(11), rule b(11), rule l5, rule f)
qed

lemma begin_asiconboard_cong:
  assumes wf: "wf_topology G (mode_attr s)" and mr: "mux_ready G s"
    and wf': "wf_topology G (mode_attr s')" and mr': "mux_ready G s'"
    and fe: "frame_eq G s s'"
  shows "\<exists>t u. begin_asiconboard G E s = Inr t \<and> begin_asiconboard G E s' = Inr u \<and>
    lines u = lines t \<and> frame_eq G s t"
proof -
  from wf_topologyD(3) [OF wf] obtain g where clk: "(''rp_projclk'', g) \<in> set (all_pins G)"
    by blast
  obtain s1 s2 unc s3 s4 where "begin_inputs_all G s = Inr s1" "std_pins G s1"
    "begin_alwaysOut G s1 = Inr s2" "std_pins G s2" "cfg_step G s1 s2"
    "for_each (begin_asiconboard_body E) (map fst (all_pins G)) ([], s2) = Inr (unc, s3)"
    "std_pins G s3" "cfg_step G s2 s3"
    "begin_muxPins G (errlog unc s3) = Inr s4" "mux_step G (errlog unc s3) s4"
    "begin_asiconboard G E s = Inr (line_set_mode g OUT s4)"
    by (rule begin_asiconboard_steps [OF wf mr clk])
  note a = this
  obtain t1 t2 unc' t3 t4 where "begin_inputs_all G s' = Inr t1" "std_pins G t1"
    "begin_alwaysOut G t1 = Inr t2" "std_pins G t2" "cfg_step G t1 t2"
    "for_each (begin_asiconboard_body E) (map fst (all_pins G)) ([], t2) = Inr (unc', t3)"
    "std_pins G t3" "cfg_step G t2 t3"
    "begin_muxPins G (errlog unc' t3) = Inr t4" "mux_step G (errlog unc' t3) t4"
    "begin_asiconboard G E s' = Inr (line_set_mode g OUT t4)"
    by (rule begin_asiconboard_steps [OF wf' mr' clk])
  note b = this
  have l1: "lines t1 = lines s1"
    by (rule begin_inputs_all_cong [OF wf_topologyD(1) [OF wf] fe a(1) b(1)])
  have l2: "lines t2 = lines s2"
    by (rule begin_alwaysOut_cong [OF a(2) b(2) l1 wf_topologyD(2) [OF wf] a(3) b(3)])
  have ds: "dieOnInputControlSwitchHigh s2 = dieOnInputControlSwitchHigh s"
    by (rule frame_eqD(3) [OF frame_eq_trans [OF frame_eq_inputs_all [OF a(1)]
          frame_eq_cfg_step [OF a(5)]]])
  have dt: "dieOnInputControlSwitchHigh t2 = dieOnInputControlSwitchHigh s'"
    by (rule frame_eqD(3) [OF frame_eq_trans [OF frame_eq_inputs_all [OF b(1)]
          frame_eq_cfg_step [OF b(5)]]])
  have d2: "dieOnInputControlSwitchHigh t2 = dieOnInputControlSwitchHigh s2"
    unfolding ds dt by (rule frame_eqD(3) [OF fe])
  have l3: "lines t3 = lines s3"
    by (rule asic_pass_cong [OF a(4) b(4) l2 d2 a(6) b(6)])
  have l4: "lines t4 = lines s4"
    unfolding mux_step_kept(1) [OF a(10)] mux_step_kept(1) [OF b(10)] lines_errlog
    by (rule l3)
  have l5: "lines (line_set_mode g OUT t4) = lines (line_set_mode g OUT s4)"
    by (simp add: line_set_mode_simps l4)
  have f: "frame_eq G s (line_set_mode g OUT s4)"
    by (rule frame_eq_trans [OF frame_eq_inputs_all [OF a(1)]
          frame_eq_trans [OF frame_eq_cfg_step [OF a(5)]
            frame_eq_trans [OF frame_eq_cfg_step [OF a(8)]
              frame_eq_trans [OF frame_eq_cfg_step [OF cfg_step_errlog]
                frame_eq_trans [OF frame_eq_mux_step [OF a(10)] frame_eq_clk [OF clk]]]]]])
  show ?thesis by (intro exI conjI) (rule a(11), rule b(11), rule l5, rule f)
qed


lemma transition_twice:
  assumes cong: "\<And>s s'. wf_topology G (mode_attr s) \<Longrightarrow> mux_ready G s \<Longrightarrow>
      wf_topology G (mode_attr s') \<Longrightarrow> mux_ready G s' \<Longrightarrow> frame_eq G s s' \<Longrightarrow>
      \<exists>t u. f s = Inr t \<and> f s' = Inr u \<and> lines u = lines t \<and> frame_eq G s t"
    and wf: "wf_topology G (Some m)" and mr: "mux_ready G s"
  shows "\<exists>s1 s2. f (s\<lparr>mode_attr := Some m\<rparr>) = Inr s1 \<and>
    f (s1\<lparr>mode_attr := Some m\<rparr>) = Inr s2 \<and> lines s2 = lines s1"
proof -
  let ?s0 = "s\<lparr>mode_attr := Some m\<rparr>"
  have wf0: "wf_topology G (mode_attr ?s0)" using wf by simp
  have mr0: "mux_ready G ?s0" using mr by (simp add: mux_ready_def)
  from cong [OF wf0 mr0 wf0 mr0 frame_eq_refl]
  obtain t where t: "f ?s0 = Inr t" and fe: "frame_eq G ?s0 t" by blast
  have mt: "mode_attr t = Some m" using frame_eqD(4) [OF fe] by simp
  have tt: "t\<lparr>mode_attr := Some m\<rparr> = t" unfolding mt [symmetric] by simp
  have wft: "wf_topology G (mode_attr t)" unfolding mt by (rule wf)
  have mrt: "mux_ready G t" using mr0 frame_eqD(5) [OF fe] by (simp add: mux_ready_def)
  from cong [OF wf0 mr0 wft mrt fe]
  obtain t' u where t': "f ?s0 = Inr t'" and u: "f t = Inr u" and l: "lines u = lines t'"
    by blast
  from t t' have e: "t' = t" by simp
  have u': "f (t\<lparr>mode_attr := Some m\<rparr>) = Inr u" unfolding tt by (rule u)
  have l': "lines u = lines t" using l unfolding e .
  show ?thesis by (intro exI conjI) (rule t, rule u', rule l')
qed

text \<open>
  C7. Setting one of the four operating modes on a well-formed topology returns, setting
  the same mode again on the resulting state (with the same environment) returns as well,
  and every line has after the second transition the configuration (mode, pull and
  output latch) it had after the first.
\<close>

theorem set_mode_idempotent:
  assumes dm: "distinct_modes R" and im: "is_mode R m"
    and wf: "wf_topology G (Some m)" and mr: "mux_ready G s"
  shows "\<exists>s1 s2. set_mode R G E m s = Inr s1 \<and> set_mode R G E m s1 = Inr s2 \<and>
    lines s2 = lines s1"
proof -
  from im consider "m = SAFE R" | "m = ASIC_RP_CONTROL R" | "m = ASIC_MANUAL_INPUTS R"
    | "m = STANDALONE R"
    unfolding is_mode_def by blast
  then show ?thesis
  proof cases
    case 1
    from transition_twice [of G "begin_safe G", OF begin_safe_cong wf mr]
    show ?thesis unfolding 1 set_mode_SAFE .
  next
    case 2
    from transition_twice [of G "begin_asiconboard G E", OF begin_asiconboard_cong wf mr]
    show ?thesis unfolding 2 set_mode_modes(1) [OF dm] .
  next
    case 3
    from transition_twice [of G "begin_asic_manual_inputs G",
        OF begin_asic_manual_inputs_cong wf mr]
    show ?thesis unfolding 3 set_mode_modes(2) [OF dm] .
  next
    case 4
    from transition_twice [of G "begin_standalone G", OF begin_standalone_cong wf mr]
    show ?thesis unfolding 4 set_mode_modes(3) [OF dm] .
  qed
qed

theorem set_mode_idempotent_witness:
  "is_mode demo_modes (ASIC_RP_CONTROL demo_modes) \<and>
   (\<exists>s1 s2. set_mode demo_modes demo_tt04 env_high (ASIC_RP_CONTROL demo_modes) pins_tt04 = Inr s1 \<and>
      set_mode demo_modes demo_tt04 env_high (ASIC_RP_CONTROL demo_modes) s1 = Inr s2 \<and>
      lines s2 = lines s1)"
proof -
  have i: "is_mode demo_modes (ASIC_RP_CONTROL demo_modes)" by (simp add: is_mode_def)
  have w: "wf_topology demo_tt04 (Some (ASIC_RP_CONTROL demo_modes))" by (rule wf_demo_tt04)
  show ?thesis
    by (intro conjI) (rule i,
      rule set_mode_idempotent [OF demo_modes_simps(5) i w mux_ready_demo(3)])
qed

end
